(* ===== verification/Prelude.thy ===== *)
theory Prelude
  imports Main "HOL-Library.Product_Lexorder" "HOL-Library.List_Lexorder" "HOL-Library.Char_ord"
begin

text \<open>
  Shared vocabulary of the development: instants and durations, the errors of the package
  \<^verbatim>\<open>store\<close>, the relational operations the PostgreSQL store is written in
  (\<^verbatim>\<open>UPDATE ... WHERE\<close>, \<^verbatim>\<open>SELECT ... WHERE\<close>, \<^verbatim>\<open>count(*)\<close>,
  \<^verbatim>\<open>ORDER BY ... LIMIT\<close>) on tables that are lists of rows, and the two contracts that
  several components share: an invariant kept by every step, and a class of rows that no step
  changes any more.
\<close>

named_theorems table_simps \<open>rewriting of the relational operations\<close>
named_theorems store_defs \<open>definitions of store operations\<close>

section \<open>Time\<close>

text \<open>
  An instant is a number of nanoseconds since the Unix epoch and a duration a number of
  nanoseconds, as \<^verbatim>\<open>time.Time\<close> and \<^verbatim>\<open>time.Duration\<close> count them.
  A nullable instant (\<^verbatim>\<open>*time.Time\<close>, a nullable column) is an option.
\<close>

type_synonym time = int
type_synonym duration = int

abbreviation millisecond :: duration where "millisecond \<equiv> 1000000"
abbreviation second :: duration where "second \<equiv> 1000000000"
abbreviation minute :: duration where "minute \<equiv> 60000000000"

section \<open>Errors\<close>

text \<open>
  The sentinel errors of \<^verbatim>\<open>store/store.go\<close>; \<open>ErrDB\<close> is every other error a query,
  a violated constraint or a lost connection gives.
\<close>

datatype store_error =
    ErrNotFound | ErrConflict | ErrInvalidTarget | ErrInvalidResult | ErrDB

section \<open>Relational operations\<close>

definition sql_update :: "('r \<Rightarrow> bool) \<Rightarrow> ('r \<Rightarrow> 'r) \<Rightarrow> 'r list \<Rightarrow> 'r list" where
  "sql_update P f rows = map (\<lambda>r. if P r then f r else r) rows"

text \<open>An \<^verbatim>\<open>UPDATE\<close> on a table with a \<^verbatim>\<open>CHECK\<close> constraint: \<open>None\<close> when a
  written row violates it.\<close>

definition sql_update_checked ::
    "('r \<Rightarrow> bool) \<Rightarrow> ('r \<Rightarrow> bool) \<Rightarrow> ('r \<Rightarrow> 'r) \<Rightarrow> 'r list \<Rightarrow> 'r list option" where
  "sql_update_checked check P f rows =
     (if list_all (\<lambda>r. P r \<longrightarrow> check (f r)) rows then Some (sql_update P f rows) else None)"

definition sql_count :: "('r \<Rightarrow> bool) \<Rightarrow> 'r list \<Rightarrow> nat" where
  "sql_count P rows = length (filter P rows)"

text \<open>The first row a query returns (\<^verbatim>\<open>QueryRow\<close>); \<open>None\<close> is \<^verbatim>\<open>pgx.ErrNoRows\<close>.\<close>

definition sql_row :: "('r \<Rightarrow> bool) \<Rightarrow> 'r list \<Rightarrow> 'r option" where
  "sql_row P rows = List.find P rows"

definition sql_exists :: "('r \<Rightarrow> bool) \<Rightarrow> 'r list \<Rightarrow> bool" where
  "sql_exists P rows = list_ex P rows"

lemma length_sql_update [simp, table_simps]: "length (sql_update P f rows) = length rows"
  by (simp add: sql_update_def)

lemma sql_update_Nil [simp, table_simps]: "sql_update P f [] = []"
  by (simp add: sql_update_def)

lemma sql_update_Cons [table_simps]:
  "sql_update P f (r # rows) = (if P r then f r else r) # sql_update P f rows"
  by (simp add: sql_update_def)

lemma set_sql_update: "set (sql_update P f rows) = f ` {r \<in> set rows. P r} \<union> {r \<in> set rows. \<not> P r}"
  by (auto simp: sql_update_def)

lemma in_sql_updateE:
  assumes "r' \<in> set (sql_update P f rows)"
  obtains r where "r \<in> set rows" "P r" "r' = f r" | "r' \<in> set rows" "\<not> P r'"
  using assms by (auto simp: set_sql_update)

lemma sql_update_none: "\<forall>r \<in> set rows. \<not> P r \<Longrightarrow> sql_update P f rows = rows"
  by (induction rows) (auto simp: sql_update_def)

lemma map_key_sql_update:
  "(\<And>r. P r \<Longrightarrow> k (f r) = k r) \<Longrightarrow> map k (sql_update P f rows) = map k rows"
  by (induction rows) (auto simp: sql_update_def)

lemma sql_count_0_iff: "sql_count P rows = 0 \<longleftrightarrow> (\<forall>r \<in> set rows. \<not> P r)"
  by (simp add: sql_count_def filter_empty_conv)

lemma sql_count_le: "sql_count P rows \<le> length rows"
  by (simp add: sql_count_def)

lemma sql_count_mono: "(\<And>r. r \<in> set rows \<Longrightarrow> P r \<Longrightarrow> Q r) \<Longrightarrow> sql_count P rows \<le> sql_count Q rows"
  by (induction rows) (auto simp: sql_count_def)

lemma sql_row_Some: "sql_row P rows = Some r \<Longrightarrow> r \<in> set rows \<and> P r"
  by (auto simp: sql_row_def find_Some_iff in_set_conv_nth)

lemma sql_row_None: "sql_row P rows = None \<longleftrightarrow> (\<forall>r \<in> set rows. \<not> P r)"
  by (auto simp: sql_row_def find_None_iff)

lemma sql_row_cong: "(\<And>r. r \<in> set rows \<Longrightarrow> P r = Q r) \<Longrightarrow> sql_row P rows = sql_row Q rows"
  unfolding sql_row_def by (induction rows) auto

lemma sql_exists_iff [simp]: "sql_exists P rows \<longleftrightarrow> (\<exists>r \<in> set rows. P r)"
  by (simp add: sql_exists_def list_ex_iff)

text \<open>Rows of a table with a primary key.\<close>

lemma distinct_key_unique:
  "distinct (map k rows) \<Longrightarrow> r \<in> set rows \<Longrightarrow> r' \<in> set rows \<Longrightarrow> k r = k r' \<Longrightarrow> r = r'"
  by (metis distinct_map inj_onD)

lemma sql_row_key:
  "distinct (map k rows) \<Longrightarrow> r \<in> set rows \<Longrightarrow> k r = x \<Longrightarrow> sql_row (\<lambda>r. k r = x) rows = Some r"
proof (induction rows)
  case Nil
  then show ?case by simp
next
  case (Cons a rows)
  then show ?case by (auto simp: sql_row_def intro: rev_image_eqI)
qed

lemma sql_row_only:
  assumes "distinct (map k rows)" and "r \<in> set rows" and "P r" and "\<forall>x \<in> set rows. P x \<longrightarrow> k x = k r"
  shows "sql_row P rows = Some r"
proof -
  have "sql_row P rows \<noteq> None" using assms(2,3) by (auto simp: sql_row_None)
  then obtain x where x: "sql_row P rows = Some x" by blast
  with assms(4) have "x \<in> set rows" "k x = k r" by (auto dest: sql_row_Some)
  with x distinct_key_unique [OF assms(1), of x r] assms(2) show ?thesis by simp
qed

lemma sql_count_key_le1:
  assumes "distinct (map k rows)" and "\<And>r. P r \<Longrightarrow> k r = x"
  shows "sql_count P rows \<le> 1"
proof -
  have d: "distinct (map k (filter P rows))"
    using assms(1) by (simp add: distinct_map_filter)
  have s: "set (map k (filter P rows)) \<subseteq> {x}"
    using assms(2) by auto
  have "length (map k (filter P rows)) = card (set (map k (filter P rows)))"
    using d by (simp only: distinct_card)
  also have "\<dots> \<le> card {x}"
    using s by (rule card_mono [rotated]) simp
  finally show ?thesis by (simp add: sql_count_def)
qed

lemma sql_count_key_1:
  assumes "distinct (map k rows)" and "r \<in> set rows" and "P r" and "\<And>r. P r \<Longrightarrow> k r = key"
  shows "sql_count P rows = 1"
proof -
  have "sql_count P rows \<noteq> 0" using assms(2,3) by (auto simp: sql_count_0_iff)
  moreover have "sql_count P rows \<le> 1" using assms(1,4) by (rule sql_count_key_le1)
  ultimately show ?thesis by simp
qed

lemma sql_row_sql_update_key:
  assumes "\<And>r. P r \<Longrightarrow> k (f r) = k r"
  shows "sql_row (\<lambda>r. k r = x) (sql_update P f rows) =
         map_option (\<lambda>r. if P r then f r else r) (sql_row (\<lambda>r. k r = x) rows)"
  using assms by (induction rows) (auto simp: sql_row_def sql_update_def)

text \<open>\<^verbatim>\<open>LEAST\<close> and \<^verbatim>\<open>GREATEST\<close> skip nulls.\<close>

definition sql_least :: "time \<Rightarrow> time option \<Rightarrow> time" where
  "sql_least a b = (case b of None \<Rightarrow> a | Some b' \<Rightarrow> min a b')"

definition coalesce :: "'a option \<Rightarrow> 'a \<Rightarrow> 'a" where
  "coalesce x d = (case x of None \<Rightarrow> d | Some v \<Rightarrow> v)"

lemma coalesce_simps [simp]: "coalesce None d = d" "coalesce (Some v) d = v"
  by (simp_all add: coalesce_def)

text \<open>A comparison of a nullable column with a value is false on null.\<close>

definition after_opt :: "time option \<Rightarrow> time \<Rightarrow> bool" where
  "after_opt x t = (case x of None \<Rightarrow> False | Some v \<Rightarrow> t < v)"

definition upto_opt :: "time option \<Rightarrow> time \<Rightarrow> bool" where
  "upto_opt x t = (case x of None \<Rightarrow> False | Some v \<Rightarrow> v \<le> t)"

lemma after_opt_simps [simp]: "after_opt None t = False" "after_opt (Some v) t = (t < v)"
  by (simp_all add: after_opt_def)

lemma upto_opt_simps [simp]: "upto_opt None t = False" "upto_opt (Some v) t = (v \<le> t)"
  by (simp_all add: upto_opt_def)

lemma after_optE: "after_opt x t \<Longrightarrow> (\<And>v. x = Some v \<Longrightarrow> t < v \<Longrightarrow> R) \<Longrightarrow> R"
  by (cases x) auto

section \<open>Shared contracts\<close>

text \<open>An invariant that every step keeps holds along every run.\<close>

locale invariant_system =
  fixes step :: "'s \<Rightarrow> 's \<Rightarrow> bool"
    and inv :: "'s \<Rightarrow> bool"
  assumes step_inv: "step s t \<Longrightarrow> inv s \<Longrightarrow> inv t"
begin

lemma run_inv: "step\<^sup>*\<^sup>* s t \<Longrightarrow> inv s \<Longrightarrow> inv t"
  by (induction rule: rtranclp_induct) (auto intro: step_inv)

end

text \<open>
  A system whose states hold rows under a key: under the invariant, a row that is
  \<open>settled\<close> is found unchanged in every later state.
\<close>

locale settled_rows = invariant_system step inv
  for step :: "'s \<Rightarrow> 's \<Rightarrow> bool" and inv :: "'s \<Rightarrow> bool" +
  fixes look :: "'s \<Rightarrow> 'k \<Rightarrow> 'r option"
    and settled :: "'r \<Rightarrow> bool"
    and same :: "'r \<Rightarrow> 'r \<Rightarrow> bool"
  assumes step_settled:
      "step s t \<Longrightarrow> inv s \<Longrightarrow> look s k = Some r \<Longrightarrow> settled r \<Longrightarrow>
       \<exists>r'. look t k = Some r' \<and> settled r' \<and> same r r'"
    and same_refl: "same r r"
    and same_trans: "same r r' \<Longrightarrow> same r' r'' \<Longrightarrow> same r r''"
begin

lemma run_settled:
  assumes "step\<^sup>*\<^sup>* s t" and "inv s" and "look s k = Some r" and "settled r"
  shows "\<exists>r'. look t k = Some r' \<and> settled r' \<and> same r r'"
  using assms
proof (induction rule: rtranclp_induct)
  case base
  then show ?case using same_refl by blast
next
  case (step t u)
  from step.prems step.IH obtain r' where r': "look t k = Some r'" "settled r'" "same r r'"
    by blast
  have "inv t" using step.hyps(1) step.prems(1) by (rule run_inv)
  from step_settled [OF step.hyps(2) this r'(1,2)] r'(3) show ?case
    using same_trans by blast
qed

end

end
