(* ===== verification/Database.thy ===== *)
theory Database
  imports Prelude
begin

text \<open>
  The part of the PostgreSQL schema (\<^verbatim>\<open>store/postgres/migrations\<close>) that the delivery
  pipeline works on: one record per table row, the \<^verbatim>\<open>CHECK\<close> constraints a written
  delivery has to satisfy, and the database state the store operations pass along.  A
  transaction that commits is one step from a database to the next, and one that rolls back
  gives the database it started from.  An instant handed to a statement is taken at the microsecond
  resolution of \<^verbatim>\<open>timestamptz\<close>; a \<^verbatim>\<open>jsonb\<close> column holds the text that was written; columns restricted by a
  \<^verbatim>\<open>CHECK ... IN\<close> list are datatypes.
\<close>

section \<open>Rows\<close>

datatype sink = StreamSink | CallbackSink

datatype delivery_status = Pending | Dispatched | Retrying | Delivered | Acked | DeadLetter

record delivery =
  d_id :: string
  d_public_job_id :: string
  d_event_id :: string
  d_source_app_id :: string
  d_target_app_id :: string
  d_sink :: sink
  d_status :: delivery_status
  d_attempts :: int
  d_generation :: int
  d_assigned_connection_id :: "string option"
  d_assignment_token :: "string option"
  d_assignment_started_at :: "time option"
  d_assignment_expires_at :: "time option"
  d_assignment_max_expires_at :: "time option"
  d_callback_token :: "string option"
  d_callback_expires_at :: "time option"
  d_callback_retry_at :: "time option"
  d_callback_url :: "string option"
  d_callback_credential_version :: "int option"
  d_callback_reason :: "string option"
  d_callback_dlq_published_at :: "time option"
  d_created_at :: time
  d_updated_at :: time

record delivery_attempt =
  da_delivery_id :: string
  da_generation :: int
  da_attempt :: int
  da_outcome :: string
  da_reason :: "string option"
  da_callback_token :: "string option"
  da_created_at :: time
  da_updated_at :: time

record delivery_event =
  dl_delivery_id :: string
  dl_generation :: int
  dl_type :: string
  dl_outcome :: string
  dl_reason :: "string option"
  dl_attempt :: "int option"
  dl_occurred_at :: time

record outbox_row =
  ob_id :: string
  ob_event_id :: string
  ob_delivery_id :: string
  ob_subject :: string
  ob_payload :: string
  ob_message_id :: string
  ob_attempts :: int
  ob_generation :: int
  ob_available_at :: time
  ob_claimed_at :: "time option"
  ob_claim_token :: "string option"
  ob_dispatched_at :: "time option"
  ob_failed_at :: "time option"
  ob_last_error :: "string option"
  ob_created_at :: time
  ob_updated_at :: time

datatype delivery_mode = DeliveryQueue | DeliveryWebSocket | DeliveryCallback | DeliveryAll

record application =
  app_id :: string
  app_name :: string
  app_callback_url :: "string option"
  app_delivery_mode :: delivery_mode
  app_enabled :: bool

record credential =
  cr_app_id :: string
  cr_version :: int
  cr_encrypted_hmac_secret :: string
  cr_revoked_at :: "time option"

record event_row =
  ev_id :: string
  ev_type :: string
  ev_source_app_id :: string
  ev_target_app_ids :: "string list"
  ev_data :: string
  ev_created_at :: time
  ev_expires_at :: time
  ev_queue_available_at :: "time option"
  ev_queue_ordering_key :: "string option"
  ev_queue_priority :: int
  ev_queue_metadata :: string

text \<open>The queue: subscriptions, deliveries, their attempts, deduplication keys, schedules and result
  callbacks (migrations 015, 018 and 019).\<close>

record queue_subscription =
  qs_id :: string
  qs_app_id :: string
  qs_name :: string
  qs_enabled :: bool
  qs_paused_at :: "time option"
  qs_draining_at :: "time option"
  qs_drain_deadline_at :: "time option"
  qs_drained_at :: "time option"
  qs_event_types :: "string list"
  qs_max_attempts :: int
  qs_default_visibility_seconds :: int
  qs_max_visibility_seconds :: int
  qs_max_total_lease_seconds :: int
  qs_retention_seconds :: int
  qs_max_in_flight :: int
  qs_max_batch_size :: int
  qs_retry_delay_seconds :: int
  qs_ordering_mode :: string
  qs_deduplication_seconds :: int
  qs_max_dispatch_rate :: "int option"
  qs_success_callback_url :: "string option"
  qs_failure_callback_url :: "string option"
  qs_result_callback_metadata :: string
  qs_policy_version :: int
  qs_created_at :: time
  qs_updated_at :: time

datatype queue_status = QAvailable | QInFlight | QAcked | QDeadLetter

record queue_delivery =
  qd_id :: string
  qd_subscription_id :: string
  qd_app_id :: string
  qd_event_id :: string
  qd_generation :: int
  qd_status :: queue_status
  qd_attempts :: int
  qd_available_at :: time
  qd_receipt_hash :: "string option"
  qd_lease_started_at :: "time option"
  qd_lease_expires_at :: "time option"
  qd_lease_max_expires_at :: "time option"
  qd_ordering_key :: "string option"
  qd_priority :: int
  qd_metadata :: string
  qd_last_reason :: "string option"
  qd_created_at :: time
  qd_updated_at :: time
  qd_expires_at :: time

record queue_attempt =
  qa_delivery_id :: string
  qa_generation :: int
  qa_attempt :: int
  qa_outcome :: string
  qa_reason :: "string option"
  qa_occurred_at :: time

record dedup_key =
  dk_subscription_id :: string
  dk_key_hash :: string
  dk_event_id :: string
  dk_expires_at :: time

record queue_schedule =
  sc_id :: string
  sc_app_id :: string
  sc_subscription_id :: string
  sc_name :: string
  sc_enabled :: bool
  sc_cron_expression :: string
  sc_timezone :: string
  sc_event_type :: string
  sc_data :: string
  sc_ordering_key :: "string option"
  sc_priority :: int
  sc_metadata :: string
  sc_next_run_at :: time
  sc_last_run_at :: "time option"
  sc_claim_token :: "string option"
  sc_claim_expires_at :: "time option"
  sc_claim_generation :: int
  sc_policy_version :: int
  sc_created_at :: time
  sc_updated_at :: time

record schedule_occurrence =
  oc_schedule_id :: string
  oc_scheduled_at :: time
  oc_event_id :: string
  oc_created_at :: time

datatype callback_status = CbPending | CbDelivered | CbFailed

record result_callback =
  rc_id :: string
  rc_app_id :: string
  rc_subscription_id :: string
  rc_delivery_id :: string
  rc_event_id :: string
  rc_generation :: int
  rc_outcome :: string
  rc_url :: string
  rc_payload :: string
  rc_status :: callback_status
  rc_attempts :: int
  rc_available_at :: time
  rc_claim_token :: "string option"
  rc_claim_expires_at :: "time option"
  rc_claim_generation :: int
  rc_last_reason :: "string option"
  rc_created_at :: time
  rc_updated_at :: time

record result_callback_attempt =
  ra_callback_id :: string
  ra_attempt :: int
  ra_claim_generation :: int
  ra_outcome :: string
  ra_reason :: "string option"
  ra_occurred_at :: time

text \<open>The function catalogue, invocations (migration 008) and routing rules (migration 010).\<close>

record function_row =
  fn_id :: string
  fn_app_id :: string
  fn_name :: string
  fn_timeout_seconds :: int
  fn_enabled :: bool
  fn_created_at :: time
  fn_updated_at :: time

datatype invocation_state =
    InvocationPending | InvocationReserved | InvocationClaimed | InvocationSuccess
  | InvocationHandlerError | InvocationUnavailable | InvocationTimeout

record rpc_result =
  rr_invocation_id :: string
  rr_ok :: bool
  rr_result :: string
  rr_error :: string

record invocation_row =
  iv_id :: string
  iv_function_id :: string
  iv_owner_app_id :: string
  iv_caller_app_id :: string
  iv_idempotency_hash :: string
  iv_function_name :: string
  iv_input :: string
  iv_state :: invocation_state
  iv_connection_id :: "string option"
  iv_reply :: "rpc_result option"
  iv_created_at :: time
  iv_claim_by :: time
  iv_deadline :: time
  iv_expires_at :: time
  iv_updated_at :: time

record routing_rule =
  rl_id :: string
  rl_source_app_id :: "string option"
  rl_event_type :: string
  rl_target_app_id :: string
  rl_realtime_channel :: "string option"
  rl_enabled :: bool
  rl_created_at :: time
  rl_updated_at :: time
  rl_deleted_at :: "time option"

text \<open>
  The values of \<^verbatim>\<open>domain/event.go\<close> and \<^verbatim>\<open>domain/job.go\<close>, which the idempotency table
  (migration 005) keeps.  A \<^verbatim>\<open>time.Time\<close> of an event is its instant and its offset from UTC in
  seconds, since the offset shows in its encoding.
\<close>

type_synonym zoned = "time \<times> int"

record queue_event =
  qe_available_at :: zoned
  qe_ordering_key :: string
  qe_priority :: int
  qe_metadata :: string
  qe_dedup_hash :: string

record event =
  e_id :: string
  e_type :: string
  e_source_app_id :: string
  e_target_app_ids :: "string list"
  e_data :: string
  e_created_at :: zoned
  e_queue :: "queue_event option"

datatype job_status = JobPending | JobLeased | JobDelivered | JobAcked | JobDeadLetter

record job =
  j_callback :: bool
  j_callback_attempts :: int
  j_id :: string
  j_event_id :: string
  j_source_app_id :: string
  j_target_app_id :: string
  j_status :: job_status
  j_attempts :: int
  j_created_at :: time
  j_updated_at :: time

record event_publication =
  pb_event :: event
  pb_jobs :: "job list"

record idempotency_row =
  ei_source_app_id :: string
  ei_key_hash :: string
  ei_event_id :: string
  ei_publication :: event_publication
  ei_created_at :: time
  ei_expires_at :: time

record db =
  applications :: "application list"
  credentials :: "credential list"
  events :: "event_row list"
  deliveries :: "delivery list"
  delivery_attempts :: "delivery_attempt list"
  delivery_lifecycle :: "delivery_event list"
  outbox :: "outbox_row list"
  queue_subscriptions :: "queue_subscription list"
  queue_deliveries :: "queue_delivery list"
  queue_attempts :: "queue_attempt list"
  queue_dedup_keys :: "dedup_key list"
  queue_schedules :: "queue_schedule list"
  queue_occurrences :: "schedule_occurrence list"
  result_callbacks :: "result_callback list"
  result_callback_attempts :: "result_callback_attempt list"
  function_catalog :: "function_row list"
  function_invocations :: "invocation_row list"
  routing_rules :: "routing_rule list"
  event_idempotency :: "idempotency_row list"

definition empty_db :: db where
  "empty_db =
     \<lparr>applications = [], credentials = [], events = [], deliveries = [], delivery_attempts = [],
      delivery_lifecycle = [], outbox = [], queue_subscriptions = [], queue_deliveries = [],
      queue_attempts = [], queue_dedup_keys = [], queue_schedules = [], queue_occurrences = [],
      result_callbacks = [], result_callback_attempts = [], function_catalog = [],
      function_invocations = [], routing_rules = [], event_idempotency = []\<rparr>"

section \<open>Constraints\<close>

text \<open>
  \<^verbatim>\<open>deliveries_assignment_complete\<close> in the form migration 009 gives it,
  \<^verbatim>\<open>deliveries_callback_lease_complete\<close> of migration 007, and the ranges of
  \<^verbatim>\<open>attempts\<close> and \<^verbatim>\<open>generation\<close>.
\<close>

definition assignment_complete :: "delivery \<Rightarrow> bool" where
  "assignment_complete d =
     ((d_assigned_connection_id d = None \<and> d_assignment_token d = None \<and>
       d_assignment_expires_at d = None \<and> d_assignment_started_at d = None \<and>
       d_assignment_max_expires_at d = None) \<or>
      (d_assigned_connection_id d \<noteq> None \<and> d_assignment_token d \<noteq> None \<and>
       (case (d_assignment_started_at d, d_assignment_expires_at d, d_assignment_max_expires_at d) of
          (Some s, Some e, Some m) \<Rightarrow> s \<le> e \<and> e \<le> m
        | _ \<Rightarrow> False)))"

definition callback_lease_complete :: "delivery \<Rightarrow> bool" where
  "callback_lease_complete d \<longleftrightarrow> (d_callback_token d = None \<longleftrightarrow> d_callback_expires_at d = None)"

definition delivery_check :: "delivery \<Rightarrow> bool" where
  "delivery_check d \<longleftrightarrow>
     assignment_complete d \<and> callback_lease_complete d \<and> 0 \<le> d_attempts d \<and> 0 < d_generation d"

definition outbox_check :: "outbox_row \<Rightarrow> bool" where
  "outbox_check r \<longleftrightarrow>
     0 \<le> ob_attempts r \<and> 0 < ob_generation r \<and> (ob_claimed_at r = None \<longleftrightarrow> ob_claim_token r = None)"

text \<open>The primary keys and the checks, as a predicate on the database.\<close>

definition deliveries_ok :: "db \<Rightarrow> bool" where
  "deliveries_ok s \<longleftrightarrow> distinct (map d_id (deliveries s)) \<and> list_all delivery_check (deliveries s)"

definition outbox_ok :: "db \<Rightarrow> bool" where
  "outbox_ok s \<longleftrightarrow>
     distinct (map ob_id (outbox s)) \<and> distinct (map ob_delivery_id (outbox s)) \<and>
     distinct (map ob_message_id (outbox s)) \<and> list_all outbox_check (outbox s)"

section \<open>Statements on the two tables\<close>

definition update_deliveries ::
    "(delivery \<Rightarrow> bool) \<Rightarrow> (delivery \<Rightarrow> delivery) \<Rightarrow> db \<Rightarrow> db option" where
  "update_deliveries P f s =
     map_option (\<lambda>t. s\<lparr>deliveries := t\<rparr>) (sql_update_checked delivery_check P f (deliveries s))"

definition find_delivery :: "db \<Rightarrow> string \<Rightarrow> delivery option" where
  "find_delivery s i = sql_row (\<lambda>d. d_id d = i) (deliveries s)"

definition find_outbox :: "db \<Rightarrow> string \<Rightarrow> outbox_row option" where
  "find_outbox s i = sql_row (\<lambda>r. ob_id r = i) (outbox s)"

definition add_lifecycle :: "delivery_event list \<Rightarrow> db \<Rightarrow> db" where
  "add_lifecycle evs s = s\<lparr>delivery_lifecycle := delivery_lifecycle s @ evs\<rparr>"

lemma add_lifecycle_simps [simp]:
  "deliveries (add_lifecycle evs s) = deliveries s"
  "outbox (add_lifecycle evs s) = outbox s"
  "applications (add_lifecycle evs s) = applications s"
  "credentials (add_lifecycle evs s) = credentials s"
  "events (add_lifecycle evs s) = events s"
  "delivery_attempts (add_lifecycle evs s) = delivery_attempts s"
  "delivery_lifecycle (add_lifecycle evs s) = delivery_lifecycle s @ evs"
  "find_delivery (add_lifecycle evs s) i = find_delivery s i"
  "find_outbox (add_lifecycle evs s) i = find_outbox s i"
  "deliveries_ok (add_lifecycle evs s) = deliveries_ok s"
  "outbox_ok (add_lifecycle evs s) = outbox_ok s"
  by (simp_all add: add_lifecycle_def find_delivery_def find_outbox_def deliveries_ok_def outbox_ok_def)

lemma update_deliveries_Some:
  "update_deliveries P f s = Some s' \<longleftrightarrow>
   (\<forall>d \<in> set (deliveries s). P d \<longrightarrow> delivery_check (f d)) \<and>
   s' = s\<lparr>deliveries := sql_update P f (deliveries s)\<rparr>"
  by (auto simp: update_deliveries_def sql_update_checked_def list_all_iff)

lemma update_deliveries_None:
  "update_deliveries P f s = None \<longleftrightarrow> (\<exists>d \<in> set (deliveries s). P d \<and> \<not> delivery_check (f d))"
  by (auto simp: update_deliveries_def sql_update_checked_def list_all_iff)

lemma find_delivery_in: "find_delivery s i = Some d \<Longrightarrow> d \<in> set (deliveries s) \<and> d_id d = i"
  by (auto simp: find_delivery_def dest: sql_row_Some)

lemma find_delivery_unique:
  "deliveries_ok s \<Longrightarrow> find_delivery s i = Some d \<Longrightarrow> d' \<in> set (deliveries s) \<Longrightarrow> d_id d' = i \<Longrightarrow> d' = d"
  using find_delivery_in [of s i d] distinct_key_unique [of d_id "deliveries s" d' d]
  by (auto simp: deliveries_ok_def)

lemma find_delivery_check: "deliveries_ok s \<Longrightarrow> find_delivery s i = Some d \<Longrightarrow> delivery_check d"
  using find_delivery_in [of s i d] by (auto simp: deliveries_ok_def list_all_iff)

text \<open>An update that keeps keys acts on the row a lookup finds, and on no other.\<close>

lemma find_delivery_update:
  assumes "update_deliveries P f s = Some s'" and "\<And>d. d_id (f d) = d_id d"
  shows "find_delivery s' i = map_option (\<lambda>d. if P d then f d else d) (find_delivery s i)"
  using assms(1) sql_row_sql_update_key [of P d_id f i "deliveries s"] assms(2)
  by (simp add: update_deliveries_Some find_delivery_def)

lemma deliveries_ok_update:
  assumes "update_deliveries P f s = Some s'" and "\<And>d. d_id (f d) = d_id d" and "deliveries_ok s"
  shows "deliveries_ok s'"
proof -
  have "map d_id (sql_update P f (deliveries s)) = map d_id (deliveries s)"
    by (rule map_key_sql_update) (simp add: assms(2))
  then show ?thesis
    using assms(1,3) by (auto simp: update_deliveries_Some deliveries_ok_def list_all_iff set_sql_update)
qed

lemma update_deliveries_frame:
  assumes "update_deliveries P f s = Some s'"
  shows "outbox s' = outbox s" "delivery_lifecycle s' = delivery_lifecycle s"
    "delivery_attempts s' = delivery_attempts s" "applications s' = applications s"
    "credentials s' = credentials s" "events s' = events s"
    "find_outbox s' i = find_outbox s i" "outbox_ok s' = outbox_ok s"
  using assms by (auto simp: update_deliveries_Some find_outbox_def outbox_ok_def)

lemma find_outbox_in: "find_outbox s i = Some r \<Longrightarrow> r \<in> set (outbox s) \<and> ob_id r = i"
  by (auto simp: find_outbox_def dest: sql_row_Some)

lemma find_outbox_unique:
  "outbox_ok s \<Longrightarrow> find_outbox s i = Some r \<Longrightarrow> r' \<in> set (outbox s) \<Longrightarrow> ob_id r' = i \<Longrightarrow> r' = r"
  using find_outbox_in [of s i r] distinct_key_unique [of ob_id "outbox s" r' r]
  by (auto simp: outbox_ok_def)

end
