(* ===== verification/StreamAssignments.thy ===== *)
theory StreamAssignments
  imports Database
begin

text \<open>
  Leases of stream deliveries: \<^verbatim>\<open>store/postgres/delivery_assignments.go\<close>.  A gateway
  connection holds a delivery by a fencing triple (connection, token, generation) until the
  lease expires; acknowledgement, release and progress are conditional updates on the triple.
\<close>

section \<open>Operations\<close>

record delivery_assignment =
  as_delivery_id :: string
  as_target_app_id :: string
  as_connection_id :: string
  as_token :: string
  as_attempt :: int
  as_generation :: int
  as_expires_at :: time

datatype assign_disposition =
    DeliveryAssigned delivery_assignment
  | DeliveryAlreadyAssigned
  | DeliveryAlreadyComplete

definition terminal_status :: "delivery_status \<Rightarrow> bool" where
  "terminal_status st \<longleftrightarrow> st = Acked \<or> st = DeadLetter"

definition AssignStreamDelivery ::
    "db \<Rightarrow> string \<Rightarrow> string \<Rightarrow> string \<Rightarrow> string \<Rightarrow> int \<Rightarrow> time \<Rightarrow> duration \<Rightarrow> duration
     \<Rightarrow> (store_error + assign_disposition) \<times> db" where
  "AssignStreamDelivery s deliveryID targetAppID connectionID token generation now lease maxProcessing =
     (if deliveryID = [] \<or> targetAppID = [] \<or> connectionID = [] \<or> token = [] \<or> generation < 1 \<or>
         lease \<le> 0 \<or> maxProcessing < lease
      then (Inl ErrConflict, s)
      else case find_delivery s deliveryID of
        None \<Rightarrow> (Inl ErrNotFound, s)
      | Some d \<Rightarrow>
          if d_target_app_id d \<noteq> targetAppID \<or> d_sink d \<noteq> StreamSink then (Inl ErrNotFound, s)
          else if d_generation d \<noteq> generation then (Inl ErrConflict, s)
          else if terminal_status (d_status d) then (Inr DeliveryAlreadyComplete, s)
          else if after_opt (d_assignment_expires_at d) now then (Inr DeliveryAlreadyAssigned, s)
          else
            let expiresAt = now + lease; maxExpiresAt = now + maxProcessing; attempts = d_attempts d + 1 in
            case update_deliveries (\<lambda>r. d_id r = deliveryID \<and> d_generation r = generation)
                   (\<lambda>r. r\<lparr>d_assigned_connection_id := Some connectionID,
                          d_assignment_token := Some token,
                          d_assignment_started_at := Some now,
                          d_assignment_expires_at := Some expiresAt,
                          d_assignment_max_expires_at := Some maxExpiresAt,
                          d_attempts := attempts,
                          d_updated_at := max (d_updated_at r) now\<rparr>) s of
              None \<Rightarrow> (Inl ErrDB, s)
            | Some s' \<Rightarrow>
                (Inr (DeliveryAssigned
                   \<lparr>as_delivery_id = deliveryID, as_target_app_id = targetAppID,
                    as_connection_id = connectionID, as_token = token, as_attempt = attempts,
                    as_generation = generation, as_expires_at = expiresAt\<rparr>),
                 add_lifecycle [\<lparr>dl_delivery_id = deliveryID, dl_generation = generation,
                    dl_type = ''stream.assigned'', dl_outcome = ''assigned'', dl_reason = None,
                    dl_attempt = Some attempts, dl_occurred_at = now\<rparr>] s'))"

text \<open>The \<^verbatim>\<open>WHERE\<close> clause that acknowledge, release and progress share.\<close>

definition holds_lease :: "string \<Rightarrow> string \<Rightarrow> string \<Rightarrow> string \<Rightarrow> int \<Rightarrow> time \<Rightarrow> delivery \<Rightarrow> bool" where
  "holds_lease deliveryID targetAppID connectionID token generation now d \<longleftrightarrow>
     d_id d = deliveryID \<and> d_target_app_id d = targetAppID \<and> d_sink d = StreamSink \<and>
     d_assigned_connection_id d = Some connectionID \<and> d_assignment_token d = Some token \<and>
     d_generation d = generation \<and> after_opt (d_assignment_expires_at d) now \<and>
     \<not> terminal_status (d_status d)"

text \<open>The lifecycle rows the common table expression inserts for the rows it changed.\<close>

definition lifecycle_of :: "string \<Rightarrow> string \<Rightarrow> time \<Rightarrow> delivery \<Rightarrow> delivery_event" where
  "lifecycle_of typ outcome now d =
     \<lparr>dl_delivery_id = d_id d, dl_generation = d_generation d, dl_type = typ, dl_outcome = outcome,
      dl_reason = None, dl_attempt = Some (d_attempts d), dl_occurred_at = now\<rparr>"

definition streamAssignmentError :: "db \<Rightarrow> string \<Rightarrow> string \<Rightarrow> store_error" where
  "streamAssignmentError s deliveryID targetAppID =
     (case find_delivery s deliveryID of
        None \<Rightarrow> ErrNotFound
      | Some d \<Rightarrow> if d_target_app_id d \<noteq> targetAppID \<or> d_sink d \<noteq> StreamSink then ErrNotFound
                  else ErrConflict)"

definition AcknowledgeStreamDelivery ::
    "db \<Rightarrow> string \<Rightarrow> string \<Rightarrow> string \<Rightarrow> string \<Rightarrow> int \<Rightarrow> time \<Rightarrow> (store_error + unit) \<times> db" where
  "AcknowledgeStreamDelivery s deliveryID targetAppID connectionID token generation now =
     (let P = holds_lease deliveryID targetAppID connectionID token generation now;
          changed = filter P (deliveries s) in
      case update_deliveries P (\<lambda>r. r\<lparr>d_status := Acked, d_updated_at := max (d_updated_at r) now\<rparr>) s of
        None \<Rightarrow> (Inl ErrDB, s)
      | Some s' \<Rightarrow>
          let s'' = add_lifecycle (map (lifecycle_of ''stream.acked'' ''acked'' now) changed) s' in
          if length changed = 1 then (Inr (), s'')
          else case find_delivery s'' deliveryID of
            None \<Rightarrow> (Inl ErrNotFound, s'')
          | Some d \<Rightarrow>
              if d_target_app_id d \<noteq> targetAppID \<or> d_sink d \<noteq> StreamSink then (Inl ErrNotFound, s'')
              else if d_status d = Acked \<and> d_generation d = generation \<and>
                      d_assigned_connection_id d = Some connectionID \<and> d_assignment_token d = Some token
              then (Inr (), s'')
              else (Inl ErrConflict, s''))"

definition ReleaseStreamDelivery ::
    "db \<Rightarrow> string \<Rightarrow> string \<Rightarrow> string \<Rightarrow> string \<Rightarrow> int \<Rightarrow> time \<Rightarrow> (store_error + unit) \<times> db" where
  "ReleaseStreamDelivery s deliveryID targetAppID connectionID token generation now =
     (let P = holds_lease deliveryID targetAppID connectionID token generation now;
          changed = filter P (deliveries s) in
      case update_deliveries P
             (\<lambda>r. r\<lparr>d_status := Retrying, d_assigned_connection_id := None, d_assignment_token := None,
                    d_assignment_started_at := None, d_assignment_expires_at := None,
                    d_assignment_max_expires_at := None,
                    d_updated_at := max (d_updated_at r) now\<rparr>) s of
        None \<Rightarrow> (Inl ErrDB, s)
      | Some s' \<Rightarrow>
          let s'' = add_lifecycle (map (lifecycle_of ''stream.nacked'' ''retrying'' now) changed) s' in
          if length changed = 1 then (Inr (), s'')
          else (Inl (streamAssignmentError s'' deliveryID targetAppID), s''))"

definition ProgressStreamDelivery ::
    "db \<Rightarrow> string \<Rightarrow> string \<Rightarrow> string \<Rightarrow> string \<Rightarrow> int \<Rightarrow> time \<Rightarrow> duration \<Rightarrow> (store_error + unit) \<times> db" where
  "ProgressStreamDelivery s deliveryID targetAppID connectionID token generation now lease =
     (if lease \<le> 0 then (Inl ErrConflict, s)
      else
        let P = (\<lambda>r. holds_lease deliveryID targetAppID connectionID token generation now r \<and>
                     after_opt (d_assignment_max_expires_at r) now);
            changed = filter P (deliveries s) in
        case update_deliveries P
               (\<lambda>r. r\<lparr>d_assignment_expires_at := Some (sql_least (now + lease) (d_assignment_max_expires_at r)),
                      d_updated_at := max (d_updated_at r) now\<rparr>) s of
          None \<Rightarrow> (Inl ErrDB, s)
        | Some s' \<Rightarrow>
            if length changed = 1 then (Inr (), s')
            else (Inl (streamAssignmentError s' deliveryID targetAppID), s'))"

section \<open>Behaviour\<close>

lemma holds_leaseD:
  "holds_lease i a c t g now d \<Longrightarrow>
   d_id d = i \<and> d_target_app_id d = a \<and> d_sink d = StreamSink \<and>
   d_assigned_connection_id d = Some c \<and> d_assignment_token d = Some t \<and> d_generation d = g \<and>
   after_opt (d_assignment_expires_at d) now \<and> \<not> terminal_status (d_status d)"
  by (simp add: holds_lease_def)

lemma filter_holds_lease:
  assumes "deliveries_ok s"
  shows "length (filter (\<lambda>r. holds_lease i a c t g now r \<and> Q r) (deliveries s)) = 1 \<longleftrightarrow>
         (\<exists>d. find_delivery s i = Some d \<and> holds_lease i a c t g now d \<and> Q d)"
proof
  assume "length (filter (\<lambda>r. holds_lease i a c t g now r \<and> Q r) (deliveries s)) = 1"
  then obtain d where d: "filter (\<lambda>r. holds_lease i a c t g now r \<and> Q r) (deliveries s) = [d]"
    by (auto simp: length_Suc_conv)
  then have "d \<in> set (filter (\<lambda>r. holds_lease i a c t g now r \<and> Q r) (deliveries s))" by simp
  then have "d \<in> set (deliveries s)" "holds_lease i a c t g now d" "Q d" by auto
  then show "\<exists>d. find_delivery s i = Some d \<and> holds_lease i a c t g now d \<and> Q d"
    using assms sql_row_key [of d_id "deliveries s" d i]
    by (auto simp: find_delivery_def deliveries_ok_def dest: holds_leaseD)
next
  assume "\<exists>d. find_delivery s i = Some d \<and> holds_lease i a c t g now d \<and> Q d"
  then obtain d where d: "d \<in> set (deliveries s)" "holds_lease i a c t g now d \<and> Q d"
    using find_delivery_in by blast
  have "sql_count (\<lambda>r. holds_lease i a c t g now r \<and> Q r) (deliveries s) = 1"
    by (rule sql_count_key_1 [where k = d_id and r = d and key = i])
      (use assms d in \<open>auto simp: deliveries_ok_def dest: holds_leaseD\<close>)
  then show "length (filter (\<lambda>r. holds_lease i a c t g now r \<and> Q r) (deliveries s)) = 1"
    by (simp add: sql_count_def)
qed

lemma filter_holds_lease_True:
  assumes "deliveries_ok s"
  shows "length (filter (holds_lease i a c t g now) (deliveries s)) = 1 \<longleftrightarrow>
         (\<exists>d. find_delivery s i = Some d \<and> holds_lease i a c t g now d)"
  using filter_holds_lease [OF assms, of i a c t g now "\<lambda>_. True"] by simp

text \<open>The checks of the table never stop one of these updates.\<close>

lemma check_status [simp]:
  "delivery_check (d\<lparr>d_status := st, d_updated_at := u\<rparr>) = delivery_check d"
  by (simp add: delivery_check_def assignment_complete_def callback_lease_complete_def)

lemma check_release [simp]:
  "delivery_check d \<Longrightarrow>
   delivery_check (d\<lparr>d_status := st, d_assigned_connection_id := None, d_assignment_token := None,
     d_assignment_started_at := None, d_assignment_expires_at := None,
     d_assignment_max_expires_at := None, d_updated_at := u\<rparr>)"
  by (simp add: delivery_check_def assignment_complete_def callback_lease_complete_def)

lemma check_assign [simp]:
  "delivery_check d \<Longrightarrow> 0 \<le> n \<Longrightarrow> s \<le> e \<Longrightarrow> e \<le> m \<Longrightarrow>
   delivery_check (d\<lparr>d_assigned_connection_id := Some c, d_assignment_token := Some t,
     d_assignment_started_at := Some s, d_assignment_expires_at := Some e,
     d_assignment_max_expires_at := Some m, d_attempts := n, d_updated_at := u\<rparr>)"
  by (simp add: delivery_check_def assignment_complete_def callback_lease_complete_def)

lemma check_leaseE:
  assumes "delivery_check d" and "after_opt (d_assignment_expires_at d) now"
  obtains s e m where "d_assignment_started_at d = Some s" "d_assignment_expires_at d = Some e"
    "d_assignment_max_expires_at d = Some m" "s \<le> e" "e \<le> m" "now < e"
  using assms
  by (auto simp: delivery_check_def assignment_complete_def split: option.splits elim: after_optE)

lemma check_progress:
  assumes "delivery_check d" and "after_opt (d_assignment_expires_at d) now" and "0 < lease"
    and "\<And>s. d_assignment_started_at d = Some s \<Longrightarrow> s \<le> now + lease"
  shows "delivery_check (d\<lparr>d_assignment_expires_at :=
           Some (sql_least (now + lease) (d_assignment_max_expires_at d)), d_updated_at := u\<rparr>)"
proof -
  obtain s e m where l: "d_assignment_started_at d = Some s" "d_assignment_expires_at d = Some e"
    "d_assignment_max_expires_at d = Some m" "s \<le> e" "e \<le> m" "now < e"
    using assms(1,2) by (rule check_leaseE)
  moreover have "d_assigned_connection_id d \<noteq> None" "d_assignment_token d \<noteq> None"
    using assms(1) l(2) by (auto simp: delivery_check_def assignment_complete_def)
  ultimately show ?thesis
    using assms(1) assms(4) [OF l(1)]
    by (auto simp: delivery_check_def assignment_complete_def callback_lease_complete_def sql_least_def)
qed

text \<open>The row a lookup finds after each operation.\<close>

definition ack_row :: "time \<Rightarrow> delivery \<Rightarrow> delivery" where
  "ack_row now d = d\<lparr>d_status := Acked, d_updated_at := max (d_updated_at d) now\<rparr>"

definition release_row :: "time \<Rightarrow> delivery \<Rightarrow> delivery" where
  "release_row now d =
     d\<lparr>d_status := Retrying, d_assigned_connection_id := None, d_assignment_token := None,
       d_assignment_started_at := None, d_assignment_expires_at := None,
       d_assignment_max_expires_at := None, d_updated_at := max (d_updated_at d) now\<rparr>"

definition progress_row :: "time \<Rightarrow> duration \<Rightarrow> delivery \<Rightarrow> delivery" where
  "progress_row now lease d =
     d\<lparr>d_assignment_expires_at := Some (sql_least (now + lease) (d_assignment_max_expires_at d)),
       d_updated_at := max (d_updated_at d) now\<rparr>"

definition assign_row :: "string \<Rightarrow> string \<Rightarrow> time \<Rightarrow> duration \<Rightarrow> duration \<Rightarrow> delivery \<Rightarrow> delivery" where
  "assign_row c t now lease maxp d =
     d\<lparr>d_assigned_connection_id := Some c, d_assignment_token := Some t,
       d_assignment_started_at := Some now, d_assignment_expires_at := Some (now + lease),
       d_assignment_max_expires_at := Some (now + maxp), d_attempts := d_attempts d + 1,
       d_updated_at := max (d_updated_at d) now\<rparr>"

lemmas lease_rows = ack_row_def release_row_def progress_row_def assign_row_def

text \<open>Progress meets the check of the table unless the clock went back behind the start of the
  lease by more than a lease.\<close>

definition clock_ok :: "delivery \<Rightarrow> time \<Rightarrow> duration \<Rightarrow> bool" where
  "clock_ok d now lease \<longleftrightarrow> (case d_assignment_started_at d of None \<Rightarrow> True | Some s \<Rightarrow> s \<le> now + lease)"

lemma ack_update:
  assumes "deliveries_ok s"
  shows "update_deliveries (holds_lease i a c t g now)
           (\<lambda>r. r\<lparr>d_status := Acked, d_updated_at := max (d_updated_at r) now\<rparr>) s =
         Some (s\<lparr>deliveries := sql_update (holds_lease i a c t g now) (ack_row now) (deliveries s)\<rparr>)"
  using assms by (auto simp: update_deliveries_Some deliveries_ok_def list_all_iff ack_row_def [abs_def])

lemma release_update:
  assumes "deliveries_ok s"
  shows "update_deliveries (holds_lease i a c t g now)
           (\<lambda>r. r\<lparr>d_status := Retrying, d_assigned_connection_id := None, d_assignment_token := None,
                    d_assignment_started_at := None, d_assignment_expires_at := None,
                    d_assignment_max_expires_at := None,
                    d_updated_at := max (d_updated_at r) now\<rparr>) s =
         Some (s\<lparr>deliveries := sql_update (holds_lease i a c t g now) (release_row now) (deliveries s)\<rparr>)"
  using assms by (auto simp: update_deliveries_Some deliveries_ok_def list_all_iff release_row_def [abs_def])

lemma find_delivery_sql_update:
  assumes "\<And>d. P d \<Longrightarrow> d_id (f d) = d_id d"
  shows "find_delivery (s\<lparr>deliveries := sql_update P f (deliveries s)\<rparr>) j =
         map_option (\<lambda>d. if P d then f d else d) (find_delivery s j)"
  using sql_row_sql_update_key [of P d_id f j "deliveries s"] assms by (simp add: find_delivery_def)

lemma Acknowledge_db:
  assumes "deliveries_ok s"
  shows "find_delivery (snd (AcknowledgeStreamDelivery s i a c t g now)) j =
         map_option (\<lambda>d. if holds_lease i a c t g now d then ack_row now d else d) (find_delivery s j)"
  using assms
  by (auto simp: AcknowledgeStreamDelivery_def ack_update Let_def find_delivery_sql_update lease_rows
      split: option.splits)

lemma Release_db:
  assumes "deliveries_ok s"
  shows "find_delivery (snd (ReleaseStreamDelivery s i a c t g now)) j =
         map_option (\<lambda>d. if holds_lease i a c t g now d then release_row now d else d) (find_delivery s j)"
  using assms
  by (auto simp: ReleaseStreamDelivery_def release_update Let_def find_delivery_sql_update lease_rows
      split: option.splits)

lemma progress_update:
  assumes "deliveries_ok s" and "0 < lease"
    and "\<And>d. find_delivery s i = Some d \<Longrightarrow> clock_ok d now lease"
  shows "update_deliveries (\<lambda>r. holds_lease i a c t g now r \<and> after_opt (d_assignment_max_expires_at r) now)
           (\<lambda>r. r\<lparr>d_assignment_expires_at := Some (sql_least (now + lease) (d_assignment_max_expires_at r)),
                      d_updated_at := max (d_updated_at r) now\<rparr>) s =
         Some (s\<lparr>deliveries := sql_update
            (\<lambda>r. holds_lease i a c t g now r \<and> after_opt (d_assignment_max_expires_at r) now)
            (progress_row now lease) (deliveries s)\<rparr>)"
proof -
  have "delivery_check (progress_row now lease d)"
    if d: "d \<in> set (deliveries s)" and h: "holds_lease i a c t g now d" for d
  proof -
    have "find_delivery s i = Some d"
      using d h assms(1) sql_row_key [of d_id "deliveries s" d i]
      by (auto simp: find_delivery_def deliveries_ok_def dest: holds_leaseD)
    then have "clock_ok d now lease" by (rule assms(3))
    moreover have "delivery_check d" using assms(1) d by (auto simp: deliveries_ok_def list_all_iff)
    ultimately show ?thesis
      using h assms(2) unfolding progress_row_def
      by (intro check_progress) (auto simp: clock_ok_def dest: holds_leaseD)
  qed
  then show ?thesis
    by (auto simp: update_deliveries_Some progress_row_def [abs_def])
qed

lemma Progress_db:
  assumes "deliveries_ok s" and "0 < lease"
    and "\<And>d. find_delivery s i = Some d \<Longrightarrow> clock_ok d now lease"
  shows "find_delivery (snd (ProgressStreamDelivery s i a c t g now lease)) j =
         map_option (\<lambda>d. if holds_lease i a c t g now d \<and> after_opt (d_assignment_max_expires_at d) now
                         then progress_row now lease d else d) (find_delivery s j)"
  using assms(2)
  by (simp add: ProgressStreamDelivery_def progress_update [OF assms] Let_def find_delivery_sql_update
      lease_rows)

text \<open>What an assignment returns and stores.\<close>

definition assignable :: "db \<Rightarrow> string \<Rightarrow> string \<Rightarrow> int \<Rightarrow> time \<Rightarrow> delivery \<Rightarrow> bool" where
  "assignable s i a g now d \<longleftrightarrow>
     find_delivery s i = Some d \<and> d_target_app_id d = a \<and> d_sink d = StreamSink \<and> d_generation d = g \<and>
     \<not> terminal_status (d_status d) \<and> \<not> after_opt (d_assignment_expires_at d) now"

definition assign_args_ok ::
    "string \<Rightarrow> string \<Rightarrow> string \<Rightarrow> string \<Rightarrow> int \<Rightarrow> duration \<Rightarrow> duration \<Rightarrow> bool" where
  "assign_args_ok i a c t g lease maxp \<longleftrightarrow>
     i \<noteq> [] \<and> a \<noteq> [] \<and> c \<noteq> [] \<and> t \<noteq> [] \<and> 1 \<le> g \<and> 0 < lease \<and> lease \<le> maxp"

lemma assign_update:
  assumes "deliveries_ok s" and "assignable s i a g now d" and "0 < lease" and "lease \<le> maxp"
  shows "update_deliveries (\<lambda>r. d_id r = i \<and> d_generation r = g)
           (\<lambda>r. r\<lparr>d_assigned_connection_id := Some c, d_assignment_token := Some t,
                   d_assignment_started_at := Some now, d_assignment_expires_at := Some (now + lease),
                   d_assignment_max_expires_at := Some (now + maxp), d_attempts := d_attempts d + 1,
                   d_updated_at := max (d_updated_at r) now\<rparr>) s =
         Some (s\<lparr>deliveries := sql_update (\<lambda>r. d_id r = i \<and> d_generation r = g)
                  (assign_row c t now lease maxp) (deliveries s)\<rparr>)"
proof -
  have u: "r = d" if "r \<in> set (deliveries s)" "d_id r = i" for r
    using find_delivery_unique [OF assms(1)] that assms(2) by (auto simp: assignable_def)
  have "delivery_check d"
    using assms(1,2) find_delivery_check by (auto simp: assignable_def)
  then have "0 \<le> d_attempts d" "delivery_check d" by (auto simp: delivery_check_def)
  then show ?thesis
    using assms(3,4) u
    by (auto simp: update_deliveries_Some sql_update_def assign_row_def intro!: map_cong)
qed

lemma Assign_assigned:
  assumes "deliveries_ok s" and "assignable s i a g now d" and "assign_args_ok i a c t g lease maxp"
  shows "AssignStreamDelivery s i a c t g now lease maxp =
    (Inr (DeliveryAssigned \<lparr>as_delivery_id = i, as_target_app_id = a, as_connection_id = c, as_token = t,
            as_attempt = d_attempts d + 1, as_generation = g, as_expires_at = now + lease\<rparr>),
     add_lifecycle [\<lparr>dl_delivery_id = i, dl_generation = g, dl_type = ''stream.assigned'',
        dl_outcome = ''assigned'', dl_reason = None, dl_attempt = Some (d_attempts d + 1),
        dl_occurred_at = now\<rparr>]
       (s\<lparr>deliveries := sql_update (\<lambda>r. d_id r = i \<and> d_generation r = g)
            (assign_row c t now lease maxp) (deliveries s)\<rparr>))"
proof -
  have "0 < lease" "lease \<le> maxp" using assms(3) by (auto simp: assign_args_ok_def)
  note upd = assign_update [OF assms(1,2) this]
  show ?thesis
    using assms(2,3) upd
    by (auto simp: AssignStreamDelivery_def assignable_def assign_args_ok_def Let_def)
qed

lemma assign_guard:
  "(i = [] \<or> a = [] \<or> c = [] \<or> t = [] \<or> g < 1 \<or> lease \<le> 0 \<or> maxp < lease) =
   (\<not> assign_args_ok i a c t g lease maxp)"
  by (auto simp: assign_args_ok_def)

lemma Assign_otherwise:
  assumes "\<not> (\<exists>d. assignable s i a g now d \<and> assign_args_ok i a c t g lease maxp)"
  shows "\<exists>r. AssignStreamDelivery s i a c t g now lease maxp = (r, s) \<and>
             (\<forall>as. r \<noteq> Inr (DeliveryAssigned as))"
proof (cases "assign_args_ok i a c t g lease maxp")
  case False
  then show ?thesis by (simp add: AssignStreamDelivery_def assign_guard)
next
  case True
  with assms have na: "\<not> assignable s i a g now d" for d by blast
  show ?thesis
  proof (cases "find_delivery s i")
    case None
    then show ?thesis using True by (simp add: AssignStreamDelivery_def assign_guard)
  next
    case (Some d)
    with na [of d] True show ?thesis
      unfolding AssignStreamDelivery_def assign_guard assignable_def by (simp split: if_split) blast
  qed
qed

lemma Assign_db:
  assumes "deliveries_ok s"
  shows "find_delivery (snd (AssignStreamDelivery s i a c t g now lease maxp)) j =
         map_option (\<lambda>d. if j = i \<and> assignable s i a g now d \<and> assign_args_ok i a c t g lease maxp
                         then assign_row c t now lease maxp d else d) (find_delivery s j)"
proof (cases "\<exists>d. assignable s i a g now d \<and> assign_args_ok i a c t g lease maxp")
  case True
  then obtain d where d: "assignable s i a g now d" "assign_args_ok i a c t g lease maxp" by blast
  then have f: "find_delivery s i = Some d" "d_generation d = g" by (auto simp: assignable_def)
  have "map_option (\<lambda>r. if d_id r = i \<and> d_generation r = g then assign_row c t now lease maxp r else r)
          (find_delivery s j) =
        map_option (\<lambda>d. if j = i \<and> assignable s i a g now d \<and> assign_args_ok i a c t g lease maxp
                         then assign_row c t now lease maxp d else d) (find_delivery s j)"
    using d f find_delivery_in [of s j] by (cases "find_delivery s j"; cases "j = i") auto
  moreover have "d_id (assign_row c t now lease maxp r) = d_id r" for r
    by (simp add: assign_row_def)
  ultimately show ?thesis
    by (simp add: Assign_assigned [OF assms d] find_delivery_sql_update)
next
  case False
  from Assign_otherwise [OF this] obtain r
    where "AssignStreamDelivery s i a c t g now lease maxp = (r, s)" by blast
  moreover have "map_option (\<lambda>d. if j = i \<and> assignable s i a g now d \<and> assign_args_ok i a c t g lease maxp
                         then assign_row c t now lease maxp d else d) (find_delivery s j) = find_delivery s j"
    using False by (cases "find_delivery s j") auto
  ultimately show ?thesis by simp
qed

text \<open>The primary key and the checks survive every operation.\<close>

lemma Assign_ok: "deliveries_ok s \<Longrightarrow> deliveries_ok (snd (AssignStreamDelivery s i a c t g now lease maxp))"
  by (auto simp: AssignStreamDelivery_def Let_def split: option.split intro: deliveries_ok_update)

lemma Acknowledge_ok: "deliveries_ok s \<Longrightarrow> deliveries_ok (snd (AcknowledgeStreamDelivery s i a c t g now))"
  by (auto simp: AcknowledgeStreamDelivery_def Let_def split: option.split intro: deliveries_ok_update)

lemma Release_ok: "deliveries_ok s \<Longrightarrow> deliveries_ok (snd (ReleaseStreamDelivery s i a c t g now))"
  by (auto simp: ReleaseStreamDelivery_def Let_def split: option.split intro: deliveries_ok_update)

lemma Progress_ok: "deliveries_ok s \<Longrightarrow> deliveries_ok (snd (ProgressStreamDelivery s i a c t g now lease))"
  by (auto simp: ProgressStreamDelivery_def Let_def split: option.split intro: deliveries_ok_update)

section \<open>The lease, abstractly\<close>

text \<open>What a stream delivery promises its holders: it is vacant, held until an instant that
  progress may move up to a fixed bound, or settled.\<close>

datatype lease = Vacant | Held string string time time | Settled delivery_status

definition abs_lease :: "delivery \<Rightarrow> lease" where
  "abs_lease d =
     (if terminal_status (d_status d) then Settled (d_status d)
      else case (d_assigned_connection_id d, d_assignment_token d,
                 d_assignment_expires_at d, d_assignment_max_expires_at d) of
        (Some c, Some t, Some e, Some m) \<Rightarrow> Held c t e m
      | _ \<Rightarrow> Vacant)"

fun lease_assign :: "string \<Rightarrow> string \<Rightarrow> time \<Rightarrow> duration \<Rightarrow> duration \<Rightarrow> lease \<Rightarrow> lease" where
  "lease_assign c t now lease maxp Vacant = Held c t (now + lease) (now + maxp)"
| "lease_assign c t now lease maxp (Held c' t' e m) =
     (if now < e then Held c' t' e m else Held c t (now + lease) (now + maxp))"
| "lease_assign c t now lease maxp (Settled st) = Settled st"

fun lease_ack :: "string \<Rightarrow> string \<Rightarrow> time \<Rightarrow> lease \<Rightarrow> lease" where
  "lease_ack c t now (Held c' t' e m) =
     (if c = c' \<and> t = t' \<and> now < e then Settled Acked else Held c' t' e m)"
| "lease_ack c t now l = l"

fun lease_release :: "string \<Rightarrow> string \<Rightarrow> time \<Rightarrow> lease \<Rightarrow> lease" where
  "lease_release c t now (Held c' t' e m) =
     (if c = c' \<and> t = t' \<and> now < e then Vacant else Held c' t' e m)"
| "lease_release c t now l = l"

fun lease_progress :: "string \<Rightarrow> string \<Rightarrow> time \<Rightarrow> duration \<Rightarrow> lease \<Rightarrow> lease" where
  "lease_progress c t now lease (Held c' t' e m) =
     (if c = c' \<and> t = t' \<and> now < e then Held c t (min (now + lease) m) m else Held c' t' e m)"
| "lease_progress c t now lease l = l"

lemma assignment_fields:
  assumes "delivery_check d"
  obtains "d_assigned_connection_id d = None" "d_assignment_token d = None"
      "d_assignment_expires_at d = None" "d_assignment_max_expires_at d = None"
      "d_assignment_started_at d = None"
    | c t s e m where "d_assigned_connection_id d = Some c" "d_assignment_token d = Some t"
      "d_assignment_expires_at d = Some e" "d_assignment_max_expires_at d = Some m"
      "d_assignment_started_at d = Some s" "s \<le> e" "e \<le> m"
  using assms
  by (auto simp: delivery_check_def assignment_complete_def split: option.splits)

text \<open>A command of some connection on some delivery.\<close>

datatype lease_cmd = CmdAssign duration duration | CmdAck | CmdRelease | CmdProgress duration

record lease_req =
  rq_delivery :: string
  rq_app :: string
  rq_connection :: string
  rq_token :: string
  rq_generation :: int
  rq_now :: time
  rq_cmd :: lease_cmd

definition exec_lease :: "db \<Rightarrow> lease_req \<Rightarrow> db" where
  "exec_lease s q =
     (case rq_cmd q of
        CmdAssign lease maxp \<Rightarrow>
          snd (AssignStreamDelivery s (rq_delivery q) (rq_app q) (rq_connection q) (rq_token q)
                 (rq_generation q) (rq_now q) lease maxp)
      | CmdAck \<Rightarrow>
          snd (AcknowledgeStreamDelivery s (rq_delivery q) (rq_app q) (rq_connection q) (rq_token q)
                 (rq_generation q) (rq_now q))
      | CmdRelease \<Rightarrow>
          snd (ReleaseStreamDelivery s (rq_delivery q) (rq_app q) (rq_connection q) (rq_token q)
                 (rq_generation q) (rq_now q))
      | CmdProgress lease \<Rightarrow>
          snd (ProgressStreamDelivery s (rq_delivery q) (rq_app q) (rq_connection q) (rq_token q)
                 (rq_generation q) (rq_now q) lease))"

lemma exec_lease_ok: "deliveries_ok s \<Longrightarrow> deliveries_ok (exec_lease s q)"
  by (cases "rq_cmd q")
    (simp_all add: exec_lease_def Assign_ok Acknowledge_ok Release_ok Progress_ok)

lemma Progress_not_held:
  assumes "find_delivery s j = Some d" and "\<not> holds_lease i a c t g now d"
  shows "find_delivery (snd (ProgressStreamDelivery s i a c t g now lease)) j = Some d"
  using assms
  by (auto simp: ProgressStreamDelivery_def Let_def find_delivery_update split: option.split)

lemma exec_lease_other:
  assumes ok: "deliveries_ok s" and f: "find_delivery s i = Some d"
    and h: "d_assignment_token d = Some t" "after_opt (d_assignment_expires_at d) (rq_now q)"
    and other: "rq_token q \<noteq> t"
  shows "find_delivery (exec_lease s q) i = Some d"
proof -
  have n: "\<not> holds_lease j a c (rq_token q) g now d" for j a c g now
    using h(1) other by (auto simp: holds_lease_def)
  have m: "\<not> assignable s j a g (rq_now q) d" for j a g
    using h(2) by (simp add: assignable_def)
  show ?thesis
    by (cases "rq_cmd q")
      (simp_all add: exec_lease_def f n m Assign_db [OF ok] Acknowledge_db [OF ok] Release_db [OF ok]
        Progress_not_held [OF f])
qed

lemma Progress_max:
  assumes "find_delivery s j = Some d"
    and "find_delivery (snd (ProgressStreamDelivery s i a c t g now lease)) j = Some d'"
  shows "d_assignment_token d' = d_assignment_token d \<and>
         d_assignment_max_expires_at d' = d_assignment_max_expires_at d"
  using assms
  by (auto simp: ProgressStreamDelivery_def Let_def find_delivery_update split: option.splits if_splits)

lemma exec_lease_exists:
  assumes "deliveries_ok s"
  shows "find_delivery (exec_lease s q) i = None \<longleftrightarrow> find_delivery s i = None"
  using assms
  by (cases "rq_cmd q")
    (auto simp: exec_lease_def Assign_db Acknowledge_db Release_db ProgressStreamDelivery_def Let_def
      find_delivery_update split: option.splits)

lemma exec_lease_max:
  assumes ok: "deliveries_ok s" and f: "find_delivery s i = Some d"
    and f': "find_delivery (exec_lease s q) i = Some d'" and t: "d_assignment_token d' = Some t"
    and na: "\<And>l m. rq_cmd q = CmdAssign l m \<Longrightarrow> rq_token q \<noteq> t"
  shows "d_assignment_token d = Some t \<and> d_assignment_max_expires_at d' = d_assignment_max_expires_at d"
proof (cases "rq_cmd q")
  case (CmdAssign l m)
  then show ?thesis
    using f f' t na [OF CmdAssign]
    by (auto simp: exec_lease_def Assign_db [OF ok] assign_row_def split: if_splits)
next
  case CmdAck
  then show ?thesis
    using f f' t by (auto simp: exec_lease_def Acknowledge_db [OF ok] ack_row_def split: if_splits)
next
  case CmdRelease
  then show ?thesis
    using f f' t by (auto simp: exec_lease_def Release_db [OF ok] release_row_def split: if_splits)
next
  case (CmdProgress l)
  then show ?thesis
    using f' t Progress_max [OF f] by (auto simp: exec_lease_def)
qed

lemma foldl_exec_ok: "deliveries_ok s \<Longrightarrow> deliveries_ok (foldl exec_lease s qs)"
  by (induction qs arbitrary: s) (auto simp: exec_lease_ok)

lemma ack_refines:
  assumes "delivery_check d" "d_id d = i" "d_target_app_id d = a" "d_sink d = StreamSink" "d_generation d = g"
  shows "abs_lease (if holds_lease i a c t g now d then ack_row now d else d) = lease_ack c t now (abs_lease d)"
  using assms(1)
  by (cases rule: assignment_fields)
    (use assms(2-) in \<open>auto simp: holds_lease_def ack_row_def abs_lease_def terminal_status_def\<close>)

lemma release_refines:
  assumes "delivery_check d" "d_id d = i" "d_target_app_id d = a" "d_sink d = StreamSink" "d_generation d = g"
  shows "abs_lease (if holds_lease i a c t g now d then release_row now d else d) =
         lease_release c t now (abs_lease d)"
  using assms(1)
  by (cases rule: assignment_fields)
    (use assms(2-) in \<open>auto simp: holds_lease_def release_row_def abs_lease_def terminal_status_def\<close>)

lemma progress_refines:
  assumes "delivery_check d" "d_id d = i" "d_target_app_id d = a" "d_sink d = StreamSink" "d_generation d = g"
  shows "abs_lease (if holds_lease i a c t g now d \<and> after_opt (d_assignment_max_expires_at d) now
                    then progress_row now lease d else d) =
         lease_progress c t now lease (abs_lease d)"
  using assms(1)
  by (cases rule: assignment_fields)
    (use assms(2-) in \<open>auto simp: holds_lease_def progress_row_def abs_lease_def terminal_status_def
       sql_least_def\<close>)

lemma assign_refines:
  assumes "delivery_check d" "find_delivery s i = Some d" "d_target_app_id d = a" "d_sink d = StreamSink"
    "d_generation d = g"
  shows "abs_lease (if assignable s i a g now d then assign_row c t now lease maxp d else d) =
         lease_assign c t now lease maxp (abs_lease d)"
  using assms(1)
  by (cases rule: assignment_fields)
    (use assms(2-) in \<open>auto simp: assignable_def assign_row_def abs_lease_def terminal_status_def\<close>)

text \<open>The refinement of each operation, for the row it names and for every other row.\<close>

lemma not_held_elsewhere: "find_delivery s j = Some x \<Longrightarrow> j \<noteq> i \<Longrightarrow> \<not> holds_lease i a c t g now x"
  using find_delivery_in by (auto simp: holds_lease_def)

lemma Assign_refines:
  assumes ok: "deliveries_ok s" and f: "find_delivery s i = Some d"
    and d: "d_target_app_id d = a" "d_sink d = StreamSink" "d_generation d = g"
    and args: "assign_args_ok i a c t g lease maxp"
  shows "map_option abs_lease (find_delivery (snd (AssignStreamDelivery s i a c t g now lease maxp)) j) =
           (if j = i then Some (lease_assign c t now lease maxp (abs_lease d))
            else map_option abs_lease (find_delivery s j))"
  using assign_refines [OF find_delivery_check [OF ok f] f d, of now c t lease maxp] f args
  by (cases "j = i"; cases "find_delivery s j") (auto simp: Assign_db [OF ok] split: if_splits)

lemma Acknowledge_refines:
  assumes ok: "deliveries_ok s" and f: "find_delivery s i = Some d"
    and d: "d_target_app_id d = a" "d_sink d = StreamSink" "d_generation d = g"
  shows "map_option abs_lease (find_delivery (snd (AcknowledgeStreamDelivery s i a c t g now)) j) =
           (if j = i then Some (lease_ack c t now (abs_lease d))
            else map_option abs_lease (find_delivery s j))"
  using ack_refines [OF find_delivery_check [OF ok f] _ d, of i c t now] f find_delivery_in [OF f]
  by (cases "j = i"; cases "find_delivery s j") (auto simp: Acknowledge_db [OF ok] not_held_elsewhere split: if_splits)

lemma Release_refines:
  assumes ok: "deliveries_ok s" and f: "find_delivery s i = Some d"
    and d: "d_target_app_id d = a" "d_sink d = StreamSink" "d_generation d = g"
  shows "map_option abs_lease (find_delivery (snd (ReleaseStreamDelivery s i a c t g now)) j) =
           (if j = i then Some (lease_release c t now (abs_lease d))
            else map_option abs_lease (find_delivery s j))"
  using release_refines [OF find_delivery_check [OF ok f] _ d, of i c t now] f find_delivery_in [OF f]
  by (cases "j = i"; cases "find_delivery s j") (auto simp: Release_db [OF ok] not_held_elsewhere split: if_splits)

lemma Progress_refines:
  assumes ok: "deliveries_ok s" and f: "find_delivery s i = Some d"
    and d: "d_target_app_id d = a" "d_sink d = StreamSink" "d_generation d = g"
    and args: "assign_args_ok i a c t g lease maxp" and clock: "clock_ok d now lease"
  shows "map_option abs_lease (find_delivery (snd (ProgressStreamDelivery s i a c t g now lease)) j) =
           (if j = i then Some (lease_progress c t now lease (abs_lease d))
            else map_option abs_lease (find_delivery s j))"
proof -
  have "0 < lease" using args by (simp add: assign_args_ok_def)
  then have p: "find_delivery (snd (ProgressStreamDelivery s i a c t g now lease)) j =
      map_option (\<lambda>d. if holds_lease i a c t g now d \<and> after_opt (d_assignment_max_expires_at d) now
                         then progress_row now lease d else d) (find_delivery s j)"
    using f clock by (intro Progress_db [OF ok]) auto
  show ?thesis
    unfolding p
    using progress_refines [OF find_delivery_check [OF ok f] _ d, of i c t now lease] f find_delivery_in [OF f]
    by (cases "j = i"; cases "find_delivery s j") (auto simp: not_held_elsewhere split: if_splits)
qed

lemma Acknowledge_result:
  assumes "deliveries_ok s"
  shows "fst (AcknowledgeStreamDelivery s i a c t g now) =
    (case find_delivery s i of
       None \<Rightarrow> Inl ErrNotFound
     | Some d \<Rightarrow>
         if d_target_app_id d \<noteq> a \<or> d_sink d \<noteq> StreamSink then Inl ErrNotFound
         else if holds_lease i a c t g now d \<or>
                 (d_status d = Acked \<and> d_generation d = g \<and>
                  d_assigned_connection_id d = Some c \<and> d_assignment_token d = Some t)
         then Inr () else Inl ErrConflict)"
proof -
  let ?s = "s\<lparr>deliveries := sql_update (holds_lease i a c t g now) (ack_row now) (deliveries s)\<rparr>"
  have l: "length (filter (holds_lease i a c t g now) (deliveries s)) = 1 \<longleftrightarrow>
           (\<exists>d. find_delivery s i = Some d \<and> holds_lease i a c t g now d)"
    using assms by (rule filter_holds_lease_True)
  have f: "find_delivery ?s i =
             map_option (\<lambda>d. if holds_lease i a c t g now d then ack_row now d else d) (find_delivery s i)"
    by (rule find_delivery_sql_update) (simp add: ack_row_def)
  show ?thesis
  proof (cases "\<exists>d. find_delivery s i = Some d \<and> holds_lease i a c t g now d")
    case True
    then obtain d where d: "find_delivery s i = Some d" "holds_lease i a c t g now d" by blast
    have "length (filter (holds_lease i a c t g now) (deliveries s)) = 1" using True l by blast
    moreover have "d_target_app_id d = a" "d_sink d = StreamSink" using d(2) by (auto dest: holds_leaseD)
    ultimately show ?thesis
      using d by (simp add: AcknowledgeStreamDelivery_def ack_update [OF assms] Let_def)
  next
    case False
    then have n: "length (filter (holds_lease i a c t g now) (deliveries s)) \<noteq> 1" using l by blast
    show ?thesis
    proof (cases "find_delivery s i")
      case None
      then show ?thesis using n f by (simp add: AcknowledgeStreamDelivery_def ack_update [OF assms] Let_def)
    next
      case (Some d)
      with False have "\<not> holds_lease i a c t g now d" by blast
      then show ?thesis
        using n f Some by (simp add: AcknowledgeStreamDelivery_def ack_update [OF assms] Let_def)
    qed
  qed
qed

lemma Acknowledge_unchanged:
  assumes "deliveries_ok s" and "\<not> (\<exists>d. find_delivery s i = Some d \<and> holds_lease i a c t g now d)"
  shows "snd (AcknowledgeStreamDelivery s i a c t g now) = s"
proof -
  have "\<not> holds_lease i a c t g now d" if d: "d \<in> set (deliveries s)" for d
  proof
    assume h: "holds_lease i a c t g now d"
    then have "find_delivery s i = Some d"
      using d assms(1) sql_row_key [of d_id "deliveries s" d i]
      by (auto simp: find_delivery_def deliveries_ok_def dest: holds_leaseD)
    with assms(2) h show False by blast
  qed
  then have "sql_update (holds_lease i a c t g now) (ack_row now) (deliveries s) = deliveries s"
    "filter (holds_lease i a c t g now) (deliveries s) = []"
    by (auto simp: sql_update_none filter_empty_conv)
  then show ?thesis
    by (auto simp: AcknowledgeStreamDelivery_def ack_update [OF assms(1)] Let_def add_lifecycle_def
        split: option.split)
qed

text \<open>A database with one stream delivery, held by a connection, and one vacant one.\<close>

definition example_delivery :: "string \<Rightarrow> delivery" where
  "example_delivery i =
     \<lparr>d_id = i, d_public_job_id = ''job_1'', d_event_id = ''evt_1'', d_source_app_id = ''src'',
      d_target_app_id = ''app'', d_sink = StreamSink, d_status = Pending, d_attempts = 0,
      d_generation = 1, d_assigned_connection_id = None, d_assignment_token = None,
      d_assignment_started_at = None, d_assignment_expires_at = None,
      d_assignment_max_expires_at = None, d_callback_token = None, d_callback_expires_at = None,
      d_callback_retry_at = None, d_callback_url = None, d_callback_credential_version = None,
      d_callback_reason = None, d_callback_dlq_published_at = None, d_created_at = 0, d_updated_at = 0\<rparr>"

definition held_delivery :: delivery where
  "held_delivery = assign_row ''conn'' ''tok'' 100 50 200 (example_delivery ''d1'')"

definition lease_example :: db where
  "lease_example =
     empty_db\<lparr>deliveries := [held_delivery, example_delivery ''d2'']\<rparr>"

definition example_req :: "string \<Rightarrow> string \<Rightarrow> time \<Rightarrow> lease_cmd \<Rightarrow> lease_req" where
  "example_req i t now cmd =
     \<lparr>rq_delivery = i, rq_app = ''app'', rq_connection = ''conn'', rq_token = t, rq_generation = 1,
      rq_now = now, rq_cmd = cmd\<rparr>"

section \<open>Properties\<close>

text \<open>
  C1.  A live lease is exclusive.  While the lease on a stream delivery is unexpired, no sequence of
  assignments, acknowledgements, releases and progress reports by holders of other tokens, on this
  or any other delivery, changes anything of its row: a second gateway cannot take it over, and a
  stale holder cannot settle or release it.
\<close>

theorem lease_exclusive:
  assumes "deliveries_ok s" and "find_delivery s i = Some d"
    and "d_assignment_token d = Some t" and "d_assignment_expires_at d = Some e"
    and "\<forall>q \<in> set qs. rq_now q < e \<and> rq_token q \<noteq> t"
  shows "find_delivery (foldl exec_lease s qs) i = Some d"
  using assms
proof (induction qs arbitrary: s)
  case Nil
  then show ?case by simp
next
  case (Cons q qs)
  have "find_delivery (exec_lease s q) i = Some d"
    using Cons.prems by (intro exec_lease_other [where t = t]) auto
  then show ?case
    using Cons.prems by (auto intro!: Cons.IH exec_lease_ok)
qed

theorem lease_exclusive_witness:
  "find_delivery (foldl exec_lease lease_example
     [example_req ''d1'' ''other'' 120 (CmdAssign 50 200), example_req ''d1'' ''other'' 130 CmdAck,
      example_req ''d2'' ''new'' 140 (CmdAssign 50 200)]) ''d1'' = Some held_delivery"
  by (rule lease_exclusive [where t = "''tok''" and e = 150]) code_simp+

text \<open>
  C23.  Progress cannot extend a lease for ever.  The bound \<^verbatim>\<open>assignment_max_expires_at\<close> that the
  assignment fixed is the bound of every later state in which the same token still holds the
  delivery, whatever commands ran in between, and the lease never expires later than it.
\<close>

theorem lease_bounded:
  assumes "deliveries_ok s" and "find_delivery s i = Some d"
    and "d_assignment_max_expires_at d = Some m"
    and "\<forall>q \<in> set qs. (\<exists>l n. rq_cmd q = CmdAssign l n) \<longrightarrow> rq_token q \<noteq> t"
    and "find_delivery (foldl exec_lease s qs) i = Some d'" and "d_assignment_token d' = Some t"
  shows "d_assignment_max_expires_at d' = Some m \<and>
         (\<exists>e. d_assignment_expires_at d' = Some e \<and> e \<le> m)"
proof -
  have "d_assignment_max_expires_at d' = Some m"
    using assms(4-)
  proof (induction qs arbitrary: d' rule: rev_induct)
    case Nil
    then show ?case using assms(2,3) by simp
  next
    case (snoc q qs)
    have ok: "deliveries_ok (foldl exec_lease s qs)" using assms(1) by (rule foldl_exec_ok)
    with snoc.prems(2) obtain d1 where d1: "find_delivery (foldl exec_lease s qs) i = Some d1"
      using exec_lease_exists [OF ok, of q i] by (cases "find_delivery (foldl exec_lease s qs) i") auto
    have "d_assignment_token d1 = Some t \<and>
          d_assignment_max_expires_at d' = d_assignment_max_expires_at d1"
      using snoc.prems by (intro exec_lease_max [OF ok d1]) auto
    with snoc.IH [OF _ d1] snoc.prems(1) show ?case by simp
  qed
  moreover have "delivery_check d'"
    using foldl_exec_ok [OF assms(1)] assms(5) by (rule find_delivery_check)
  ultimately show ?thesis
    using assms(6) by (auto elim: assignment_fields)
qed

theorem lease_bounded_witness:
  "\<exists>d'. find_delivery (foldl exec_lease lease_example
       [example_req ''d1'' ''tok'' 140 (CmdProgress 1000), example_req ''d1'' ''tok'' 290 (CmdProgress 1000)])
       ''d1'' = Some d' \<and> d_assignment_max_expires_at d' = Some 300 \<and>
     (\<exists>e. d_assignment_expires_at d' = Some e \<and> e \<le> 300)"
proof -
  let ?qs = "[example_req ''d1'' ''tok'' 140 (CmdProgress 1000), example_req ''d1'' ''tok'' 290 (CmdProgress 1000)]"
  let ?d = "progress_row 290 1000 (progress_row 140 1000 held_delivery)"
  have f: "find_delivery (foldl exec_lease lease_example ?qs) ''d1'' = Some ?d" by code_simp
  have "d_assignment_max_expires_at ?d = Some 300 \<and>
        (\<exists>e. d_assignment_expires_at ?d = Some e \<and> e \<le> 300)"
  proof (rule lease_bounded [where t = "''tok''" and qs = ?qs and d = held_delivery])
    show "deliveries_ok lease_example" by code_simp
    show "find_delivery lease_example ''d1'' = Some held_delivery" by code_simp
    show "d_assignment_max_expires_at held_delivery = Some 300" by code_simp
    show "\<forall>q \<in> set ?qs. (\<exists>l n. rq_cmd q = CmdAssign l n) \<longrightarrow> rq_token q \<noteq> ''tok''"
      by (simp add: example_req_def)
    show "d_assignment_token ?d = Some ''tok''" by code_simp
  qed (rule f)
  with f show ?thesis by blast
qed



text \<open>
  Acknowledging is safe to repeat.  Once an acknowledgement has succeeded, repeating it with the
  same triple at any later or earlier instant succeeds again and leaves the database alone, so a
  client whose confirmation was lost may send it again even after the lease has run out.
\<close>

theorem acknowledge_idempotent:
  assumes ok: "deliveries_ok s" and r: "AcknowledgeStreamDelivery s i a c t g now = (Inr (), s')"
  shows "AcknowledgeStreamDelivery s' i a c t g now' = (Inr (), s')"
proof -
  have ok': "deliveries_ok s'" using Acknowledge_ok [OF ok, of i a c t g now] r by simp
  have res: "fst (AcknowledgeStreamDelivery s i a c t g now) = Inr ()" using r by simp
  then obtain d where d: "find_delivery s i = Some d" "d_target_app_id d = a" "d_sink d = StreamSink"
    "d_generation d = g" "d_assigned_connection_id d = Some c" "d_assignment_token d = Some t"
    "holds_lease i a c t g now d \<or> d_status d = Acked"
    unfolding Acknowledge_result [OF ok]
    by (auto split: option.splits if_splits dest: holds_leaseD)
  have f': "find_delivery s' i = Some (if holds_lease i a c t g now d then ack_row now d else d)"
    using Acknowledge_db [OF ok, of i a c t g now i] d(1) r by simp
  let ?d = "if holds_lease i a c t g now d then ack_row now d else d"
  have acked: "d_status ?d = Acked" "d_target_app_id ?d = a" "d_sink ?d = StreamSink" "d_generation ?d = g"
    "d_assigned_connection_id ?d = Some c" "d_assignment_token ?d = Some t"
    using d by (auto simp: ack_row_def)
  then have "\<not> holds_lease i a c t g now' ?d" by (auto simp: holds_lease_def terminal_status_def)
  then have "snd (AcknowledgeStreamDelivery s' i a c t g now') = s'"
    using f' by (intro Acknowledge_unchanged [OF ok']) auto
  moreover have "fst (AcknowledgeStreamDelivery s' i a c t g now') = Inr ()"
    using acked f' by (simp add: Acknowledge_result [OF ok'])
  ultimately show ?thesis by (metis prod.collapse)
qed

theorem acknowledge_idempotent_witness:
  "\<exists>s'. AcknowledgeStreamDelivery lease_example ''d1'' ''app'' ''conn'' ''tok'' 1 120 = (Inr (), s') \<and>
        AcknowledgeStreamDelivery s' ''d1'' ''app'' ''conn'' ''tok'' 1 9000 = (Inr (), s')"
proof -
  have "deliveries_ok lease_example" by code_simp
  moreover have "fst (AcknowledgeStreamDelivery lease_example ''d1'' ''app'' ''conn'' ''tok'' 1 120) = Inr ()"
    by code_simp
  then obtain s' where
    "AcknowledgeStreamDelivery lease_example ''d1'' ''app'' ''conn'' ''tok'' 1 120 = (Inr (), s')"
    by (metis prod.collapse)
  ultimately show ?thesis using acknowledge_idempotent by blast
qed

end
