(* ===== verification/GoLib.thy ===== *)
theory GoLib
  imports Prelude
begin

text \<open>
  The functions of Go's standard library that the modelled packages call on strings.  A Go
  string is its sequence of bytes: a list of characters with codes below 256.
\<close>

text \<open>The code of a byte.\<close>

fun byte_of :: "char \<Rightarrow> int" where
  "byte_of (Char b0 b1 b2 b3 b4 b5 b6 b7) =
     (if b0 then 1 else 0) + (if b1 then 2 else 0) + (if b2 then 4 else 0) + (if b3 then 8 else 0) +
     (if b4 then 16 else 0) + (if b5 then 32 else 0) + (if b6 then 64 else 0) + (if b7 then 128 else 0)"

lemma byte_of_char: "byte_of c = of_char c"
  by (cases c) simp

lemma char_of_byte [simp]: "char_of (byte_of c) = c"
  by (simp add: byte_of_char)

lemma byte_of_range: "0 \<le> byte_of c" "byte_of c < 256"
  by (cases c; simp)+

lemma byte_of_inj: "byte_of c = byte_of d \<longleftrightarrow> c = d"
  by (simp add: byte_of_char)

section \<open>strings.TrimSpace and strings.ToLower\<close>

text \<open>The encodings of the characters \<^verbatim>\<open>unicode.IsSpace\<close> accepts.\<close>

definition space_encodings :: "string list" where
  "space_encodings =
     [[CHR 0x09], [CHR 0x0A], [CHR 0x0B], [CHR 0x0C], [CHR 0x0D], [CHR 0x20], [CHR 0xC2, CHR
      0x85], [CHR 0xC2, CHR 0xA0], [CHR 0xE1, CHR 0x9A, CHR 0x80], [CHR 0xE2, CHR 0x80, CHR
      0x80], [CHR 0xE2, CHR 0x80, CHR 0x81], [CHR 0xE2, CHR 0x80, CHR 0x82], [CHR 0xE2, CHR
      0x80, CHR 0x83], [CHR 0xE2, CHR 0x80, CHR 0x84], [CHR 0xE2, CHR 0x80, CHR 0x85], [CHR
      0xE2, CHR 0x80, CHR 0x86], [CHR 0xE2, CHR 0x80, CHR 0x87], [CHR 0xE2, CHR 0x80, CHR
      0x88], [CHR 0xE2, CHR 0x80, CHR 0x89], [CHR 0xE2, CHR 0x80, CHR 0x8A], [CHR 0xE2, CHR
      0x80, CHR 0xA8], [CHR 0xE2, CHR 0x80, CHR 0xA9], [CHR 0xE2, CHR 0x80, CHR 0xAF], [CHR
      0xE2, CHR 0x81, CHR 0x9F], [CHR 0xE3, CHR 0x80, CHR 0x80]]"

fun strip_prefix :: "'a list \<Rightarrow> 'a list \<Rightarrow> 'a list option" where
  "strip_prefix [] ys = Some ys"
| "strip_prefix (x # xs) [] = None"
| "strip_prefix (x # xs) (y # ys) = (if x = y then strip_prefix xs ys else None)"

fun strip_any :: "'a list list \<Rightarrow> 'a list \<Rightarrow> 'a list option" where
  "strip_any [] ys = None"
| "strip_any (p # ps) ys = (case strip_prefix p ys of Some r \<Rightarrow> Some r | None \<Rightarrow> strip_any ps ys)"

lemma strip_prefix_Some: "strip_prefix p ys = Some r \<longleftrightarrow> ys = p @ r"
  by (induction p ys rule: strip_prefix.induct) auto

lemma strip_any_Some: "strip_any ps ys = Some r \<Longrightarrow> \<exists>p \<in> set ps. ys = p @ r"
  by (induction ps) (auto simp: strip_prefix_Some split: option.splits)

lemma strip_any_None: "strip_any ps ys = None \<longleftrightarrow> (\<forall>p \<in> set ps. \<forall>r. ys \<noteq> p @ r)"
proof (induction ps)
  case (Cons p ps)
  show ?case
  proof (cases "strip_prefix p ys")
    case None
    then have "ys \<noteq> p @ r" for r using strip_prefix_Some [of p ys r] by auto
    then show ?thesis using None Cons.IH by auto
  next
    case (Some r)
    then show ?thesis using strip_prefix_Some [of p ys r] by auto
  qed
qed simp

text \<open>Strip from the front as long as one of the patterns matches; every pattern is non-empty,
  so the length bounds the number of rounds.\<close>

fun strip_all :: "nat \<Rightarrow> 'a list list \<Rightarrow> 'a list \<Rightarrow> 'a list" where
  "strip_all 0 ps ys = ys"
| "strip_all (Suc n) ps ys = (case strip_any ps ys of None \<Rightarrow> ys | Some r \<Rightarrow> strip_all n ps r)"

definition trim_left :: "string \<Rightarrow> string" where
  "trim_left s = strip_all (length s) space_encodings s"

definition trim_right :: "string \<Rightarrow> string" where
  "trim_right s = rev (strip_all (length s) (map rev space_encodings) (rev s))"

definition go_trim_space :: "string \<Rightarrow> string" where
  "go_trim_space s = trim_right (trim_left s)"

lemma strip_all_end:
  assumes "[] \<notin> set ps" and "length ys \<le> n"
  shows "strip_any ps (strip_all n ps ys) = None"
  using assms
proof (induction n arbitrary: ys)
  case 0
  then show ?case by (auto simp: strip_any_None)
next
  case (Suc n)
  show ?case
  proof (cases "strip_any ps ys")
    case (Some r)
    then obtain p where "p \<in> set ps" "ys = p @ r" using strip_any_Some by blast
    moreover from this Suc.prems have "length p \<noteq> 0" by auto
    ultimately have "length r \<le> n" using Suc.prems(2) by (simp only: length_append)
    then show ?thesis using Some Suc by simp
  qed simp
qed

lemma space_encodings_nonempty: "[] \<notin> set space_encodings"
  by (simp add: space_encodings_def)

text \<open>A trimmed string ends in no space, so trimming the right again changes nothing.\<close>

lemma strip_all_None [simp]: "strip_any ps ys = None \<Longrightarrow> strip_all n ps ys = ys"
  by (cases n) auto

lemma trim_left_idem [simp]: "trim_left (trim_left s) = trim_left s"
  by (simp add: trim_left_def strip_all_end space_encodings_nonempty)

lemma trim_right_idem [simp]: "trim_right (trim_right s) = trim_right s"
proof -
  have "strip_any (map rev space_encodings) (strip_all (length s) (map rev space_encodings) (rev s)) = None"
    by (rule strip_all_end) (use space_encodings_nonempty in auto)
  then show ?thesis by (simp add: trim_right_def)
qed

text \<open>
  \<^verbatim>\<open>strings.ToLower\<close>, as far as a comparison with an ASCII literal sees it: the ASCII letters
  and the two characters outside ASCII whose lower case is an ASCII letter (U+0130 and U+212A);
  every other character keeps bytes outside ASCII.
\<close>

fun lower_char :: "char \<Rightarrow> char" where
  "lower_char (Char b0 b1 b2 b3 b4 b5 b6 b7) =
     (let n = byte_of (Char b0 b1 b2 b3 b4 b5 b6 b7) in
      if 65 \<le> n \<and> n \<le> 90 then Char b0 b1 b2 b3 b4 True b6 b7 else Char b0 b1 b2 b3 b4 b5 b6 b7)"

fun go_to_lower :: "string \<Rightarrow> string" where
  "go_to_lower [] = []"
| "go_to_lower [a] = [lower_char a]"
| "go_to_lower [a, b] =
     (if [a, b] = [CHR 0xC4, CHR 0xB0] then ''i'' else lower_char a # go_to_lower [b])"
| "go_to_lower (a # b # c # s) =
     (if [a, b] = [CHR 0xC4, CHR 0xB0] then CHR ''i'' # go_to_lower (c # s)
      else if [a, b, c] = [CHR 0xE2, CHR 0x84, CHR 0xAA] then CHR ''k'' # go_to_lower s
      else lower_char a # go_to_lower (b # c # s))"

section \<open>unicode/utf8\<close>

definition byte_in :: "int \<Rightarrow> int \<Rightarrow> char \<Rightarrow> bool" where
  "byte_in lo hi c \<longleftrightarrow> lo \<le> byte_of c \<and> byte_of c \<le> hi"

abbreviation continuation :: "char \<Rightarrow> bool" where
  "continuation \<equiv> byte_in 128 191"

text \<open>\<^verbatim>\<open>utf8.Valid\<close>: no overlong form, no surrogate, nothing above U+10FFFF.\<close>

fun utf8_valid :: "string \<Rightarrow> bool" where
  "utf8_valid [] = True"
| "utf8_valid (a # s) =
     (if byte_of a < 128 then utf8_valid s
      else if byte_in 194 223 a then
        (case s of b # t \<Rightarrow> continuation b \<and> utf8_valid t | _ \<Rightarrow> False)
      else if byte_in 224 239 a then
        (case s of b # c # t \<Rightarrow>
           (if byte_of a = 224 then byte_in 160 191 b else if byte_of a = 237 then byte_in 128 159 b
            else continuation b) \<and> continuation c \<and> utf8_valid t
         | _ \<Rightarrow> False)
      else if byte_in 240 244 a then
        (case s of b # c # d # t \<Rightarrow>
           (if byte_of a = 240 then byte_in 144 191 b else if byte_of a = 244 then byte_in 128 143 b
            else continuation b) \<and> continuation c \<and> continuation d \<and> utf8_valid t
         | _ \<Rightarrow> False)
      else False)"

text \<open>\<^verbatim>\<open>utf8.EncodeRune\<close>, for a code point that is not a surrogate.\<close>

definition encode_rune :: "int \<Rightarrow> string" where
  "encode_rune n =
     (if n < 128 then [char_of n]
      else if n < 2048 then [char_of (192 + n div 64), char_of (128 + n mod 64)]
      else if n < 65536 then
        [char_of (224 + n div 4096), char_of (128 + n div 64 mod 64), char_of (128 + n mod 64)]
      else [char_of (240 + n div 262144), char_of (128 + n div 4096 mod 64),
            char_of (128 + n div 64 mod 64), char_of (128 + n mod 64)])"

lemma utf8_valid_ascii: "\<forall>c \<in> set s. byte_of c < 128 \<Longrightarrow> utf8_valid s"
  by (induction s) auto

section \<open>strconv and the characters of patterns\<close>

definition is_digit :: "char \<Rightarrow> bool" where "is_digit c = byte_in 48 57 c"
definition is_upper :: "char \<Rightarrow> bool" where "is_upper c = byte_in 65 90 c"
definition is_lower :: "char \<Rightarrow> bool" where "is_lower c = byte_in 97 122 c"

definition digit_val :: "char \<Rightarrow> int" where
  "digit_val c = byte_of c - 48"

definition digits_val :: "string \<Rightarrow> int" where
  "digits_val s = foldl (\<lambda>n c. n * 10 + digit_val c) 0 s"

text \<open>\<^verbatim>\<open>strconv.ParseInt(s, 10, 64)\<close> on the literals a JSON number can be: an optional minus and
  digits, refused outside the range of 64 bits.\<close>

definition parse_int64 :: "string \<Rightarrow> int option" where
  "parse_int64 s =
     (let neg = (case s of c # _ \<Rightarrow> c = CHR ''-'' | [] \<Rightarrow> False);
          ds = (if neg then tl s else s);
          n = (if neg then - digits_val ds else digits_val ds) in
      if ds \<noteq> [] \<and> list_all is_digit ds \<and> - (2 ^ 63) \<le> n \<and> n < 2 ^ 63 then Some n else None)"

text \<open>The whole of \<^verbatim>\<open>strconv.ParseInt(s, 10, 64)\<close>, which lets a plus sign pass as well.\<close>

definition parse_int :: "string \<Rightarrow> int option" where
  "parse_int s = (case s of c # r \<Rightarrow> if c = CHR ''+'' \<and> (case r of d # _ \<Rightarrow> is_digit d | [] \<Rightarrow> False)
                                    then parse_int64 r else parse_int64 s
                  | [] \<Rightarrow> None)"

section \<open>Time\<close>

text \<open>The zero \<^verbatim>\<open>time.Time\<close>, the first of January of year 1, and the truncation to microseconds.\<close>

definition zero_time :: time where "zero_time = - (62135596800 * 1000000000)"

definition truncate_us :: "time \<Rightarrow> time" where "truncate_us t = t - t mod 1000"

text \<open>Days of the proleptic Gregorian calendar since the epoch, and back.\<close>

definition days_from_civil :: "int \<Rightarrow> int \<Rightarrow> int \<Rightarrow> int" where
  "days_from_civil y m d =
     (let y' = (if m \<le> 2 then y - 1 else y);
          era = y' div 400; yoe = y' mod 400;
          doy = (153 * (if m > 2 then m - 3 else m + 9) + 2) div 5 + d - 1;
          doe = yoe * 365 + yoe div 4 - yoe div 100 + doy in
      era * 146097 + doe - 719468)"

definition civil_from_days :: "int \<Rightarrow> int \<times> int \<times> int" where
  "civil_from_days z =
     (let z' = z + 719468; era = z' div 146097; doe = z' mod 146097;
          yoe = (doe - doe div 1460 + doe div 36524 - doe div 146096) div 365;
          doy = doe - (365 * yoe + yoe div 4 - yoe div 100);
          mp = (5 * doy + 2) div 153;
          d = doy - (153 * mp + 2) div 5 + 1;
          m = (if mp < 10 then mp + 3 else mp - 9) in
      (yoe + era * 400 + (if m \<le> 2 then 1 else 0), m, d))"


definition days_in :: "int \<Rightarrow> int \<Rightarrow> int" where
  "days_in month year =
     (if month = 2 then (if year mod 4 = 0 \<and> (year mod 100 \<noteq> 0 \<or> year mod 400 = 0) then 29 else 28)
      else if month \<in> {4, 6, 9, 11} then 30 else 31)"

definition two_digits :: "string \<Rightarrow> (int \<times> string) option" where
  "two_digits s =
     (case s of a # b # r \<Rightarrow> if is_digit a \<and> is_digit b then Some (digits_val [a, b], r) else None
      | _ \<Rightarrow> None)"

text \<open>The hour may be a single digit: \<^verbatim>\<open>getnum(value, false)\<close>.\<close>

definition hour_digits :: "string \<Rightarrow> (int \<times> string) option" where
  "hour_digits s =
     (case s of
        [] \<Rightarrow> None
      | a # r \<Rightarrow>
          if \<not> is_digit a then None
          else case r of
            b # r' \<Rightarrow> if is_digit b then Some (digits_val [a, b], r') else Some (digits_val [a], r)
          | [] \<Rightarrow> Some (digits_val [a], []))"

definition expect :: "char \<Rightarrow> string \<Rightarrow> string option" where
  "expect c s = (case s of a # r \<Rightarrow> if a = c then Some r else None | [] \<Rightarrow> None)"

text \<open>A fraction of a second after a period or a comma: its nanoseconds, of which digits after the
  ninth are dropped, and the rest of the text.\<close>

definition fraction :: "string \<Rightarrow> int \<times> string" where
  "fraction s =
     (case s of
        p # d # r \<Rightarrow>
          if (p = CHR ''.'' \<or> p = CHR '','') \<and> is_digit d
          then (let ds = take 9 (d # takeWhile is_digit r @ replicate 9 CHR ''0'') in
                (digits_val ds, dropWhile is_digit r))
          else (0, s)
      | _ \<Rightarrow> (0, s))"

text \<open>\<^verbatim>\<open>Z\<close> or a numeric offset in seconds; offsets of 24 hours and of 60 minutes are let through.\<close>

definition zone_offset :: "string \<Rightarrow> int option" where
  "zone_offset s =
     (case s of
        [z] \<Rightarrow> if z = CHR ''Z'' then Some 0 else None
      | [sg, h1, h2, col, m1, m2] \<Rightarrow>
          if (sg = CHR ''+'' \<or> sg = CHR ''-'') \<and> col = CHR '':'' \<and>
             list_all is_digit [h1, h2, m1, m2] \<and>
             digits_val [h1, h2] \<le> 24 \<and> digits_val [m1, m2] \<le> 60
          then (let secs = digits_val [h1, h2] * 3600 + digits_val [m1, m2] * 60 in
                Some (if sg = CHR ''-'' then - secs else secs))
          else None
      | _ \<Rightarrow> None)"

text \<open>The instant and the offset.  \<^verbatim>\<open>time.Time.UnmarshalJSON\<close> accepts the same texts, since the stricter
  checks of the standard are switched off in Go.\<close>

definition parse_rfc3339 :: "string \<Rightarrow> (time \<times> int) option" where
  "parse_rfc3339 s =
     (let ys = take 4 s in
      if \<not> (length ys = 4 \<and> list_all is_digit ys) then None
      else case Option.bind (expect CHR ''-'' (drop 4 s)) two_digits of
        None \<Rightarrow> None
      | Some (month, r1) \<Rightarrow>
          (case Option.bind (expect CHR ''-'' r1) two_digits of
             None \<Rightarrow> None
           | Some (day, r2) \<Rightarrow>
               (case Option.bind (expect CHR ''T'' r2) hour_digits of
                  None \<Rightarrow> None
                | Some (hour, r3) \<Rightarrow>
                    (case Option.bind (expect CHR '':'' r3) two_digits of
                       None \<Rightarrow> None
                     | Some (mins, r4) \<Rightarrow>
                         (case Option.bind (expect CHR '':'' r4) two_digits of
                            None \<Rightarrow> None
                          | Some (secs, r5) \<Rightarrow>
                              (case fraction r5 of (ns, r6) \<Rightarrow>
                                 (case zone_offset r6 of
                                    None \<Rightarrow> None
                                  | Some off \<Rightarrow>
                                      if 1 \<le> month \<and> month \<le> 12 \<and>
                                         1 \<le> day \<and> day \<le> days_in month (digits_val ys) \<and>
                                         hour < 24 \<and> mins < 60 \<and> secs < 60
                                      then Some ((days_from_civil (digits_val ys) month day * 86400 +
                                                  hour * 3600 + mins * 60 + secs - off) * 1000000000 + ns, off)
                                      else None)))))))"

definition valid_rfc3339 :: "string \<Rightarrow> bool" where
  "valid_rfc3339 s \<longleftrightarrow> parse_rfc3339 s \<noteq> None"

text \<open>\<^verbatim>\<open>time.Time.MarshalJSON\<close> without the quotes: the layout \<^verbatim>\<open>RFC3339Nano\<close>, refused outside the years 0
  to 9999 and for offsets of a day or more.\<close>

definition digit_char :: "int \<Rightarrow> char" where
  "digit_char n = ''0123456789'' ! nat (n mod 10)"

definition pad2 :: "int \<Rightarrow> string" where "pad2 n = [digit_char (n div 10), digit_char n]"

definition pad4 :: "int \<Rightarrow> string" where "pad4 n = pad2 (n div 100) @ pad2 n"

definition format_fraction :: "int \<Rightarrow> string" where
  "format_fraction ns =
     (if ns = 0 then []
      else CHR ''.'' # rev (dropWhile (\<lambda>c. c = CHR ''0'')
             (rev (digit_char (ns div 100000000) # pad4 (ns div 10000) @ pad4 ns))))"

definition format_offset :: "int \<Rightarrow> string" where
  "format_offset off =
     (if off = 0 then ''Z''
      else let a = \<bar>off\<bar> div 60 in
        (if off < 0 then CHR ''-'' else CHR ''+'') # pad2 (a div 60) @ CHR '':'' # pad2 (a mod 60))"

definition format_rfc3339 :: "time \<times> int \<Rightarrow> string option" where
  "format_rfc3339 t =
     (let local = fst t + snd t * 1000000000; secs = local div 1000000000; ns = local mod 1000000000;
          day = secs div 86400; sod = secs mod 86400 in
      case civil_from_days day of (y, m, d) \<Rightarrow>
        if y < 0 \<or> y > 9999 \<or> \<bar>snd t\<bar> \<ge> 86400 then None
        else Some (pad4 y @ CHR ''-'' # pad2 m @ CHR ''-'' # pad2 d @ CHR ''T'' # pad2 (sod div 3600) @
                   CHR '':'' # pad2 (sod mod 3600 div 60) @ CHR '':'' # pad2 (sod mod 60) @
                   format_fraction ns @ format_offset (snd t)))"

end
