(* ===== verification/Outbox.thy ===== *)
theory Outbox
  imports StreamAssignments GoLib
begin

text \<open>
  The transactional outbox: \<^verbatim>\<open>store/postgres/outbox.go\<close>.  Every delivery has one outbox row;
  a dispatcher claims due rows under a token, persists the attempt, publishes, and records the
  outcome in one transaction with the delivery.
\<close>

section \<open>Claiming\<close>

record outbox_message =
  om_id :: string
  om_event_id :: string
  om_delivery_id :: string
  om_subject :: string
  om_payload :: string
  om_message_id :: string
  om_claim_token :: string
  om_attempts :: int
  om_reclaimed :: bool
  om_created_at :: time

definition outbox_pending :: "outbox_row \<Rightarrow> bool" where
  "outbox_pending r \<longleftrightarrow> ob_dispatched_at r = None \<and> ob_failed_at r = None"

definition outbox_due :: "time \<Rightarrow> time \<Rightarrow> outbox_row \<Rightarrow> bool" where
  "outbox_due now staleBefore r \<longleftrightarrow>
     outbox_pending r \<and> ob_available_at r \<le> now \<and>
     (ob_claimed_at r = None \<or> upto_opt (ob_claimed_at r) staleBefore)"

text \<open>
  \<open>locked\<close> are the rows concurrent transactions hold, which \<^verbatim>\<open>SKIP LOCKED\<close> passes over.
  Text columns are ordered by their bytes.
\<close>

definition outbox_candidates :: "string set \<Rightarrow> time \<Rightarrow> time \<Rightarrow> int \<Rightarrow> outbox_row list \<Rightarrow> outbox_row list" where
  "outbox_candidates locked now staleBefore limit rows =
     take (nat limit)
       (sort_key (\<lambda>r. (ob_available_at r, ob_created_at r, ob_id r))
         (filter (\<lambda>r. outbox_due now staleBefore r \<and> ob_id r \<notin> locked) rows))"

definition claim_row :: "time \<Rightarrow> string \<Rightarrow> outbox_row \<Rightarrow> outbox_row" where
  "claim_row now tok r =
     r\<lparr>ob_claimed_at := Some now, ob_claim_token := Some tok, ob_updated_at := now\<rparr>"

definition claimed_message :: "string \<Rightarrow> outbox_row \<Rightarrow> outbox_message" where
  "claimed_message tok r =
     \<lparr>om_id = ob_id r, om_event_id = ob_event_id r, om_delivery_id = ob_delivery_id r,
      om_subject = ob_subject r, om_payload = ob_payload r, om_message_id = ob_message_id r,
      om_claim_token = tok, om_attempts = ob_attempts r,
      om_reclaimed = (ob_claimed_at r \<noteq> None), om_created_at = ob_created_at r\<rparr>"

definition ClaimOutbox ::
    "string set \<Rightarrow> db \<Rightarrow> time \<Rightarrow> time \<Rightarrow> string \<Rightarrow> int \<Rightarrow> (store_error + outbox_message list) \<times> db" where
  "ClaimOutbox locked s now staleBefore claimToken limit =
     (if claimToken = [] \<or> limit < 1 \<or> limit > 1000 \<or> staleBefore > now then (Inl ErrDB, s)
      else
        let candidates = outbox_candidates locked now staleBefore limit (outbox s);
            ids = map ob_id candidates in
        (Inr (map (claimed_message claimToken) candidates),
         s\<lparr>outbox := sql_update (\<lambda>r. ob_id r \<in> set ids) (claim_row now claimToken) (outbox s)\<rparr>))"

section \<open>Recording attempts and outcomes\<close>

record outbox_publish_start =
  ps_attempt :: int
  ps_exhausted :: bool

definition held_outbox :: "string \<Rightarrow> string \<Rightarrow> outbox_row \<Rightarrow> bool" where
  "held_outbox i tok r \<longleftrightarrow> ob_id r = i \<and> ob_claim_token r = Some tok \<and> outbox_pending r"

definition safeOutboxReason :: "string \<Rightarrow> string" where
  "safeOutboxReason reason =
     (let r = go_to_lower (go_trim_space reason) in
      if r \<in> {''broker_unavailable'', ''publish_timeout'', ''publish_rejected'', ''store_error''} then r
      else ''publish_error'')"

definition fail_row :: "time \<Rightarrow> string \<Rightarrow> outbox_row \<Rightarrow> outbox_row" where
  "fail_row now reason r =
     r\<lparr>ob_failed_at := Some now, ob_claimed_at := None, ob_claim_token := None,
       ob_last_error := Some reason, ob_updated_at := now\<rparr>"

text \<open>
  The two statements that move the delivery of a failed row to the dead letters.  They clear
  three of the five assignment columns.
\<close>

definition dead_letter_delivery :: "string \<Rightarrow> string \<Rightarrow> time \<Rightarrow> db \<Rightarrow> db option" where
  "dead_letter_delivery deliveryID reason now s =
     map_option
       (\<lambda>s'. add_lifecycle
          (map (\<lambda>d. \<lparr>dl_delivery_id = d_id d, dl_generation = d_generation d,
                     dl_type = ''delivery.dead_lettered'', dl_outcome = ''dead_letter'',
                     dl_reason = Some reason, dl_attempt = None, dl_occurred_at = now\<rparr>)
            (filter (\<lambda>d. d_id d = deliveryID) (deliveries s'))) s')
       (update_deliveries (\<lambda>d. d_id d = deliveryID \<and> d_status d \<noteq> Acked)
          (\<lambda>d. d\<lparr>d_status := DeadLetter, d_assigned_connection_id := None, d_assignment_token := None,
                 d_assignment_expires_at := None, d_updated_at := max (d_updated_at d) now\<rparr>) s)"

definition BeginOutboxPublish ::
    "db \<Rightarrow> string \<Rightarrow> string \<Rightarrow> time \<Rightarrow> int \<Rightarrow> (store_error + outbox_publish_start) \<times> db" where
  "BeginOutboxPublish s outboxID claimToken now maxAttempts =
     (if outboxID = [] \<or> claimToken = [] \<or> maxAttempts < 1 then (Inl ErrConflict, s)
      else case sql_row (held_outbox outboxID claimToken) (outbox s) of
        None \<Rightarrow> (Inl ErrConflict, s)
      | Some r \<Rightarrow>
          if ob_attempts r \<ge> maxAttempts then
            (case dead_letter_delivery (ob_delivery_id r) ''max_attempts'' now
                    (s\<lparr>outbox := sql_update (\<lambda>r. ob_id r = outboxID) (fail_row now ''max_attempts'')
                        (outbox s)\<rparr>) of
               None \<Rightarrow> (Inl ErrDB, s)
             | Some s' \<Rightarrow> (Inr \<lparr>ps_attempt = ob_attempts r, ps_exhausted = True\<rparr>, s'))
          else
            let attempts = ob_attempts r + 1 in
            (Inr \<lparr>ps_attempt = attempts, ps_exhausted = False\<rparr>,
             s\<lparr>outbox := sql_update (\<lambda>r. ob_id r = outboxID)
                 (\<lambda>r. r\<lparr>ob_attempts := attempts, ob_updated_at := max (ob_updated_at r) now\<rparr>) (outbox s)\<rparr>))"

definition dispatch_row :: "time \<Rightarrow> outbox_row \<Rightarrow> outbox_row" where
  "dispatch_row now r =
     r\<lparr>ob_dispatched_at := Some now, ob_claimed_at := None, ob_claim_token := None,
       ob_last_error := None, ob_updated_at := now\<rparr>"

definition MarkOutboxDispatched :: "db \<Rightarrow> string \<Rightarrow> string \<Rightarrow> time \<Rightarrow> (store_error + unit) \<times> db" where
  "MarkOutboxDispatched s outboxID claimToken now =
     (if outboxID = [] \<or> claimToken = [] then (Inl ErrConflict, s)
      else case sql_row (held_outbox outboxID claimToken) (outbox s) of
        None \<Rightarrow>
          (case find_outbox s outboxID of
             None \<Rightarrow> (Inl ErrNotFound, s)
           | Some r \<Rightarrow> if ob_dispatched_at r \<noteq> None then (Inr (), s) else (Inl ErrConflict, s))
      | Some r \<Rightarrow>
          let s1 = s\<lparr>outbox := sql_update (held_outbox outboxID claimToken) (dispatch_row now) (outbox s)\<rparr> in
          (case update_deliveries (\<lambda>d. d_id d = ob_delivery_id r \<and> \<not> terminal_status (d_status d))
                  (\<lambda>d. d\<lparr>d_status := Dispatched, d_updated_at := max (d_updated_at d) now\<rparr>) s1 of
             None \<Rightarrow> (Inl ErrDB, s)
           | Some s2 \<Rightarrow>
               (Inr (), add_lifecycle
                  (map (\<lambda>d. \<lparr>dl_delivery_id = d_id d, dl_generation = d_generation d,
                             dl_type = ''outbox.dispatched'', dl_outcome = ''dispatched'',
                             dl_reason = None, dl_attempt = None, dl_occurred_at = now\<rparr>)
                    (filter (\<lambda>d. d_id d = ob_delivery_id r) (deliveries s2))) s2)))"

definition retry_row :: "time \<Rightarrow> string \<Rightarrow> time \<Rightarrow> outbox_row \<Rightarrow> outbox_row" where
  "retry_row availableAt reason clock r =
     r\<lparr>ob_available_at := availableAt, ob_claimed_at := None, ob_claim_token := None,
       ob_last_error := Some reason, ob_updated_at := clock\<rparr>"

text \<open>\<open>clock\<close> is the database's \<^verbatim>\<open>clock_timestamp()\<close>.\<close>

definition RetryOutbox ::
    "time \<Rightarrow> db \<Rightarrow> string \<Rightarrow> string \<Rightarrow> time \<Rightarrow> string \<Rightarrow> (store_error + unit) \<times> db" where
  "RetryOutbox clock s outboxID claimToken availableAt reason =
     (if outboxID = [] \<or> claimToken = [] then (Inl ErrConflict, s)
      else
        let reason = safeOutboxReason reason in
        case sql_row (held_outbox outboxID claimToken) (outbox s) of
          None \<Rightarrow> (Inl ErrConflict, s)
        | Some r \<Rightarrow>
            let s1 = s\<lparr>outbox := sql_update (held_outbox outboxID claimToken)
                          (retry_row availableAt reason clock) (outbox s)\<rparr> in
            (case update_deliveries (\<lambda>d. d_id d = ob_delivery_id r \<and> \<not> terminal_status (d_status d))
                    (\<lambda>d. d\<lparr>d_status := Retrying, d_updated_at := clock\<rparr>) s1 of
               None \<Rightarrow> (Inl ErrDB, s)
             | Some s2 \<Rightarrow> (Inr (), s2)))"

definition FailOutbox ::
    "db \<Rightarrow> string \<Rightarrow> string \<Rightarrow> time \<Rightarrow> string \<Rightarrow> (store_error + unit) \<times> db" where
  "FailOutbox s outboxID claimToken now reason =
     (if outboxID = [] \<or> claimToken = [] then (Inl ErrConflict, s)
      else
        let reason = safeOutboxReason reason in
        case sql_row (held_outbox outboxID claimToken) (outbox s) of
          None \<Rightarrow> (Inl ErrConflict, s)
        | Some r \<Rightarrow>
            (case dead_letter_delivery (ob_delivery_id r) reason now
                    (s\<lparr>outbox := sql_update (held_outbox outboxID claimToken) (fail_row now reason)
                        (outbox s)\<rparr>) of
               None \<Rightarrow> (Inl ErrDB, s)
             | Some s' \<Rightarrow> (Inr (), s')))"

record outbox_stats =
  st_pending :: nat
  st_claimed :: nat
  st_failed :: nat
  st_oldest_pending_at :: "time option"

definition OutboxStats :: "db \<Rightarrow> outbox_stats" where
  "OutboxStats s =
     (let rows = filter (\<lambda>r. ob_dispatched_at r = None) (outbox s);
          pending = filter (\<lambda>r. ob_failed_at r = None) rows in
      \<lparr>st_pending = length pending,
       st_claimed = sql_count (\<lambda>r. ob_claimed_at r \<noteq> None) pending,
       st_failed = sql_count (\<lambda>r. ob_failed_at r \<noteq> None) rows,
       st_oldest_pending_at =
         (case pending of [] \<Rightarrow> None | r # rs \<Rightarrow> Some (fold (\<lambda>r. min (ob_created_at r)) rs (ob_created_at r)))\<rparr>)"

section \<open>Row-level behaviour\<close>

lemma find_outbox_sql_update:
  assumes "\<And>r. P r \<Longrightarrow> ob_id (f r) = ob_id r"
  shows "find_outbox (s\<lparr>outbox := sql_update P f (outbox s)\<rparr>) j =
         map_option (\<lambda>r. if P r then f r else r) (find_outbox s j)"
  using sql_row_sql_update_key [of P ob_id f j "outbox s"] assms by (simp add: find_outbox_def)

lemma outbox_ok_sql_update:
  assumes "outbox_ok s" and "\<And>r. P r \<Longrightarrow> ob_id (f r) = ob_id r \<and> ob_delivery_id (f r) = ob_delivery_id r \<and>
      ob_message_id (f r) = ob_message_id r"
    and "\<And>r. r \<in> set (outbox s) \<Longrightarrow> P r \<Longrightarrow> outbox_check r \<Longrightarrow> outbox_check (f r)"
  shows "outbox_ok (s\<lparr>outbox := sql_update P f (outbox s)\<rparr>)"
proof -
  have "map ob_id (sql_update P f (outbox s)) = map ob_id (outbox s)"
    "map ob_delivery_id (sql_update P f (outbox s)) = map ob_delivery_id (outbox s)"
    "map ob_message_id (sql_update P f (outbox s)) = map ob_message_id (outbox s)"
    by (rule map_key_sql_update; use assms(2) in simp)+
  then show ?thesis
    using assms(1,3) by (auto simp: outbox_ok_def list_all_iff set_sql_update)
qed

lemma held_outbox_row:
  assumes "outbox_ok s"
  shows "sql_row (held_outbox i tok) (outbox s) = Some r \<longleftrightarrow>
         find_outbox s i = Some r \<and> ob_claim_token r = Some tok \<and> outbox_pending r"
proof
  assume "sql_row (held_outbox i tok) (outbox s) = Some r"
  then have r: "r \<in> set (outbox s)" "held_outbox i tok r" by (auto dest: sql_row_Some)
  then show "find_outbox s i = Some r \<and> ob_claim_token r = Some tok \<and> outbox_pending r"
    using assms sql_row_key [of ob_id "outbox s" r i]
    by (auto simp: held_outbox_def find_outbox_def outbox_ok_def)
next
  assume *: "find_outbox s i = Some r \<and> ob_claim_token r = Some tok \<and> outbox_pending r"
  then have r: "r \<in> set (outbox s)" "held_outbox i tok r"
    using find_outbox_in by (auto simp: held_outbox_def)
  obtain r' where r': "sql_row (held_outbox i tok) (outbox s) = Some r'"
    using r sql_row_None [of "held_outbox i tok" "outbox s"] by (cases "sql_row (held_outbox i tok) (outbox s)") auto
  then have "r' \<in> set (outbox s)" "ob_id r' = i" by (auto dest: sql_row_Some simp: held_outbox_def)
  with * assms have "r' = r" by (auto intro: find_outbox_unique)
  with r' show "sql_row (held_outbox i tok) (outbox s) = Some r" by simp
qed

lemma dead_letter_frame:
  assumes "dead_letter_delivery i reason now s = Some s'"
  shows "outbox s' = outbox s" "find_outbox s' j = find_outbox s j" "outbox_ok s' = outbox_ok s"
  using assms by (auto simp: dead_letter_delivery_def update_deliveries_frame find_outbox_def outbox_ok_def)

lemmas outbox_rows = claim_row_def fail_row_def dispatch_row_def retry_row_def

lemma outbox_row_keys [simp]:
  "ob_id (claim_row now tok r) = ob_id r"
  "ob_delivery_id (claim_row now tok r) = ob_delivery_id r"
  "ob_message_id (claim_row now tok r) = ob_message_id r"
  "ob_attempts (claim_row now tok r) = ob_attempts r"
  "ob_subject (claim_row now tok r) = ob_subject r"
  "ob_payload (claim_row now tok r) = ob_payload r"
  "ob_id (dispatch_row now r) = ob_id r"
  "ob_delivery_id (dispatch_row now r) = ob_delivery_id r"
  "ob_message_id (dispatch_row now r) = ob_message_id r"
  "ob_attempts (dispatch_row now r) = ob_attempts r"
  "ob_subject (dispatch_row now r) = ob_subject r"
  "ob_payload (dispatch_row now r) = ob_payload r"
  "ob_id (retry_row a x clk r) = ob_id r"
  "ob_delivery_id (retry_row a x clk r) = ob_delivery_id r"
  "ob_message_id (retry_row a x clk r) = ob_message_id r"
  "ob_attempts (retry_row a x clk r) = ob_attempts r"
  "ob_subject (retry_row a x clk r) = ob_subject r"
  "ob_payload (retry_row a x clk r) = ob_payload r"
  "ob_id (fail_row now x r) = ob_id r"
  "ob_delivery_id (fail_row now x r) = ob_delivery_id r"
  "ob_message_id (fail_row now x r) = ob_message_id r"
  "ob_attempts (fail_row now x r) = ob_attempts r"
  "ob_subject (fail_row now x r) = ob_subject r"
  "ob_payload (fail_row now x r) = ob_payload r"
  by (simp_all add: outbox_rows)

text \<open>An update of the row a token holds, seen through lookups.\<close>

lemma find_outbox_held_update:
  assumes "outbox_ok s" and "find_outbox s i = Some r" and "ob_claim_token r = Some tok" and "outbox_pending r"
    and "\<And>r. ob_id (f r) = ob_id r"
  shows "find_outbox (s\<lparr>outbox := sql_update (held_outbox i tok) f (outbox s)\<rparr>) j =
         (if j = i then Some (f r) else find_outbox s j)"
    and "find_outbox (s\<lparr>outbox := sql_update (\<lambda>r. ob_id r = i) f (outbox s)\<rparr>) j =
         (if j = i then Some (f r) else find_outbox s j)"
  using assms(2-) find_outbox_in [of s j]
  by (cases "find_outbox s j"; auto simp: find_outbox_sql_update held_outbox_def)+

definition start_row :: "time \<Rightarrow> outbox_row \<Rightarrow> outbox_row" where
  "start_row now r = r\<lparr>ob_attempts := ob_attempts r + 1, ob_updated_at := max (ob_updated_at r) now\<rparr>"

lemma Begin_result:
  assumes ok: "outbox_ok s" and b: "BeginOutboxPublish s i tok now mx = (Inr st, s')"
  obtains r where "find_outbox s i = Some r" "ob_claim_token r = Some tok" "outbox_pending r"
    "ps_exhausted st \<longleftrightarrow> mx \<le> ob_attempts r"
    "ps_attempt st = (if ps_exhausted st then ob_attempts r else ob_attempts r + 1)"
    "\<And>j. find_outbox s' j =
       (if j = i then Some (if ps_exhausted st then fail_row now ''max_attempts'' r else start_row now r)
        else find_outbox s j)"
proof -
  obtain r where row: "sql_row (held_outbox i tok) (outbox s) = Some r"
    using b by (auto simp: BeginOutboxPublish_def split: if_splits option.splits)
  then have r: "find_outbox s i = Some r" "ob_claim_token r = Some tok" "outbox_pending r"
    using held_outbox_row [OF ok] by auto
  have args: "\<not> (i = [] \<or> tok = [] \<or> mx < 1)"
    using b by (auto simp: BeginOutboxPublish_def split: if_splits)
  show ?thesis
  proof (cases "mx \<le> ob_attempts r")
    case True
    then obtain s1 where s1: "dead_letter_delivery (ob_delivery_id r) ''max_attempts'' now
        (s\<lparr>outbox := sql_update (\<lambda>r. ob_id r = i) (fail_row now ''max_attempts'') (outbox s)\<rparr>) = Some s1"
      and st: "st = \<lparr>ps_attempt = ob_attempts r, ps_exhausted = True\<rparr>" and s': "s' = s1"
      using b args row by (auto simp: BeginOutboxPublish_def split: option.splits)
    show ?thesis
      by (rule that [OF r])
        (use True st s' dead_letter_frame(2) [OF s1] find_outbox_held_update(2) [OF ok r] in
          \<open>auto simp: fail_row_def\<close>)
  next
    case False
    then have st: "st = \<lparr>ps_attempt = ob_attempts r + 1, ps_exhausted = False\<rparr>"
      and s': "s' = s\<lparr>outbox := sql_update (\<lambda>r. ob_id r = i)
                 (\<lambda>x. x\<lparr>ob_attempts := ob_attempts r + 1, ob_updated_at := max (ob_updated_at x) now\<rparr>) (outbox s)\<rparr>"
      using b args row by (auto simp: BeginOutboxPublish_def Let_def)
    show ?thesis
      by (rule that [OF r])
        (use False st s' find_outbox_held_update(2) [OF ok r] in \<open>auto simp: start_row_def\<close>)
  qed
qed

lemma Mark_result:
  assumes ok: "outbox_ok s" and f: "find_outbox s i = Some r" "ob_claim_token r = Some tok" "outbox_pending r"
    and m: "MarkOutboxDispatched s i tok now = (Inr (), s')"
  shows "find_outbox s' j = (if j = i then Some (dispatch_row now r) else find_outbox s j)"
proof -
  have row: "sql_row (held_outbox i tok) (outbox s) = Some r" using f held_outbox_row [OF ok] by simp
  let ?s1 = "s\<lparr>outbox := sql_update (held_outbox i tok) (dispatch_row now) (outbox s)\<rparr>"
  obtain s2 evs where s2: "update_deliveries (\<lambda>d. d_id d = ob_delivery_id r \<and> \<not> terminal_status (d_status d))
      (\<lambda>d. d\<lparr>d_status := Dispatched, d_updated_at := max (d_updated_at d) now\<rparr>) ?s1 = Some s2"
    and s': "s' = add_lifecycle evs s2"
    using m row by (auto simp: MarkOutboxDispatched_def Let_def split: if_splits option.splits)
  show ?thesis
    using s' update_deliveries_frame(7) [OF s2, of j]
      find_outbox_held_update(1) [OF ok f, of "dispatch_row now" j]
    by (simp add: dispatch_row_def)
qed

lemma Retry_result:
  assumes ok: "outbox_ok s" and f: "find_outbox s i = Some r" "ob_claim_token r = Some tok" "outbox_pending r"
    and m: "RetryOutbox clock s i tok avail reason = (Inr (), s')"
  shows "find_outbox s' j =
         (if j = i then Some (retry_row avail (safeOutboxReason reason) clock r) else find_outbox s j)"
proof -
  have row: "sql_row (held_outbox i tok) (outbox s) = Some r" using f held_outbox_row [OF ok] by simp
  let ?f = "retry_row avail (safeOutboxReason reason) clock"
  let ?s1 = "s\<lparr>outbox := sql_update (held_outbox i tok) ?f (outbox s)\<rparr>"
  have s2: "update_deliveries (\<lambda>d. d_id d = ob_delivery_id r \<and> \<not> terminal_status (d_status d))
      (\<lambda>d. d\<lparr>d_status := Retrying, d_updated_at := clock\<rparr>) ?s1 = Some s'"
    using m row by (auto simp: RetryOutbox_def Let_def split: if_splits option.splits)
  show ?thesis
    using update_deliveries_frame(7) [OF s2, of j] find_outbox_held_update(1) [OF ok f, of ?f j]
    by (simp add: retry_row_def)
qed

lemma Fail_result:
  assumes ok: "outbox_ok s" and f: "find_outbox s i = Some r" "ob_claim_token r = Some tok" "outbox_pending r"
    and m: "FailOutbox s i tok now reason = (Inr (), s')"
  shows "find_outbox s' j =
         (if j = i then Some (fail_row now (safeOutboxReason reason) r) else find_outbox s j)"
proof -
  have row: "sql_row (held_outbox i tok) (outbox s) = Some r" using f held_outbox_row [OF ok] by simp
  let ?f = "fail_row now (safeOutboxReason reason)"
  let ?s1 = "s\<lparr>outbox := sql_update (held_outbox i tok) ?f (outbox s)\<rparr>"
  have s2: "dead_letter_delivery (ob_delivery_id r) (safeOutboxReason reason) now ?s1 = Some s'"
    using m row by (auto simp: FailOutbox_def Let_def split: if_splits option.splits)
  show ?thesis
    using dead_letter_frame(2) [OF s2, of j] find_outbox_held_update(1) [OF ok f, of ?f j]
    by (simp add: fail_row_def)
qed

text \<open>A statement that fails changes nothing, and the table's constraints survive every operation.\<close>

lemma outbox_error_unchanged:
  "ClaimOutbox locked s now stale tok limit = (Inl e, s') \<Longrightarrow> s' = s"
  "BeginOutboxPublish s i tok now mx = (Inl e, s') \<Longrightarrow> s' = s"
  "MarkOutboxDispatched s i tok now = (Inl e, s') \<Longrightarrow> s' = s"
  "RetryOutbox clock s i tok avail reason = (Inl e, s') \<Longrightarrow> s' = s"
  "FailOutbox s i tok now reason = (Inl e, s') \<Longrightarrow> s' = s"
  by (auto simp: ClaimOutbox_def BeginOutboxPublish_def MarkOutboxDispatched_def RetryOutbox_def
      FailOutbox_def Let_def split: if_splits option.splits)

lemma outbox_ok_ops:
  assumes "outbox_ok s"
  shows "outbox_ok (snd (ClaimOutbox locked s now stale tok limit))"
    and "outbox_ok (snd (BeginOutboxPublish s i tok now mx))"
    and "outbox_ok (snd (MarkOutboxDispatched s i tok now))"
    and "outbox_ok (snd (RetryOutbox clock s i tok avail reason))"
    and "outbox_ok (snd (FailOutbox s i tok now reason))"
proof -
  have c: "outbox_check (claim_row now tok r)" "outbox_check (dispatch_row now r)"
    "outbox_check (retry_row a x clk r)" "outbox_check (fail_row now x r)"
    if "outbox_check r" for r a x clk
    using that by (simp_all add: outbox_check_def outbox_rows)
  have c': "outbox_check (r\<lparr>ob_attempts := n, ob_updated_at := v\<rparr>)"
    if "outbox_check r" "0 \<le> n" for r n v
    using that by (simp add: outbox_check_def)
  note u = outbox_ok_sql_update [OF assms]
  show "outbox_ok (snd (ClaimOutbox locked s now stale tok limit))"
    using assms by (auto simp: ClaimOutbox_def Let_def c intro!: u)
  show "outbox_ok (snd (BeginOutboxPublish s i tok now mx))"
  proof (cases "BeginOutboxPublish s i tok now mx")
    case (Pair res s')
    show ?thesis
    proof (cases res)
      case (Inl e)
      then show ?thesis using Pair assms by (auto dest: outbox_error_unchanged(2))
    next
      case (Inr st)
      have "0 \<le> ob_attempts r" if "sql_row (held_outbox i tok) (outbox s) = Some r" for r
        using sql_row_Some [OF that] assms by (auto simp: outbox_ok_def list_all_iff outbox_check_def)
      then show ?thesis
        using assms
        by (auto simp: BeginOutboxPublish_def Let_def c c' dead_letter_frame
            split: option.split intro!: u)
    qed
  qed
  show "outbox_ok (snd (MarkOutboxDispatched s i tok now))"
    using assms
    by (auto simp: MarkOutboxDispatched_def Let_def c update_deliveries_frame split: option.split intro!: u)
  show "outbox_ok (snd (RetryOutbox clock s i tok avail reason))"
    using assms
    by (auto simp: RetryOutbox_def Let_def c update_deliveries_frame split: option.split intro!: u)
  show "outbox_ok (snd (FailOutbox s i tok now reason))"
    using assms by (auto simp: FailOutbox_def Let_def c dead_letter_frame split: option.split intro!: u)
qed

end
