(* ===== verification/Dispatcher.thy ===== *)
theory Dispatcher
  imports Outbox
begin

text \<open>
  The outbox dispatcher, \<^verbatim>\<open>outbox/dispatcher.go\<close>: one polling round over any implementation
  of the interface \<^verbatim>\<open>store.OutboxStore\<close>, the back-off between attempts, and the readiness
  probe.  The broker is a function from a publication to its acknowledgement, \<open>None\<close> when the
  publish failed; it may answer differently in every round.
\<close>

section \<open>Configuration\<close>

record dispatcher_options =
  BatchSize :: int
  ClaimTTL :: duration
  BaseRetry :: duration
  MaxRetry :: duration
  MaxAttempts :: int
  MaxPendingAge :: duration

definition valid_options :: "dispatcher_options \<Rightarrow> bool" where
  "valid_options opt \<longleftrightarrow>
     \<not> (BatchSize opt < 1 \<or> BatchSize opt > 1000 \<or> ClaimTTL opt \<le> 0 \<or> BaseRetry opt \<le> 0 \<or>
        MaxRetry opt < BaseRetry opt \<or> MaxAttempts opt < 1 \<or> MaxPendingAge opt \<le> 0)"

text \<open>The options \<^verbatim>\<open>cmd/relayhub/main.go\<close> passes.\<close>

definition production_options :: "duration \<Rightarrow> dispatcher_options" where
  "production_options reclaimIdle =
     \<lparr>BatchSize = 100, ClaimTTL = reclaimIdle, BaseRetry = second, MaxRetry = 30 * second,
      MaxAttempts = 10, MaxPendingAge = 5 * minute\<rparr>"

section \<open>Back-off\<close>

function retry_loop :: "duration \<Rightarrow> int \<Rightarrow> int \<Rightarrow> duration \<Rightarrow> duration" where
  "retry_loop maxRetry attempt step delay =
     (if step < attempt \<and> delay < maxRetry then
        if delay > maxRetry div 2 then maxRetry
        else retry_loop maxRetry attempt (step + 1) (delay * 2)
      else if delay > maxRetry then maxRetry else delay)"
  by pat_completeness auto
termination
  by (relation "measure (\<lambda>(m, a, s, d). nat (a - s))") auto

declare retry_loop.simps [simp del]

definition retryDelay :: "dispatcher_options \<Rightarrow> int \<Rightarrow> duration" where
  "retryDelay opt attempt = retry_loop (MaxRetry opt) attempt 1 (BaseRetry opt)"

section \<open>A round\<close>

record publication =
  pb_subject :: string
  pb_data :: string
  pb_message_id :: string

record 'db outbox_ops =
  op_claim :: "'db \<Rightarrow> time \<Rightarrow> time \<Rightarrow> string \<Rightarrow> int \<Rightarrow> (store_error + outbox_message list) \<times> 'db"
  op_begin :: "'db \<Rightarrow> string \<Rightarrow> string \<Rightarrow> time \<Rightarrow> int \<Rightarrow> (store_error + outbox_publish_start) \<times> 'db"
  op_dispatched :: "'db \<Rightarrow> string \<Rightarrow> string \<Rightarrow> time \<Rightarrow> (store_error + unit) \<times> 'db"
  op_retry :: "'db \<Rightarrow> string \<Rightarrow> string \<Rightarrow> time \<Rightarrow> string \<Rightarrow> (store_error + unit) \<times> 'db"
  op_fail :: "'db \<Rightarrow> string \<Rightarrow> string \<Rightarrow> time \<Rightarrow> string \<Rightarrow> (store_error + unit) \<times> 'db"
  op_stats :: "'db \<Rightarrow> store_error + outbox_stats"

datatype dispatch_error = ErrStoreUnavailable | ErrPublishUnavailable | ErrOutboxLag | ErrOutboxTerminal

text \<open>The loop's variables, with the publications made and the metrics recorded.\<close>

record dispatch_run =
  dr_completed :: int
  dr_publish_failed :: bool
  dr_published :: "publication list"
  dr_outcomes :: "string list"

definition record_outcome :: "string \<Rightarrow> dispatch_run \<Rightarrow> dispatch_run" where
  "record_outcome x run = run\<lparr>dr_outcomes := dr_outcomes run @ [x]\<rparr>"

definition message_publication :: "outbox_message \<Rightarrow> publication" where
  "message_publication m =
     \<lparr>pb_subject = om_subject m, pb_data = om_payload m, pb_message_id = om_message_id m\<rparr>"

text \<open>The body of the loop on one claimed message; the flag says that a store call failed and the
  round returns.\<close>

definition dispatch_message ::
    "'db outbox_ops \<Rightarrow> (publication \<Rightarrow> bool option) \<Rightarrow> dispatcher_options \<Rightarrow> time
     \<Rightarrow> outbox_message \<Rightarrow> dispatch_run \<Rightarrow> 'db \<Rightarrow> dispatch_run \<times> bool \<times> 'db" where
  "dispatch_message ops publish opt now m run s =
     (let run = (if om_reclaimed m then record_outcome ''reclaimed'' run else run) in
      case op_begin ops s (om_id m) (om_claim_token m) now (MaxAttempts opt) of
        (Inl _, s1) \<Rightarrow> (record_outcome ''store_error'' run, True, s1)
      | (Inr started, s1) \<Rightarrow>
          if ps_exhausted started then
            ((record_outcome ''terminal'' run)\<lparr>dr_publish_failed := True\<rparr>, False, s1)
          else
            let p = message_publication m; run = run\<lparr>dr_published := dr_published run @ [p]\<rparr> in
            case publish p of
              None \<Rightarrow>
                if ps_attempt started \<ge> MaxAttempts opt then
                  (case op_fail ops s1 (om_id m) (om_claim_token m) now ''broker_unavailable'' of
                     (Inl _, s2) \<Rightarrow> (record_outcome ''store_error'' (record_outcome ''terminal'' run), True, s2)
                   | (Inr _, s2) \<Rightarrow>
                       ((record_outcome ''publish_error'' (record_outcome ''terminal'' run))
                          \<lparr>dr_publish_failed := True\<rparr>, False, s2))
                else
                  (case op_retry ops s1 (om_id m) (om_claim_token m)
                          (now + retryDelay opt (ps_attempt started)) ''broker_unavailable'' of
                     (Inl _, s2) \<Rightarrow> (record_outcome ''store_error'' run, True, s2)
                   | (Inr _, s2) \<Rightarrow>
                       ((record_outcome ''publish_error'' run)\<lparr>dr_publish_failed := True\<rparr>, False, s2))
            | Some duplicate \<Rightarrow>
                (case op_dispatched ops s1 (om_id m) (om_claim_token m) now of
                   (Inl _, s2) \<Rightarrow> (record_outcome ''store_error'' run, True, s2)
                 | (Inr _, s2) \<Rightarrow>
                     ((record_outcome (if duplicate then ''duplicate'' else ''published'') run)
                          \<lparr>dr_completed := dr_completed run + 1\<rparr>, False, s2)))"

fun dispatch_messages ::
    "'db outbox_ops \<Rightarrow> (publication \<Rightarrow> bool option) \<Rightarrow> dispatcher_options \<Rightarrow> time
     \<Rightarrow> outbox_message list \<Rightarrow> dispatch_run \<Rightarrow> 'db \<Rightarrow> dispatch_run \<times> bool \<times> 'db" where
  "dispatch_messages ops publish opt now [] run s = (run, False, s)"
| "dispatch_messages ops publish opt now (m # ms) run s =
     (case dispatch_message ops publish opt now m run s of
        (run1, True, s1) \<Rightarrow> (run1, True, s1)
      | (run1, False, s1) \<Rightarrow> dispatch_messages ops publish opt now ms run1 s1)"

definition empty_run :: dispatch_run where
  "empty_run = \<lparr>dr_completed = 0, dr_publish_failed = False, dr_published = [], dr_outcomes = []\<rparr>"

text \<open>\<open>newToken\<close> is what \<^verbatim>\<open>options.NewToken\<close> returned, \<open>None\<close> for its error.\<close>

definition RunOnce ::
    "'db outbox_ops \<Rightarrow> (publication \<Rightarrow> bool option) \<Rightarrow> dispatcher_options \<Rightarrow> time \<Rightarrow> string option
     \<Rightarrow> 'db \<Rightarrow> int \<times> dispatch_error option \<times> dispatch_run \<times> 'db" where
  "RunOnce ops publish opt now newToken s =
     (case newToken of
        None \<Rightarrow> (0, Some ErrStoreUnavailable, record_outcome ''store_error'' empty_run, s)
      | Some token \<Rightarrow>
          if token = [] then (0, Some ErrStoreUnavailable, record_outcome ''store_error'' empty_run, s)
          else case op_claim ops s now (now - ClaimTTL opt) token (BatchSize opt) of
            (Inl _, s1) \<Rightarrow> (0, Some ErrStoreUnavailable, record_outcome ''store_error'' empty_run, s1)
          | (Inr messages, s1) \<Rightarrow>
              (case dispatch_messages ops publish opt now messages empty_run s1 of
                 (run, storeFailed, s2) \<Rightarrow>
                   (dr_completed run,
                    if storeFailed then Some ErrStoreUnavailable
                    else if dr_publish_failed run then Some ErrPublishUnavailable else None,
                    run, s2)))"

definition Ping :: "'db outbox_ops \<Rightarrow> dispatcher_options \<Rightarrow> time \<Rightarrow> 'db \<Rightarrow> dispatch_error option" where
  "Ping ops opt now s =
     (case op_stats ops s of
        Inl _ \<Rightarrow> Some ErrStoreUnavailable
      | Inr stats \<Rightarrow>
          if st_failed stats > 0 then Some ErrOutboxTerminal
          else case st_oldest_pending_at stats of
            Some t \<Rightarrow> if now - t > MaxPendingAge opt then Some ErrOutboxLag else None
          | None \<Rightarrow> None)"

section \<open>The store interface\<close>

definition row_publication :: "outbox_row \<Rightarrow> publication" where
  "row_publication r =
     \<lparr>pb_subject = ob_subject r, pb_data = ob_payload r, pb_message_id = ob_message_id r\<rparr>"

text \<open>What becomes of a claimed row in a round: it is dispatched, rescheduled or failed, the
  attempt being counted first.\<close>

definition settle_row :: "dispatcher_options \<Rightarrow> time \<Rightarrow> time \<Rightarrow> bool option \<Rightarrow> outbox_row \<Rightarrow> outbox_row" where
  "settle_row opt clock now ack r =
     (if MaxAttempts opt \<le> ob_attempts r then fail_row now ''max_attempts'' r
      else case ack of
        Some _ \<Rightarrow> dispatch_row now (start_row now r)
      | None \<Rightarrow>
          if MaxAttempts opt \<le> ob_attempts r + 1
          then fail_row now ''broker_unavailable'' (start_row now r)
          else retry_row (now + retryDelay opt (ob_attempts r + 1)) ''broker_unavailable'' clock
                 (start_row now r))"

locale outbox_store =
  fixes ops :: "'db outbox_ops"
    and look :: "'db \<Rightarrow> string \<Rightarrow> outbox_row option"
    and inv :: "'db \<Rightarrow> bool"
    and clock :: time
  assumes claim_law:
      "inv s \<Longrightarrow> op_claim ops s now stale tok limit = (Inr ms, s') \<Longrightarrow>
       inv s' \<and> distinct (map om_id ms) \<and>
       (\<forall>m \<in> set ms. \<exists>r. look s (om_id m) = Some r \<and> outbox_pending r \<and> m = claimed_message tok r) \<and>
       (\<forall>j. look s' j =
          map_option (\<lambda>r. if j \<in> om_id ` set ms then claim_row now tok r else r) (look s j))"
    and begin_law:
      "inv s \<Longrightarrow> op_begin ops s i tok now mx = (Inr st, s') \<Longrightarrow> look s i = Some r \<Longrightarrow>
       inv s' \<and> ob_claim_token r = Some tok \<and> outbox_pending r \<and>
       (ps_exhausted st \<longleftrightarrow> mx \<le> ob_attempts r) \<and>
       (\<not> ps_exhausted st \<longrightarrow> ps_attempt st = ob_attempts r + 1) \<and>
       (\<forall>j. look s' j =
          (if j = i then Some (if ps_exhausted st then fail_row now ''max_attempts'' r else start_row now r)
           else look s j))"
    and dispatched_law:
      "inv s \<Longrightarrow> op_dispatched ops s i tok now = (Inr u, s') \<Longrightarrow> look s i = Some r \<Longrightarrow>
       ob_claim_token r = Some tok \<Longrightarrow> outbox_pending r \<Longrightarrow>
       inv s' \<and> (\<forall>j. look s' j = (if j = i then Some (dispatch_row now r) else look s j))"
    and retry_law:
      "inv s \<Longrightarrow> op_retry ops s i tok avail reason = (Inr u, s') \<Longrightarrow> look s i = Some r \<Longrightarrow>
       ob_claim_token r = Some tok \<Longrightarrow> outbox_pending r \<Longrightarrow>
       inv s' \<and> (\<forall>j. look s' j =
         (if j = i then Some (retry_row avail (safeOutboxReason reason) clock r) else look s j))"
    and fail_law:
      "inv s \<Longrightarrow> op_fail ops s i tok now reason = (Inr u, s') \<Longrightarrow> look s i = Some r \<Longrightarrow>
       ob_claim_token r = Some tok \<Longrightarrow> outbox_pending r \<Longrightarrow>
       inv s' \<and> (\<forall>j. look s' j =
         (if j = i then Some (fail_row now (safeOutboxReason reason) r) else look s j))"

lemma broker_unavailable_safe [simp]: "safeOutboxReason ''broker_unavailable'' = ''broker_unavailable''"
  by code_simp

lemma start_row_simps [simp]:
  "ob_claim_token (start_row now r) = ob_claim_token r" "outbox_pending (start_row now r) = outbox_pending r"
  "ob_attempts (start_row now r) = ob_attempts r + 1"
  by (simp_all add: start_row_def outbox_pending_def)

context outbox_store
begin

text \<open>One message: the row is settled, the others stay, and the publication is made exactly when
  an attempt is left.\<close>

lemma dispatch_one:
  assumes "inv s" and "look s (om_id m) = Some r"
    and "message_publication m = row_publication r"
    and "dispatch_message ops publish opt now m run s = (run', False, s')"
  shows "inv s' \<and>
    (\<forall>j. look s' j = (if j = om_id m then Some (settle_row opt clock now (publish (row_publication r)) r)
                       else look s j)) \<and>
    dr_published run' = dr_published run @ (if ob_attempts r < MaxAttempts opt then [row_publication r] else []) \<and>
    dr_completed run' = dr_completed run +
       (if ob_attempts r < MaxAttempts opt \<and> publish (row_publication r) \<noteq> None then 1 else 0)"
proof -
  obtain st s0 where b: "op_begin ops s (om_id m) (om_claim_token m) now (MaxAttempts opt) = (Inr st, s0)"
    using assms(4) by (auto simp: dispatch_message_def Let_def split: prod.splits sum.splits)
  note L = begin_law [OF assms(1) b assms(2)]
  note D = assms(4) [unfolded dispatch_message_def b Let_def]
  show ?thesis
  proof (cases "ps_exhausted st")
    case True
    then show ?thesis using L D by (auto simp: settle_row_def record_outcome_def)
  next
    case False
    have r0: "look s0 (om_id m) = Some (start_row now r)"
      "ob_claim_token (start_row now r) = Some (om_claim_token m)" "outbox_pending (start_row now r)"
      and inv0: "inv s0" and lt: "ob_attempts r < MaxAttempts opt" and at: "ps_attempt st = ob_attempts r + 1"
      and oth: "\<And>j. j \<noteq> om_id m \<Longrightarrow> look s0 j = look s j"
      using L False by auto
    show ?thesis
    proof (cases "publish (row_publication r)")
      case (Some dup)
      then obtain u where d: "op_dispatched ops s0 (om_id m) (om_claim_token m) now = (Inr u, s')"
        using D False assms(3) by (auto split: prod.splits sum.splits)
      show ?thesis
        using dispatched_law [OF inv0 d r0] D False Some assms(3) d lt oth
        by (auto simp: settle_row_def record_outcome_def)
    next
      case None
      show ?thesis
      proof (cases "MaxAttempts opt \<le> ps_attempt st")
        case True
        obtain u where d: "op_fail ops s0 (om_id m) (om_claim_token m) now ''broker_unavailable'' = (Inr u, s')"
          using D False None True assms(3) by (auto split: prod.splits sum.splits)
        show ?thesis
          using fail_law [OF inv0 d r0] D False None True assms(3) d lt at oth
          by (auto simp: settle_row_def record_outcome_def)
      next
        case no: False
        obtain u where d: "op_retry ops s0 (om_id m) (om_claim_token m)
             (now + retryDelay opt (ps_attempt st)) ''broker_unavailable'' = (Inr u, s')"
          using D False None no assms(3) by (auto split: prod.splits sum.splits)
        show ?thesis
          using retry_law [OF inv0 d r0] D False None no assms(3) d lt at oth
          by (auto simp: settle_row_def record_outcome_def)
      qed
    qed
  qed
qed

text \<open>All messages of a round.\<close>

lemma dispatch_all:
  assumes "inv s" and "distinct (map om_id ms)"
    and "\<forall>m \<in> set ms. \<exists>r. look s (om_id m) = Some r \<and> message_publication m = row_publication r"
    and "dispatch_messages ops publish opt now ms run s = (run', False, s')"
  shows "inv s' \<and>
    (\<forall>j. look s' j =
       (if j \<in> om_id ` set ms
        then map_option (\<lambda>r. settle_row opt clock now (publish (row_publication r)) r) (look s j)
        else look s j)) \<and>
    dr_published run' = dr_published run @
      map row_publication (filter (\<lambda>r. ob_attempts r < MaxAttempts opt) (map (\<lambda>m. the (look s (om_id m))) ms)) \<and>
    dr_completed run' = dr_completed run +
      int (length (filter (\<lambda>r. ob_attempts r < MaxAttempts opt \<and> publish (row_publication r) \<noteq> None)
        (map (\<lambda>m. the (look s (om_id m))) ms)))"
  using assms
proof (induction ms arbitrary: run s)
  case Nil
  then show ?case by simp
next
  case (Cons m ms)
  obtain r where r: "look s (om_id m) = Some r" "message_publication m = row_publication r"
    using Cons.prems(3) by auto
  obtain run1 s1 where d1: "dispatch_message ops publish opt now m run s = (run1, False, s1)"
    and d2: "dispatch_messages ops publish opt now ms run1 s1 = (run', False, s')"
    using Cons.prems(4) by (auto split: prod.splits bool.splits)
  note one = dispatch_one [OF Cons.prems(1) r d1]
  have fresh: "om_id m \<notin> om_id ` set ms" using Cons.prems(2) by auto
  have same: "look s1 (om_id m') = look s (om_id m')" if "m' \<in> set ms" for m'
    using one fresh that by (metis imageI)
  have rows: "map (\<lambda>m. the (look s1 (om_id m))) ms = map (\<lambda>m. the (look s (om_id m))) ms"
    using same by simp
  have "inv s' \<and>
    (\<forall>j. look s' j =
       (if j \<in> om_id ` set ms
        then map_option (\<lambda>r. settle_row opt clock now (publish (row_publication r)) r) (look s1 j)
        else look s1 j)) \<and>
    dr_published run' = dr_published run1 @
      map row_publication (filter (\<lambda>r. ob_attempts r < MaxAttempts opt) (map (\<lambda>m. the (look s (om_id m))) ms)) \<and>
    dr_completed run' = dr_completed run1 +
      int (length (filter (\<lambda>r. ob_attempts r < MaxAttempts opt \<and> publish (row_publication r) \<noteq> None)
        (map (\<lambda>m. the (look s (om_id m))) ms)))"
    unfolding rows [symmetric]
    by (rule Cons.IH) (use one Cons.prems(2,3) same d2 in auto)
  then show ?case
    using one r fresh by auto
qed

text \<open>A round that reports no store failure: exactly the claimed rows change, each to its settled
  form, and the log and the count are those of the rows with an attempt left.\<close>

lemma round_spec:
  assumes "inv s" and "RunOnce ops publish opt now newToken s = (n, err, run, s')"
    and "err \<noteq> Some ErrStoreUnavailable"
  obtains tok ms s1 where "newToken = Some tok"
    "op_claim ops s now (now - ClaimTTL opt) tok (BatchSize opt) = (Inr ms, s1)" "inv s'"
    "\<And>j. look s' j =
       (if j \<in> om_id ` set ms
        then map_option (\<lambda>r. settle_row opt clock now (publish (row_publication r)) (claim_row now tok r)) (look s j)
        else look s j)"
    "dr_published run =
       map row_publication (filter (\<lambda>r. ob_attempts r < MaxAttempts opt) (map (\<lambda>m. the (look s (om_id m))) ms))"
    "n = int (length (filter (\<lambda>r. ob_attempts r < MaxAttempts opt \<and> publish (row_publication r) \<noteq> None)
        (map (\<lambda>m. the (look s (om_id m))) ms)))"
proof -
  obtain tok ms s1 where tok: "newToken = Some tok"
    and c: "op_claim ops s now (now - ClaimTTL opt) tok (BatchSize opt) = (Inr ms, s1)"
    and d: "dispatch_messages ops publish opt now ms empty_run s1 = (run, False, s')"
    and n: "n = dr_completed run"
    using assms(2,3) by (auto simp: RunOnce_def split: option.splits if_splits prod.splits sum.splits)
  note L = claim_law [OF assms(1) c]
  have pubkeep [simp]: "row_publication (claim_row now tok r) = row_publication r" for r
    by (simp add: row_publication_def)
  have m: "\<exists>r. look s (om_id m) = Some r \<and> look s1 (om_id m) = Some (claim_row now tok r) \<and>
           message_publication m = row_publication r" if "m \<in> set ms" for m
    using L that by (fastforce simp: message_publication_def claimed_message_def row_publication_def)
  have rows: "map (\<lambda>m. the (look s1 (om_id m))) ms = map (claim_row now tok) (map (\<lambda>m. the (look s (om_id m))) ms)"
    using m by force
  have A: "inv s' \<and>
    (\<forall>j. look s' j =
       (if j \<in> om_id ` set ms
        then map_option (\<lambda>r. settle_row opt clock now (publish (row_publication r)) r) (look s1 j)
        else look s1 j)) \<and>
    dr_published run = dr_published empty_run @
      map row_publication (filter (\<lambda>r. ob_attempts r < MaxAttempts opt) (map (\<lambda>m. the (look s1 (om_id m))) ms)) \<and>
    dr_completed run = dr_completed empty_run +
      int (length (filter (\<lambda>r. ob_attempts r < MaxAttempts opt \<and> publish (row_publication r) \<noteq> None)
        (map (\<lambda>m. the (look s1 (om_id m))) ms)))"
    by (rule dispatch_all [OF _ _ _ d]) (use L m in fastforce)+
  show ?thesis
  proof (rule that [OF tok c])
    show "look s' j =
       (if j \<in> om_id ` set ms
        then map_option (\<lambda>r. settle_row opt clock now (publish (row_publication r)) (claim_row now tok r)) (look s j)
        else look s j)" for j
      using A L by (cases "look s j") auto
  qed (use A n in \<open>simp_all add: rows filter_map o_def empty_run_def\<close>)
qed

end

section \<open>Accounting of publications\<close>

text \<open>
  The stronger contract: whatever an operation answers, no row appears or vanishes, message
  identifiers stay, and attempt counters move only when an attempt is started.
\<close>

definition same_accounts :: "('db \<Rightarrow> string \<Rightarrow> outbox_row option) \<Rightarrow> 'db \<Rightarrow> 'db \<Rightarrow> bool" where
  "same_accounts look s s' \<longleftrightarrow>
     (\<forall>i. map_option (\<lambda>r. (ob_message_id r, ob_attempts r)) (look s' i) =
          map_option (\<lambda>r. (ob_message_id r, ob_attempts r)) (look s i))"

definition publications_of :: "string \<Rightarrow> publication list \<Rightarrow> nat" where
  "publications_of k log = length (filter (\<lambda>p. pb_message_id p = k) log)"

text \<open>Every publication in the log is covered by a counted attempt of its row.\<close>

definition accounted ::
    "('db \<Rightarrow> string \<Rightarrow> outbox_row option) \<Rightarrow> int \<Rightarrow> 'db \<Rightarrow> publication list \<Rightarrow> bool" where
  "accounted look mx s log \<longleftrightarrow>
     (\<forall>i r. look s i = Some r \<longrightarrow>
        int (publications_of (ob_message_id r) log) \<le> ob_attempts r \<and> ob_attempts r \<le> mx)"

lemma accounted_same: "same_accounts look s s' \<Longrightarrow> accounted look mx s log \<Longrightarrow> accounted look mx s' log"
  unfolding same_accounts_def accounted_def
  by (metis (mono_tags, lifting) map_option_eq_Some prod.inject)

locale counting_outbox_store = outbox_store ops look inv clock
  for ops :: "'db outbox_ops" and look :: "'db \<Rightarrow> string \<Rightarrow> outbox_row option"
    and inv :: "'db \<Rightarrow> bool" and clock :: time +
  assumes inv_ops:
      "inv s \<Longrightarrow> inv (snd (op_claim ops s now stale tok limit))"
      "inv s \<Longrightarrow> inv (snd (op_begin ops s i tok now mx))"
      "inv s \<Longrightarrow> inv (snd (op_dispatched ops s i tok now))"
      "inv s \<Longrightarrow> inv (snd (op_retry ops s i tok now reason))"
      "inv s \<Longrightarrow> inv (snd (op_fail ops s i tok now reason))"
    and accounts_ops:
      "inv s \<Longrightarrow> same_accounts look s (snd (op_claim ops s now stale tok limit))"
      "inv s \<Longrightarrow> same_accounts look s (snd (op_dispatched ops s i tok now))"
      "inv s \<Longrightarrow> same_accounts look s (snd (op_retry ops s i tok now reason))"
      "inv s \<Longrightarrow> same_accounts look s (snd (op_fail ops s i tok now reason))"
      "inv s \<Longrightarrow> op_begin ops s i tok now mx = (Inl e, s') \<Longrightarrow> same_accounts look s s'"
    and begin_finds: "inv s \<Longrightarrow> op_begin ops s i tok now mx = (Inr st, s') \<Longrightarrow> look s i \<noteq> None"
    and message_unique:
      "inv s \<Longrightarrow> look s i = Some r \<Longrightarrow> look s j = Some r' \<Longrightarrow> ob_message_id r = ob_message_id r' \<Longrightarrow> i = j"
begin

lemma begin_accounts:
  assumes "inv s" and "accounted look mx s log" and "op_begin ops s i tok now mx = (Inr st, s')"
    and "look s i = Some r"
  shows "inv s' \<and> accounted look mx s' (if ps_exhausted st then log else log @ [p]) \<or> pb_message_id p \<noteq> ob_message_id r"
proof (cases "pb_message_id p = ob_message_id r")
  case pid: True
  note L = begin_law [OF assms(1,3,4)]
  have other: "ob_message_id r' \<noteq> pb_message_id p" if "look s j = Some r'" "j \<noteq> i" for j r'
    using message_unique [OF assms(1) that(1) assms(4)] that(2) pid by auto
  have "int (publications_of (ob_message_id r) log) \<le> ob_attempts r" "ob_attempts r \<le> mx"
    using assms(2,4) by (auto simp: accounted_def)
  note bounds = this
  have "accounted look mx s' (if ps_exhausted st then log else log @ [p])"
    unfolding accounted_def
  proof (intro allI impI)
    fix j r'
    assume j: "look s' j = Some r'"
    show "int (publications_of (ob_message_id r') (if ps_exhausted st then log else log @ [p])) \<le> ob_attempts r' \<and>
          ob_attempts r' \<le> mx"
    proof (cases "j = i")
      case True
      then have r': "r' = (if ps_exhausted st then fail_row now ''max_attempts'' r else start_row now r)"
        using j L by simp
      show ?thesis
      proof (cases "ps_exhausted st")
        case True
        then show ?thesis using r' bounds by simp
      next
        case False
        then have "ob_attempts r < mx" using L by simp
        then show ?thesis using False r' bounds pid by (simp add: publications_of_def start_row_def)
      qed
    next
      case False
      then have sj: "look s j = Some r'" using j L by simp
      then have "pb_message_id p \<noteq> ob_message_id r'" using other [OF sj False] by simp
      moreover have "int (publications_of (ob_message_id r') log) \<le> ob_attempts r' \<and> ob_attempts r' \<le> mx"
        using sj assms(2) unfolding accounted_def by blast
      ultimately show ?thesis by (simp add: publications_of_def)
    qed
  qed
  then show ?thesis using L by simp
qed simp

lemma message_accounts:
  assumes "inv s" and "accounted look (MaxAttempts opt) s (pre @ dr_published run)"
    and "\<And>r. look s (om_id m) = Some r \<Longrightarrow> om_message_id m = ob_message_id r"
    and "dispatch_message ops publish opt now m run s = (run', b, s')"
  shows "inv s' \<and> accounted look (MaxAttempts opt) s' (pre @ dr_published run') \<and>
         (\<forall>i. map_option ob_message_id (look s' i) = map_option ob_message_id (look s i))"
proof (cases "op_begin ops s (om_id m) (om_claim_token m) now (MaxAttempts opt)")
  case (Pair res s0)
  have msgs: "map_option ob_message_id (look u i) = map_option ob_message_id (look v i)"
    if "same_accounts look v u" for u v i
    using that [unfolded same_accounts_def, rule_format, of i] by (cases "look u i"; cases "look v i") auto
  show ?thesis
  proof (cases res)
    case (Inl e)
    then have "same_accounts look s s0" using accounts_ops(5) [OF assms(1)] Pair by simp
    moreover have "inv s0" using inv_ops(2) [OF assms(1)] Pair by (metis snd_conv)
    ultimately show ?thesis
      using assms(2,4) Pair Inl msgs [of s s0]
      by (auto simp: dispatch_message_def Let_def record_outcome_def dest: accounted_same)
  next
    case (Inr st)
    with Pair have b: "op_begin ops s (om_id m) (om_claim_token m) now (MaxAttempts opt) = (Inr st, s0)" by simp
    obtain r where r: "look s (om_id m) = Some r" using begin_finds [OF assms(1) b] by auto
    have pid: "pb_message_id (message_publication m) = ob_message_id r"
      using assms(3) [OF r] by (simp add: message_publication_def)
    note L = begin_law [OF assms(1) b r]
    have A: "inv s0" "accounted look (MaxAttempts opt) s0
        (if ps_exhausted st then pre @ dr_published run else (pre @ dr_published run) @ [message_publication m])"
      using begin_accounts [OF assms(1,2) b r, of "message_publication m"] pid by auto
    have M: "map_option ob_message_id (look s0 i) = map_option ob_message_id (look s i)" for i
      using L r by (auto simp: start_row_def)
    have step: "inv s2 \<and> accounted look (MaxAttempts opt) s2 (pre @ dr_published run @ [message_publication m]) \<and>
        (\<forall>i. map_option ob_message_id (look s2 i) = map_option ob_message_id (look s i))"
      if "same_accounts look s0 s2" "inv s2" "\<not> ps_exhausted st" for s2
      using that A(2) M msgs [OF that(1)] accounted_same [OF that(1)] by simp
    note I = inv_ops(3-5) [OF A(1)] and S = accounts_ops(2-4) [OF A(1)]
    note D = assms(4) [unfolded dispatch_message_def b Let_def]
    show ?thesis
    proof (cases "ps_exhausted st")
      case True
      then show ?thesis using D A M by (auto simp: record_outcome_def)
    next
      case False
      show ?thesis
      proof (cases "publish (message_publication m)")
        case (Some dup)
        obtain res2 s2 where d: "op_dispatched ops s0 (om_id m) (om_claim_token m) now = (res2, s2)" by fastforce
        then have "s' = s2" "dr_published run' = dr_published run @ [message_publication m]"
          using D False Some by (auto simp: record_outcome_def split: sum.splits)
        then show ?thesis
          using step [of s2] False I(1) [of "om_id m" "om_claim_token m" now]
            S(1) [of "om_id m" "om_claim_token m" now] d by simp
      next
        case None
        show ?thesis
        proof (cases "MaxAttempts opt \<le> ps_attempt st")
          case True
          obtain res2 s2 where d:
            "op_fail ops s0 (om_id m) (om_claim_token m) now ''broker_unavailable'' = (res2, s2)" by fastforce
          then have "s' = s2" "dr_published run' = dr_published run @ [message_publication m]"
            using D False None True by (auto simp: record_outcome_def split: sum.splits)
          then show ?thesis
            using step [of s2] False I(3) [of "om_id m" "om_claim_token m" now "''broker_unavailable''"]
              S(3) [of "om_id m" "om_claim_token m" now "''broker_unavailable''"] d by simp
        next
          case no: False
          let ?at = "now + retryDelay opt (ps_attempt st)"
          obtain res2 s2 where d:
            "op_retry ops s0 (om_id m) (om_claim_token m) ?at ''broker_unavailable'' = (res2, s2)" by fastforce
          then have "s' = s2" "dr_published run' = dr_published run @ [message_publication m]"
            using D False None no by (auto simp: record_outcome_def split: sum.splits)
          then show ?thesis
            using step [of s2] False I(2) [of "om_id m" "om_claim_token m" ?at "''broker_unavailable''"]
              S(2) [of "om_id m" "om_claim_token m" ?at "''broker_unavailable''"] d by simp
        qed
      qed
    qed
  qed
qed

lemma messages_accounts:
  assumes "inv s" and "accounted look (MaxAttempts opt) s (pre @ dr_published run)"
    and "\<forall>m \<in> set ms. map_option ob_message_id (look s (om_id m)) = Some (om_message_id m)"
    and "dispatch_messages ops publish opt now ms run s = (run', b, s')"
  shows "inv s' \<and> accounted look (MaxAttempts opt) s' (pre @ dr_published run')"
  using assms
proof (induction ms arbitrary: run s)
  case Nil
  then show ?case by simp
next
  case (Cons m ms)
  obtain run1 b1 s1 where d1: "dispatch_message ops publish opt now m run s = (run1, b1, s1)"
    by (metis prod_cases3)
  have hd: "om_message_id m = ob_message_id r" if "look s (om_id m) = Some r" for r
    using Cons.prems(3) that by simp
  note A = message_accounts [OF Cons.prems(1,2) hd d1]
  have ids: "\<forall>m \<in> set ms. map_option ob_message_id (look s1 (om_id m)) = Some (om_message_id m)"
    using A Cons.prems(3) by simp
  show ?case
  proof (cases b1)
    case True
    then show ?thesis using Cons.prems(4) d1 A by simp
  next
    case False
    then have "dispatch_messages ops publish opt now ms run1 s1 = (run', b, s')"
      using Cons.prems(4) d1 by simp
    then show ?thesis using Cons.IH [of s1 run1] A ids by blast
  qed
qed

end

section \<open>The PostgreSQL store\<close>

definition pg_outbox_ops :: "string set \<Rightarrow> time \<Rightarrow> db outbox_ops" where
  "pg_outbox_ops locked clock =
     \<lparr>op_claim = ClaimOutbox locked, op_begin = BeginOutboxPublish, op_dispatched = MarkOutboxDispatched,
      op_retry = RetryOutbox clock, op_fail = FailOutbox, op_stats = (\<lambda>s. Inr (OutboxStats s))\<rparr>"

lemma pg_outbox_ops_simps [simp]:
  "op_claim (pg_outbox_ops locked clock) = ClaimOutbox locked"
  "op_begin (pg_outbox_ops locked clock) = BeginOutboxPublish"
  "op_dispatched (pg_outbox_ops locked clock) = MarkOutboxDispatched"
  "op_retry (pg_outbox_ops locked clock) = RetryOutbox clock"
  "op_fail (pg_outbox_ops locked clock) = FailOutbox"
  "op_stats (pg_outbox_ops locked clock) = (\<lambda>s. Inr (OutboxStats s))"
  by (simp_all add: pg_outbox_ops_def)

lemma candidates_in:
  "r \<in> set (outbox_candidates locked now stale limit rows) \<Longrightarrow> r \<in> set rows \<and> outbox_due now stale r \<and> ob_id r \<notin> locked"
  by (auto simp: outbox_candidates_def dest: in_set_takeD)

lemma distinct_map_sort_key: "distinct (map k (sort_key f xs)) = distinct (map k xs)"
  by (metis distinct_map distinct_sort set_sort)

lemma candidates_distinct:
  "distinct (map ob_id rows) \<Longrightarrow> distinct (map ob_id (outbox_candidates locked now stale limit rows))"
  by (simp add: outbox_candidates_def take_map [symmetric] distinct_map_sort_key distinct_map_filter)

lemma Claim_result:
  assumes "outbox_ok s" and "ClaimOutbox locked s now stale tok limit = (Inr ms, s')"
  shows "distinct (map om_id ms)"
    and "\<forall>m \<in> set ms. \<exists>r. find_outbox s (om_id m) = Some r \<and> outbox_due now stale r \<and>
           om_id m \<notin> locked \<and> m = claimed_message tok r"
    and "find_outbox s' j =
           map_option (\<lambda>r. if j \<in> om_id ` set ms then claim_row now tok r else r) (find_outbox s j)"
    and "int (length ms) \<le> limit"
proof -
  let ?c = "outbox_candidates locked now stale limit (outbox s)"
  have ms: "ms = map (claimed_message tok) ?c"
    and s': "s' = s\<lparr>outbox := sql_update (\<lambda>r. ob_id r \<in> set (map ob_id ?c)) (claim_row now tok) (outbox s)\<rparr>"
    and lim: "1 \<le> limit"
    using assms(2) by (auto simp: ClaimOutbox_def Let_def split: if_splits)
  have ids [simp]: "om_id (claimed_message tok r) = ob_id r" for r by (simp add: claimed_message_def)
  show "distinct (map om_id ms)"
    using assms(1) by (simp add: ms o_def candidates_distinct outbox_ok_def)
  show "\<forall>m \<in> set ms. \<exists>r. find_outbox s (om_id m) = Some r \<and> outbox_due now stale r \<and>
           om_id m \<notin> locked \<and> m = claimed_message tok r"
  proof
    fix m assume "m \<in> set ms"
    then obtain r where r: "r \<in> set ?c" "m = claimed_message tok r" by (auto simp: ms)
    then have "find_outbox s (ob_id r) = Some r"
      using candidates_in [OF r(1)] assms(1) sql_row_key [of ob_id "outbox s" r]
      by (auto simp: find_outbox_def outbox_ok_def)
    then show "\<exists>r. find_outbox s (om_id m) = Some r \<and> outbox_due now stale r \<and>
           om_id m \<notin> locked \<and> m = claimed_message tok r"
      using candidates_in [OF r(1)] r(2) by auto
  qed
  have img: "om_id ` set ms = set (map ob_id ?c)" by (simp add: ms image_image)
  show "find_outbox s' j =
           map_option (\<lambda>r. if j \<in> om_id ` set ms then claim_row now tok r else r) (find_outbox s j)"
    unfolding s' img using find_outbox_in [of s j]
    by (cases "find_outbox s j") (auto simp: find_outbox_sql_update)
  show "int (length ms) \<le> limit"
    using lim by (simp add: ms outbox_candidates_def)
qed

lemma same_accounts_refl [simp]: "same_accounts look s s"
  by (simp add: same_accounts_def)

lemma same_accounts_update:
  assumes "\<And>r. P r \<Longrightarrow> ob_id (f r) = ob_id r \<and> ob_message_id (f r) = ob_message_id r \<and> ob_attempts (f r) = ob_attempts r"
  shows "same_accounts find_outbox s (s\<lparr>outbox := sql_update P f (outbox s)\<rparr>)"
  unfolding same_accounts_def
proof
  fix i
  show "map_option (\<lambda>r. (ob_message_id r, ob_attempts r)) (find_outbox (s\<lparr>outbox := sql_update P f (outbox s)\<rparr>) i) =
        map_option (\<lambda>r. (ob_message_id r, ob_attempts r)) (find_outbox s i)"
    using assms by (cases "find_outbox s i") (auto simp: find_outbox_sql_update)
qed

lemma same_accounts_outbox: "outbox s' = outbox s'' \<Longrightarrow> same_accounts find_outbox s s' = same_accounts find_outbox s s''"
  by (simp add: same_accounts_def find_outbox_def)

lemma same_accounts_pg:
  "same_accounts find_outbox s (snd (ClaimOutbox locked s now stale tok limit))"
  "same_accounts find_outbox s (snd (MarkOutboxDispatched s i tok now))"
  "same_accounts find_outbox s (snd (RetryOutbox clock s i tok avail reason))"
  "same_accounts find_outbox s (snd (FailOutbox s i tok now reason))"
proof -
  show "same_accounts find_outbox s (snd (ClaimOutbox locked s now stale tok limit))"
    by (auto simp: ClaimOutbox_def Let_def intro!: same_accounts_update)
  have u: "same_accounts find_outbox s s2"
    if "update_deliveries P g (s\<lparr>outbox := sql_update Q f (outbox s)\<rparr>) = Some s1" "outbox s2 = outbox s1"
      "f \<in> {dispatch_row now, retry_row a x c}" for P g Q f s1 s2 a x c
  proof -
    have "same_accounts find_outbox s (s\<lparr>outbox := sql_update Q f (outbox s)\<rparr>)"
      by (rule same_accounts_update) (use that(3) in auto)
    then show ?thesis
      using same_accounts_outbox [of s2 "s\<lparr>outbox := sql_update Q f (outbox s)\<rparr>" s] that(2)
        update_deliveries_frame(1) [OF that(1)] by simp
  qed
  show "same_accounts find_outbox s (snd (MarkOutboxDispatched s i tok now))"
    by (auto simp: MarkOutboxDispatched_def Let_def split: option.split intro: u)
  show "same_accounts find_outbox s (snd (RetryOutbox clock s i tok avail reason))"
    by (auto simp: RetryOutbox_def Let_def split: option.split intro: u)
  have v: "same_accounts find_outbox s s1"
    if "dead_letter_delivery k y now (s\<lparr>outbox := sql_update Q (fail_row now x) (outbox s)\<rparr>) = Some s1"
    for k y Q x s1
  proof -
    have "same_accounts find_outbox s (s\<lparr>outbox := sql_update Q (fail_row now x) (outbox s)\<rparr>)"
      by (rule same_accounts_update) auto
    then show ?thesis
      using same_accounts_outbox [of s1 "s\<lparr>outbox := sql_update Q (fail_row now x) (outbox s)\<rparr>" s]
        dead_letter_frame(1) [OF that] by simp
  qed
  show "same_accounts find_outbox s (snd (FailOutbox s i tok now reason))"
    by (auto simp: FailOutbox_def Let_def split: option.split intro: v)
qed

interpretation pg: counting_outbox_store "pg_outbox_ops locked clock" find_outbox outbox_ok clock
  for locked :: "string set" and clock :: time
proof unfold_locales
  fix s :: db and now stale tok limit ms s'
  assume a: "outbox_ok s" "op_claim (pg_outbox_ops locked clock) s now stale tok limit = (Inr ms, s')"
  then have c: "ClaimOutbox locked s now stale tok limit = (Inr ms, s')" by simp
  have ok': "outbox_ok s'" using outbox_ok_ops(1) [OF a(1), of locked now stale tok limit] c by simp
  have "\<exists>r. find_outbox s (om_id m) = Some r \<and> outbox_pending r \<and> m = claimed_message tok r"
    if "m \<in> set ms" for m
    using Claim_result(2) [OF a(1) c] that unfolding outbox_due_def by blast
  then show "outbox_ok s' \<and> distinct (map om_id ms) \<and>
       (\<forall>m \<in> set ms. \<exists>r. find_outbox s (om_id m) = Some r \<and> outbox_pending r \<and> m = claimed_message tok r) \<and>
       (\<forall>j. find_outbox s' j =
          map_option (\<lambda>r. if j \<in> om_id ` set ms then claim_row now tok r else r) (find_outbox s j))"
    using Claim_result(1,3) [OF a(1) c] ok' by simp
next
  fix s :: db and i tok now mx st s' r
  assume a: "outbox_ok s" "op_begin (pg_outbox_ops locked clock) s i tok now mx = (Inr st, s')" "find_outbox s i = Some r"
  then have b: "BeginOutboxPublish s i tok now mx = (Inr st, s')" by simp
  have ok': "outbox_ok s'" using outbox_ok_ops(2) [OF a(1), of i tok now mx] b by simp
  show "outbox_ok s' \<and> ob_claim_token r = Some tok \<and> outbox_pending r \<and>
       (ps_exhausted st \<longleftrightarrow> mx \<le> ob_attempts r) \<and>
       (\<not> ps_exhausted st \<longrightarrow> ps_attempt st = ob_attempts r + 1) \<and>
       (\<forall>j. find_outbox s' j =
          (if j = i then Some (if ps_exhausted st then fail_row now ''max_attempts'' r else start_row now r)
           else find_outbox s j))"
    by (rule Begin_result [OF a(1) b]) (use a(3) ok' in simp)
next
  fix s :: db and i tok now mx st s'
  assume a: "outbox_ok s" "op_begin (pg_outbox_ops locked clock) s i tok now mx = (Inr st, s')"
  then have b: "BeginOutboxPublish s i tok now mx = (Inr st, s')" by simp
  show "find_outbox s i \<noteq> None" by (rule Begin_result [OF a(1) b]) simp
next
  fix s :: db and i r j r'
  assume "outbox_ok s" "find_outbox s i = Some r" "find_outbox s j = Some r'" "ob_message_id r = ob_message_id r'"
  then show "i = j"
    using distinct_key_unique [of ob_message_id "outbox s" r r'] find_outbox_in [of s i r] find_outbox_in [of s j r']
    by (auto simp: outbox_ok_def)
next
  fix s :: db and i tok now mx e s'
  assume "op_begin (pg_outbox_ops locked clock) s i tok now mx = (Inl e, s')"
  then show "same_accounts find_outbox s s'" by (auto dest: outbox_error_unchanged)
next
  fix s :: db and i tok now u s' r
  assume a: "outbox_ok s" "op_dispatched (pg_outbox_ops locked clock) s i tok now = (Inr u, s')"
    "find_outbox s i = Some r" "ob_claim_token r = Some tok" "outbox_pending r"
  then show "outbox_ok s' \<and> (\<forall>j. find_outbox s' j = (if j = i then Some (dispatch_row now r) else find_outbox s j))"
    using outbox_ok_ops(3) [OF a(1), of i tok now] Mark_result [OF a(1,3-5)] by simp
next
  fix s :: db and i tok avail reason u s' r
  assume a: "outbox_ok s" "op_retry (pg_outbox_ops locked clock) s i tok avail reason = (Inr u, s')"
    "find_outbox s i = Some r" "ob_claim_token r = Some tok" "outbox_pending r"
  then show "outbox_ok s' \<and> (\<forall>j. find_outbox s' j =
      (if j = i then Some (retry_row avail (safeOutboxReason reason) clock r) else find_outbox s j))"
    using outbox_ok_ops(4) [OF a(1), of clock i tok avail reason] Retry_result [OF a(1,3-5)] by simp
next
  fix s :: db and i tok now reason u s' r
  assume a: "outbox_ok s" "op_fail (pg_outbox_ops locked clock) s i tok now reason = (Inr u, s')"
    "find_outbox s i = Some r" "ob_claim_token r = Some tok" "outbox_pending r"
  then show "outbox_ok s' \<and> (\<forall>j. find_outbox s' j =
      (if j = i then Some (fail_row now (safeOutboxReason reason) r) else find_outbox s j))"
    using outbox_ok_ops(5) [OF a(1), of i tok now reason] Fail_result [OF a(1,3-5)] by simp
qed (simp_all add: outbox_ok_ops same_accounts_pg)

section \<open>Stability of settled rows\<close>

inductive outbox_step :: "db \<Rightarrow> db \<Rightarrow> bool" where
  claim: "outbox_step s (snd (ClaimOutbox locked s now stale tok limit))"
| begin_publish: "outbox_step s (snd (BeginOutboxPublish s i tok now mx))"
| dispatched: "outbox_step s (snd (MarkOutboxDispatched s i tok now))"
| retry: "outbox_step s (snd (RetryOutbox clock s i tok avail reason))"
| fail: "outbox_step s (snd (FailOutbox s i tok now reason))"

lemma settled_not_held:
  "outbox_ok s \<Longrightarrow> find_outbox s j = Some r \<Longrightarrow> \<not> outbox_pending r \<Longrightarrow>
   sql_row (held_outbox i tok) (outbox s) = Some r' \<Longrightarrow> j \<noteq> i"
  using held_outbox_row [of s i tok r'] by auto

lemma step_keeps_settled:
  assumes "outbox_step s t" and ok: "outbox_ok s" and f: "find_outbox s j = Some r" and n: "\<not> outbox_pending r"
  shows "find_outbox t j = Some r"
  using assms(1)
proof cases
  case (claim locked now stale tok limit)
  show ?thesis
  proof (cases "ClaimOutbox locked s now stale tok limit")
    case (Pair res s')
    show ?thesis
    proof (cases res)
      case (Inl e)
      then show ?thesis using claim Pair f outbox_error_unchanged(1) by force
    next
      case (Inr ms)
      with Pair have c: "ClaimOutbox locked s now stale tok limit = (Inr ms, s')" by simp
      have "j \<notin> om_id ` set ms"
        using Claim_result(2) [OF ok c] f n by (auto simp: outbox_due_def)
      then show ?thesis using Claim_result(3) [OF ok c, of j] f claim c by simp
    qed
  qed
next
  case (begin_publish i tok now mx)
  show ?thesis
  proof (cases "BeginOutboxPublish s i tok now mx")
    case (Pair res s')
    show ?thesis
    proof (cases res)
      case (Inl e)
      then show ?thesis using begin_publish Pair f outbox_error_unchanged(2) by force
    next
      case (Inr st)
      with Pair have b: "BeginOutboxPublish s i tok now mx = (Inr st, s')" by simp
      show ?thesis
        by (rule Begin_result [OF ok b]) (use begin_publish b f n in auto)
    qed
  qed
next
  case (dispatched i tok now)
  show ?thesis
  proof (cases "sql_row (held_outbox i tok) (outbox s)")
    case None
    then show ?thesis
      using dispatched f by (auto simp: MarkOutboxDispatched_def split: option.split)
  next
    case (Some r')
    have h: "find_outbox s i = Some r'" "ob_claim_token r' = Some tok" "outbox_pending r'" "j \<noteq> i"
      using held_outbox_row [OF ok, of i tok r'] Some settled_not_held [OF ok f n Some] by auto
    show ?thesis
    proof (cases "MarkOutboxDispatched s i tok now")
      case (Pair res s')
      then show ?thesis
        using dispatched f Mark_result [OF ok h(1-3), of now s' j] h(4) outbox_error_unchanged(3)
        by (cases res) force+
    qed
  qed
next
  case (retry clock i tok avail reason)
  show ?thesis
  proof (cases "sql_row (held_outbox i tok) (outbox s)")
    case None
    then show ?thesis using retry f by (auto simp: RetryOutbox_def split: option.split)
  next
    case (Some r')
    have h: "find_outbox s i = Some r'" "ob_claim_token r' = Some tok" "outbox_pending r'" "j \<noteq> i"
      using held_outbox_row [OF ok, of i tok r'] Some settled_not_held [OF ok f n Some] by auto
    show ?thesis
    proof (cases "RetryOutbox clock s i tok avail reason")
      case (Pair res s')
      then show ?thesis
        using retry f Retry_result [OF ok h(1-3), of clock avail reason s' j] h(4) outbox_error_unchanged(4)
        by (cases res) force+
    qed
  qed
next
  case (fail i tok now reason)
  show ?thesis
  proof (cases "sql_row (held_outbox i tok) (outbox s)")
    case None
    then show ?thesis using fail f by (auto simp: FailOutbox_def split: option.split)
  next
    case (Some r')
    have h: "find_outbox s i = Some r'" "ob_claim_token r' = Some tok" "outbox_pending r'" "j \<noteq> i"
      using held_outbox_row [OF ok, of i tok r'] Some settled_not_held [OF ok f n Some] by auto
    show ?thesis
    proof (cases "FailOutbox s i tok now reason")
      case (Pair res s')
      then show ?thesis
        using fail f Fail_result [OF ok h(1-3), of now reason s' j] h(4) outbox_error_unchanged(5)
        by (cases res) force+
    qed
  qed
qed

interpretation outbox_rows: settled_rows outbox_step outbox_ok find_outbox "\<lambda>r. \<not> outbox_pending r" "(=)"
proof unfold_locales
  show "outbox_step s t \<Longrightarrow> outbox_ok s \<Longrightarrow> outbox_ok t" for s t
    by (auto elim!: outbox_step.cases simp: outbox_ok_ops)
qed (auto dest: step_keeps_settled)

section \<open>Rounds\<close>

text \<open>A round of some dispatcher process, with the rows other transactions had locked, the
  database clock and the broker as they were then.\<close>

record dispatch_round =
  rd_locked :: "string set"
  rd_clock :: time
  rd_publish :: "publication \<Rightarrow> bool option"
  rd_now :: time
  rd_token :: "string option"

definition run_round ::
    "dispatcher_options \<Rightarrow> publication list \<times> db \<Rightarrow> dispatch_round \<Rightarrow> publication list \<times> db" where
  "run_round opt st rd =
     (case RunOnce (pg_outbox_ops (rd_locked rd) (rd_clock rd)) (rd_publish rd) opt (rd_now rd) (rd_token rd) (snd st) of
        (n, err, run, s') \<Rightarrow> (fst st @ dr_published run, s'))"

lemma round_accounts:
  assumes ok: "outbox_ok s" and acc: "accounted find_outbox (MaxAttempts opt) s log"
    and r: "run_round opt (log, s) rd = (log', s')"
  shows "outbox_ok s' \<and> accounted find_outbox (MaxAttempts opt) s' log'"
proof -
  let ?ops = "pg_outbox_ops (rd_locked rd) (rd_clock rd)"
  let ?claim = "\<lambda>tok. ClaimOutbox (rd_locked rd) s (rd_now rd) (rd_now rd - ClaimTTL opt) tok (BatchSize opt)"
  show ?thesis
  proof (cases "\<exists>tok ms s1. rd_token rd = Some tok \<and> tok \<noteq> [] \<and> ?claim tok = (Inr ms, s1)")
    case True
    then obtain tok ms s1 where tok: "rd_token rd = Some tok" "tok \<noteq> []" and c: "?claim tok = (Inr ms, s1)"
      by blast
    obtain run b s2 where d: "dispatch_messages ?ops (rd_publish rd) opt (rd_now rd) ms empty_run s1 = (run, b, s2)"
      by (metis prod_cases3)
    have res: "log' = log @ dr_published run" "s' = s2"
      using r tok c d by (auto simp: run_round_def RunOnce_def)
    have ok1: "outbox_ok s1" using outbox_ok_ops(1) [OF ok, of "rd_locked rd"] c by (metis snd_conv)
    have acc1: "accounted find_outbox (MaxAttempts opt) s1 log"
      using accounted_same [OF _ acc] same_accounts_pg(1) c by (metis snd_conv)
    have ids: "\<forall>m \<in> set ms. map_option ob_message_id (find_outbox s1 (om_id m)) = Some (om_message_id m)"
      using Claim_result(2) [OF ok c] Claim_result(3) [OF ok c] by (fastforce simp: claimed_message_def)
    have "outbox_ok s2 \<and> accounted find_outbox (MaxAttempts opt) s2 (log @ dr_published run)"
      by (rule pg.messages_accounts [OF ok1 _ ids d]) (simp add: acc1 empty_run_def)
    then show ?thesis using res by simp
  next
    case False
    have "s' = s \<and> log' = log"
    proof (cases "rd_token rd")
      case None
      then show ?thesis using r by (simp add: run_round_def RunOnce_def record_outcome_def empty_run_def)
    next
      case (Some tok)
      show ?thesis
      proof (cases "?claim tok")
        case (Pair res s1)
        show ?thesis
        proof (cases "tok = []")
          case True
          then show ?thesis
            using r Some by (simp add: run_round_def RunOnce_def record_outcome_def empty_run_def)
        next
          case ne: False
          with False Some Pair obtain e where "res = Inl e" by (cases res) auto
          with Pair have "?claim tok = (Inl e, s1)" "s1 = s" using outbox_error_unchanged(1) by auto
          then show ?thesis
            using r Some ne by (simp add: run_round_def RunOnce_def record_outcome_def empty_run_def)
        qed
      qed
    qed
    then show ?thesis using ok acc by simp
  qed
qed

lemma rounds_accounts:
  assumes "outbox_ok (snd st)" and "accounted find_outbox (MaxAttempts opt) (snd st) (fst st)"
  shows "outbox_ok (snd (foldl (run_round opt) st rds)) \<and>
         accounted find_outbox (MaxAttempts opt) (snd (foldl (run_round opt) st rds)) (fst (foldl (run_round opt) st rds))"
  using assms
proof (induction rds arbitrary: st)
  case Nil
  then show ?case by simp
next
  case (Cons rd rds)
  obtain log s where st: "st = (log, s)" by (cases st)
  obtain log' s' where r: "run_round opt (log, s) rd = (log', s')" by fastforce
  have "outbox_ok s' \<and> accounted find_outbox (MaxAttempts opt) s' log'"
    by (rule round_accounts [OF _ _ r]) (use Cons.prems st in auto)
  then show ?case using Cons.IH [of "(log', s')"] st r by simp
qed

lemma retry_loop_closed:
  "0 < d \<Longrightarrow> d \<le> m \<Longrightarrow> s \<le> a \<Longrightarrow> retry_loop m a s d = min m (d * 2 ^ nat (a - s))"
proof (induction m a s d rule: retry_loop.induct)
  case (1 m a s d)
  show ?case
  proof (cases "s < a \<and> d < m")
    case True
    have e: "nat (a - s) = Suc (nat (a - (s + 1)))" using True by linarith
    show ?thesis
    proof (cases "d > m div 2")
      case big: True
      have "(1::int) \<le> 2 ^ nat (a - (s + 1))" by simp
      then have "m \<le> d * 2 * 2 ^ nat (a - (s + 1))"
        using big mult_mono [of "m" "d * 2" 1 "2 ^ nat (a - (s + 1))"] 1(2,3) by simp
      then show ?thesis
        using True big by (subst retry_loop.simps) (simp add: e mult.assoc)
    next
      case False
      have "retry_loop m a (s + 1) (d * 2) = min m (d * 2 * 2 ^ nat (a - (s + 1)))"
        using False 1(2,4) True by (intro 1(1)) auto
      then show ?thesis
        using True False by (subst retry_loop.simps) (simp add: e mult.assoc)
    qed
  next
    case False
    show ?thesis
    proof (cases "d = m")
      case True
      have "(1::int) \<le> 2 ^ nat (a - s)" by simp
      then have "m \<le> m * 2 ^ nat (a - s)" using 1(2) True by simp
      then show ?thesis using True by (subst retry_loop.simps) simp
    next
      case ne: False
      with False 1(3,4) have "a = s" by auto
      then show ?thesis using 1(3) by (subst retry_loop.simps) simp
    qed
  qed
qed

text \<open>An outbox with two due rows: one of a fresh callback delivery, and one that has used its
  attempts and whose stream delivery a gateway holds.\<close>

definition example_outbox :: "string \<Rightarrow> string \<Rightarrow> int \<Rightarrow> outbox_row" where
  "example_outbox i d n =
     \<lparr>ob_id = i, ob_event_id = ''evt_1'', ob_delivery_id = d, ob_subject = ''s'', ob_payload = ''{}'',
      ob_message_id = i, ob_attempts = n, ob_generation = 1, ob_available_at = 0, ob_claimed_at = None,
      ob_claim_token = None, ob_dispatched_at = None, ob_failed_at = None, ob_last_error = None,
      ob_created_at = 0, ob_updated_at = 0\<rparr>"

definition outbox_example :: db where
  "outbox_example =
     empty_db\<lparr>
      deliveries := [held_delivery, (example_delivery ''d2'')\<lparr>d_sink := CallbackSink, d_status := Delivered\<rparr>],
      outbox := [example_outbox ''o2'' ''d2'' 0,
                (example_outbox ''o1'' ''d1'' 10)\<lparr>ob_claimed_at := Some 5, ob_claim_token := Some ''old''\<rparr>]\<rparr>"

definition fresh_outbox :: db where
  "fresh_outbox = outbox_example\<lparr>outbox := [example_outbox ''o2'' ''d2'' 0]\<rparr>"

definition claimed_outbox :: db where
  "claimed_outbox = outbox_example\<lparr>outbox := map (claim_row 9 ''tok'') (outbox outbox_example)\<rparr>"

section \<open>Properties\<close>

lemma round_outcome:
  assumes "outbox_ok s"
    and "RunOnce (pg_outbox_ops locked clock) publish opt now (Some tok) s = (n, err, run, s')"
    and "err \<noteq> Some ErrStoreUnavailable"
    and "claimed = outbox_candidates locked now (now - ClaimTTL opt) (BatchSize opt) (outbox s)"
  shows "find_outbox s' j =
           (if j \<in> ob_id ` set claimed
            then map_option (\<lambda>r. settle_row opt clock now (publish (row_publication r)) (claim_row now tok r))
                   (find_outbox s j)
            else find_outbox s j) \<and>
         dr_published run = map row_publication (filter (\<lambda>r. ob_attempts r < MaxAttempts opt) claimed) \<and>
         n = int (length (filter (\<lambda>r. ob_attempts r < MaxAttempts opt \<and> publish (row_publication r) \<noteq> None)
                   claimed))"
proof (rule pg.round_spec [OF assms(1,2,3)])
  fix tok' ms s1
  assume tok: "Some tok = Some tok'"
    and c: "op_claim (pg_outbox_ops locked clock) s now (now - ClaimTTL opt) tok' (BatchSize opt) = (Inr ms, s1)"
    and look: "\<And>j. find_outbox s' j =
       (if j \<in> om_id ` set ms
        then map_option (\<lambda>r. settle_row opt clock now (publish (row_publication r)) (claim_row now tok' r))
               (find_outbox s j)
        else find_outbox s j)"
    and pub: "dr_published run =
       map row_publication (filter (\<lambda>r. ob_attempts r < MaxAttempts opt)
         (map (\<lambda>m. the (find_outbox s (om_id m))) ms))"
    and cnt: "n = int (length (filter (\<lambda>r. ob_attempts r < MaxAttempts opt \<and> publish (row_publication r) \<noteq> None)
        (map (\<lambda>m. the (find_outbox s (om_id m))) ms)))"
  have ms: "ms = map (claimed_message tok) claimed"
    using c tok assms(4) by (auto simp: ClaimOutbox_def Let_def split: if_splits)
  have "find_outbox s (ob_id r) = Some r" if "r \<in> set claimed" for r
    using candidates_in [of r] that assms(1,4) sql_row_key [of ob_id "outbox s" r]
    by (auto simp: find_outbox_def outbox_ok_def)
  then have rows: "map (\<lambda>m. the (find_outbox s (om_id m))) ms = claimed"
    unfolding ms by (auto simp: claimed_message_def intro: map_idI)
  have "om_id ` set ms = ob_id ` set claimed"
    unfolding ms by (simp add: claimed_message_def image_image)
  then show ?thesis using look tok pub cnt unfolding rows by simp
qed



text \<open>
  C26.  A message is published a bounded number of times.  Starting from rows that have used no
  attempt, through any sequence of rounds of any dispatchers, with any broker answers, failed and
  exhausted rounds included, no message identifier is published more than \<^verbatim>\<open>MaxAttempts\<close> times.
\<close>

theorem publications_bounded:
  assumes "outbox_ok s" and "\<forall>r \<in> set (outbox s). ob_attempts r = 0" and "0 \<le> MaxAttempts opt"
    and "foldl (run_round opt) ([], s) rds = (log, s')" and "find_outbox s' i = Some r"
  shows "int (publications_of (ob_message_id r) log) \<le> MaxAttempts opt"
proof -
  have "accounted find_outbox (MaxAttempts opt) s []"
    using assms(2,3) find_outbox_in by (fastforce simp: accounted_def publications_of_def)
  then have "accounted find_outbox (MaxAttempts opt) s' log"
    using rounds_accounts [of "([], s)" opt rds] assms(1,4) by simp
  then show ?thesis using assms(5) by (force simp: accounted_def)
qed

theorem publications_bounded_witness:
  "let opt = (production_options 1)\<lparr>MaxAttempts := 2\<rparr>;
       rd = (\<lambda>now. \<lparr>rd_locked = {}, rd_clock = now, rd_publish = (\<lambda>p. None), rd_now = now, rd_token = Some ''t''\<rparr>);
       st = foldl (run_round opt) ([], fresh_outbox) [rd 10, rd (100 * second), rd (200 * second)] in
   publications_of ''o2'' (fst st) = 2 \<and> int (publications_of ''o2'' (fst st)) \<le> MaxAttempts opt"
proof -
  define opt where "opt = (production_options 1)\<lparr>MaxAttempts := 2\<rparr>"
  define rd where "rd = (\<lambda>now. \<lparr>rd_locked = {}, rd_clock = now, rd_publish = (\<lambda>p :: publication. None :: bool option),
    rd_now = now, rd_token = Some ''t''\<rparr>)"
  define st where "st = foldl (run_round opt) ([], fresh_outbox) [rd 10, rd (100 * second), rd (200 * second)]"
  have ok: "outbox_ok fresh_outbox" by code_simp
  have z: "\<forall>r \<in> set (outbox fresh_outbox). ob_attempts r = 0" by code_simp
  have n: "0 \<le> MaxAttempts opt" by (simp add: opt_def)
  have e: "foldl (run_round opt) ([], fresh_outbox) [rd 10, rd (100 * second), rd (200 * second)] = (fst st, snd st)"
    by (simp only: st_def prod.collapse)
  have "map_option ob_message_id (find_outbox (snd st) ''o2'') = Some ''o2''"
    unfolding st_def opt_def rd_def by code_simp
  then obtain r where r: "find_outbox (snd st) ''o2'' = Some r" "ob_message_id r = ''o2''" by auto
  have "int (publications_of ''o2'' (fst st)) \<le> MaxAttempts opt"
    using publications_bounded [OF ok z n e r(1)] r(2) by simp
  moreover have "publications_of ''o2'' (fst st) = 2"
    unfolding st_def opt_def rd_def by code_simp
  ultimately show ?thesis unfolding Let_def st_def opt_def rd_def by simp
qed



text \<open>
  C40.  The back-off is exponential and capped: after attempt \<open>n\<close> the delay is the base delay doubled
  \<open>n - 1\<close> times, cut off at the maximum.  The loop never multiplies past the maximum, so it does not
  overflow.
\<close>

theorem retry_delay_exponential:
  assumes "valid_options opt" and "1 \<le> attempt"
  shows "retryDelay opt attempt = min (MaxRetry opt) (BaseRetry opt * 2 ^ nat (attempt - 1))"
  using retry_loop_closed [of "BaseRetry opt" "MaxRetry opt" 1 attempt] assms
  by (simp add: retryDelay_def valid_options_def)

theorem retry_delay_exponential_witness:
  "map (retryDelay (production_options 100)) [1, 2, 5, 6] = [second, 2 * second, 16 * second, 30 * second]"
proof -
  have "valid_options (production_options 100)" by code_simp
  from retry_delay_exponential [OF this, of 1] retry_delay_exponential [OF this, of 2]
    retry_delay_exponential [OF this, of 5] retry_delay_exponential [OF this, of 6]
  show ?thesis by (simp add: production_options_def)
qed

text \<open>
  A stream delivery that a gateway has been assigned cannot be dead-lettered by the outbox.  The
  statement clears the connection, the token and the expiry of the assignment but leaves its start
  and its bound, which the table's check forbids, so the transaction fails and nothing changes: the
  row keeps its claim and every later round fails on it in the same way.
\<close>

theorem assigned_delivery_blocks_outbox:
  assumes "outbox_ok s" and "find_outbox s i = Some r" and "ob_claim_token r = Some tok" and "outbox_pending r"
    and "find_delivery s (ob_delivery_id r) = Some d" and "d_assignment_started_at d \<noteq> None"
    and "d_status d \<noteq> Acked" and "i \<noteq> []" and "tok \<noteq> []" and "1 \<le> mx" and "mx \<le> ob_attempts r"
  shows "FailOutbox s i tok now reason = (Inl ErrDB, s) \<and>
         BeginOutboxPublish s i tok now mx = (Inl ErrDB, s)"
proof -
  have row: "sql_row (held_outbox i tok) (outbox s) = Some r"
    using assms(2-4) held_outbox_row [OF assms(1)] by simp
  have "dead_letter_delivery (ob_delivery_id r) x now (s\<lparr>outbox := rows\<rparr>) = None" for x rows
    using assms(5-7) find_delivery_in [OF assms(5)]
    by (auto simp: dead_letter_delivery_def update_deliveries_None delivery_check_def assignment_complete_def
        intro!: bexI [of _ d])
  then show ?thesis
    using row assms(8-11) by (simp add: FailOutbox_def BeginOutboxPublish_def Let_def)
qed

theorem assigned_delivery_blocks_outbox_witness:
  "FailOutbox claimed_outbox ''o1'' ''tok'' 10 ''broker_unavailable'' = (Inl ErrDB, claimed_outbox)"
proof -
  let ?r = "claim_row 9 ''tok'' ((example_outbox ''o1'' ''d1'' 10)\<lparr>ob_claimed_at := Some 5, ob_claim_token := Some ''old''\<rparr>)"
  have "outbox_ok claimed_outbox" "find_outbox claimed_outbox ''o1'' = Some ?r"
    "ob_claim_token ?r = Some ''tok''" "outbox_pending ?r"
    "find_delivery claimed_outbox (ob_delivery_id ?r) = Some held_delivery"
    "d_assignment_started_at held_delivery \<noteq> None" "d_status held_delivery \<noteq> Acked"
    "''o1'' \<noteq> []" "''tok'' \<noteq> []" "(1::int) \<le> 10" "10 \<le> ob_attempts ?r"
    by code_simp+
  from assigned_delivery_blocks_outbox [OF this] show ?thesis by simp
qed

text \<open>
  Recording the dispatch of a callback delivery that the worker has already delivered takes the
  delivery back: its status goes from delivered to dispatched, since the statement spares only
  acknowledged and dead-lettered deliveries.
\<close>

theorem dispatch_undoes_delivered:
  assumes "outbox_ok s" and "find_outbox s i = Some r" and "ob_claim_token r = Some tok" and "outbox_pending r"
    and "deliveries_ok s" and "find_delivery s (ob_delivery_id r) = Some d" and "d_status d = Delivered"
    and "i \<noteq> []" and "tok \<noteq> []"
  shows "\<exists>s'. MarkOutboxDispatched s i tok now = (Inr (), s') \<and>
          find_delivery s' (ob_delivery_id r) =
            Some (d\<lparr>d_status := Dispatched, d_updated_at := max (d_updated_at d) now\<rparr>)"
proof -
  have row: "sql_row (held_outbox i tok) (outbox s) = Some r"
    using assms(2-4) held_outbox_row [OF assms(1)] by simp
  let ?s1 = "s\<lparr>outbox := sql_update (held_outbox i tok) (dispatch_row now) (outbox s)\<rparr>"
  let ?P = "\<lambda>d. d_id d = ob_delivery_id r \<and> \<not> terminal_status (d_status d)"
  let ?f = "\<lambda>d. d\<lparr>d_status := Dispatched, d_updated_at := max (d_updated_at d) now\<rparr>"
  have "\<forall>d \<in> set (deliveries ?s1). ?P d \<longrightarrow> delivery_check (?f d)"
    using assms(5) by (auto simp: deliveries_ok_def list_all_iff)
  then obtain s2 where u: "update_deliveries ?P ?f ?s1 = Some s2"
    by (auto simp: update_deliveries_Some)
  have "find_delivery s2 (ob_delivery_id r) = Some (?f d)"
    using find_delivery_update [OF u, of "ob_delivery_id r"] assms(6,7) find_delivery_in [OF assms(6)]
    by (simp add: find_delivery_def terminal_status_def)
  then show ?thesis
    using row u assms(8,9) by (simp add: MarkOutboxDispatched_def Let_def)
qed

theorem dispatch_undoes_delivered_witness:
  "map_option d_status (find_delivery claimed_outbox ''d2'') = Some Delivered \<and>
   map_option d_status (find_delivery (snd (MarkOutboxDispatched claimed_outbox ''o2'' ''tok'' 10)) ''d2'') =
     Some Dispatched"
proof -
  let ?r = "claim_row 9 ''tok'' (example_outbox ''o2'' ''d2'' 0)"
  let ?d = "(example_delivery ''d2'')\<lparr>d_sink := CallbackSink, d_status := Delivered\<rparr>"
  have "outbox_ok claimed_outbox" "find_outbox claimed_outbox ''o2'' = Some ?r"
    "ob_claim_token ?r = Some ''tok''" "outbox_pending ?r" "deliveries_ok claimed_outbox"
    "find_delivery claimed_outbox (ob_delivery_id ?r) = Some ?d" "d_status ?d = Delivered"
    "''o2'' \<noteq> []" "''tok'' \<noteq> []"
    by code_simp+
  note h = this
  from dispatch_undoes_delivered [OF h, of 10] h(6,7) show ?thesis
    by (auto simp: example_outbox_def)
qed

end
