(* ===== verification/Json.thy ===== *)
theory Json
  imports GoLib
begin

text \<open>
  \<^verbatim>\<open>encoding/json\<close> as the program uses it: the decoder, which keeps the text of every member
  of an object (\<^verbatim>\<open>json.RawMessage\<close>), and the encoder.  The recursive descent runs on fuel;
  twice the length of the input plus one is always enough.  In strict mode a repeated key ends the scan at
  once, as the token loop of \<^verbatim>\<open>streamprotocol.inspectValue\<close> does.
\<close>

section \<open>Values\<close>

datatype json =
    JNull
  | JBool bool
  | JNum string
  | JStr string
  | JArr "json list"
  | JObj "(string \<times> string \<times> json) list"

type_synonym members = "(string \<times> string \<times> json) list"

datatype json_error = SyntaxError | DuplicateKey

section \<open>Lexical elements\<close>

abbreviation quote_char :: char where "quote_char \<equiv> CHR 0x22"
abbreviation backslash :: char where "backslash \<equiv> CHR 0x5C"

definition json_space :: "char \<Rightarrow> bool" where
  "json_space c \<longleftrightarrow> c \<in> {CHR 0x20, CHR 0x09, CHR 0x0A, CHR 0x0D}"

definition skip_ws :: "string \<Rightarrow> string" where
  "skip_ws s = dropWhile json_space s"

definition hex_val :: "char \<Rightarrow> int option" where
  "hex_val c =
     (if is_digit c then Some (byte_of c - 48)
      else if byte_in 97 102 c then Some (byte_of c - 87)
      else if byte_in 65 70 c then Some (byte_of c - 55)
      else None)"

definition hex4 :: "char \<Rightarrow> char \<Rightarrow> char \<Rightarrow> char \<Rightarrow> int option" where
  "hex4 a b c d =
     (case (hex_val a, hex_val b, hex_val c, hex_val d) of
        (Some w, Some x, Some y, Some z) \<Rightarrow> Some (((w * 16 + x) * 16 + y) * 16 + z)
      | _ \<Rightarrow> None)"

definition simple_escape :: "char \<Rightarrow> char option" where
  "simple_escape e =
     (if e \<in> {quote_char, backslash, CHR ''/''} then Some e
      else if e = CHR ''b'' then Some (CHR 0x08)
      else if e = CHR ''f'' then Some (CHR 0x0C)
      else if e = CHR ''n'' then Some (CHR 0x0A)
      else if e = CHR ''r'' then Some (CHR 0x0D)
      else if e = CHR ''t'' then Some (CHR 0x09)
      else None)"

datatype str_item = SByte char | SUnit int

fun lex_items :: "string \<Rightarrow> (str_item list \<times> string) option" where
  "lex_items [] = None"
| "lex_items (c # r) =
     (if c = quote_char then Some ([], r)
      else if c = backslash then
        (case r of
           [] \<Rightarrow> None
         | e # r1 \<Rightarrow>
             if e = CHR ''u'' then
               (case r1 of
                  h1 # h2 # h3 # h4 # r2 \<Rightarrow>
                    (case hex4 h1 h2 h3 h4 of
                       None \<Rightarrow> None
                     | Some n \<Rightarrow> map_option (\<lambda>(xs, t). (SUnit n # xs, t)) (lex_items r2))
                | _ \<Rightarrow> None)
             else
               (case simple_escape e of
                  None \<Rightarrow> None
                | Some b \<Rightarrow> map_option (\<lambda>(xs, t). (SByte b # xs, t)) (lex_items r1)))
      else if byte_of c < 32 then None
      else map_option (\<lambda>(xs, t). (SByte c # xs, t)) (lex_items r))"

definition surrogate :: "int \<Rightarrow> bool" where "surrogate n \<longleftrightarrow> 55296 \<le> n \<and> n < 57344"

text \<open>A high surrogate joins the low one right after it; every other surrogate reads as U+FFFD.\<close>

fun unquote :: "str_item list \<Rightarrow> string" where
  "unquote [] = []"
| "unquote (SByte b # xs) = b # unquote xs"
| "unquote (SUnit n # SUnit m # xs) =
     (if surrogate n then
        if n < 56320 \<and> surrogate m \<and> 56320 \<le> m
        then encode_rune ((n - 55296) * 1024 + (m - 56320) + 65536) @ unquote xs
        else encode_rune 65533 @ unquote (SUnit m # xs)
      else encode_rune n @ unquote (SUnit m # xs))"
| "unquote (SUnit n # xs) = encode_rune (if surrogate n then 65533 else n) @ unquote xs"

text \<open>After the opening quote: the decoded string and the rest.\<close>

definition lex_string :: "string \<Rightarrow> (string \<times> string) option" where
  "lex_string s = map_option (\<lambda>(xs, r). (unquote xs, r)) (lex_items s)"

definition lex_digits :: "string \<Rightarrow> (string \<times> string) option" where
  "lex_digits s =
     (let ds = takeWhile is_digit s in if ds = [] then None else Some (ds, dropWhile is_digit s))"

definition lex_int_part :: "string \<Rightarrow> (string \<times> string) option" where
  "lex_int_part s =
     (case s of
        [] \<Rightarrow> None
      | c # r \<Rightarrow> if c = CHR ''0'' then Some ([c], r) else lex_digits s)"

definition lex_fraction :: "string \<Rightarrow> (string \<times> string) option" where
  "lex_fraction s =
     (case s of
        c # r \<Rightarrow> if c = CHR ''.'' then map_option (\<lambda>(ds, t). (c # ds, t)) (lex_digits r) else Some ([], s)
      | [] \<Rightarrow> Some ([], s))"

definition lex_exponent :: "string \<Rightarrow> (string \<times> string) option" where
  "lex_exponent s =
     (case s of
        c # r \<Rightarrow>
          if c = CHR ''e'' \<or> c = CHR ''E'' then
            (case r of
               g # r' \<Rightarrow>
                 if g = CHR ''+'' \<or> g = CHR ''-'' then map_option (\<lambda>(ds, t). (c # g # ds, t)) (lex_digits r')
                 else map_option (\<lambda>(ds, t). (c # ds, t)) (lex_digits r)
             | [] \<Rightarrow> None)
          else Some ([], s)
      | [] \<Rightarrow> Some ([], s))"

definition lex_unsigned :: "string \<Rightarrow> (string \<times> string) option" where
  "lex_unsigned s =
     Option.bind (lex_int_part s) (\<lambda>(a, r1).
     Option.bind (lex_fraction r1) (\<lambda>(b, r2).
     Option.bind (lex_exponent r2) (\<lambda>(c, r3). Some (a @ b @ c, r3))))"

definition lex_number :: "string \<Rightarrow> (string \<times> string) option" where
  "lex_number s =
     (case s of
        c # r \<Rightarrow> if c = CHR ''-'' then map_option (\<lambda>(l, t). (c # l, t)) (lex_unsigned r) else lex_unsigned s
      | [] \<Rightarrow> None)"

section \<open>The decoder\<close>

fun parse_value :: "bool \<Rightarrow> nat \<Rightarrow> string \<Rightarrow> json_error + (json \<times> string)"
  and parse_members :: "bool \<Rightarrow> nat \<Rightarrow> string list \<Rightarrow> string \<Rightarrow> json_error + (members \<times> string)"
  and parse_elements :: "bool \<Rightarrow> nat \<Rightarrow> string \<Rightarrow> json_error + (json list \<times> string)" where
  "parse_value strict 0 s = Inl SyntaxError"
| "parse_value strict (Suc n) s =
     (case skip_ws s of
        [] \<Rightarrow> Inl SyntaxError
      | c # r \<Rightarrow>
          if c = CHR ''{'' then
            (case skip_ws r of
               [] \<Rightarrow> Inl SyntaxError
             | d # r1 \<Rightarrow>
                 if d = CHR ''}'' then Inr (JObj [], r1)
                 else case parse_members strict n [] r of
                   Inl e \<Rightarrow> Inl e
                 | Inr (ms, t) \<Rightarrow> Inr (JObj ms, t))
          else if c = CHR ''['' then
            (case skip_ws r of
               [] \<Rightarrow> Inl SyntaxError
             | d # r1 \<Rightarrow>
                 if d = CHR '']'' then Inr (JArr [], r1)
                 else case parse_elements strict n r of
                   Inl e \<Rightarrow> Inl e
                 | Inr (vs, t) \<Rightarrow> Inr (JArr vs, t))
          else if c = quote_char then
            (case lex_string r of None \<Rightarrow> Inl SyntaxError | Some (x, t) \<Rightarrow> Inr (JStr x, t))
          else if c = CHR ''t'' then
            (case strip_prefix ''rue'' r of None \<Rightarrow> Inl SyntaxError | Some t \<Rightarrow> Inr (JBool True, t))
          else if c = CHR ''f'' then
            (case strip_prefix ''alse'' r of None \<Rightarrow> Inl SyntaxError | Some t \<Rightarrow> Inr (JBool False, t))
          else if c = CHR ''n'' then
            (case strip_prefix ''ull'' r of None \<Rightarrow> Inl SyntaxError | Some t \<Rightarrow> Inr (JNull, t))
          else
            (case lex_number (c # r) of None \<Rightarrow> Inl SyntaxError | Some (x, t) \<Rightarrow> Inr (JNum x, t)))"
| "parse_members strict 0 seen s = Inl SyntaxError"
| "parse_members strict (Suc n) seen s =
     (case skip_ws s of
        [] \<Rightarrow> Inl SyntaxError
      | c # r \<Rightarrow>
          if c \<noteq> quote_char then Inl SyntaxError
          else case lex_string r of
            None \<Rightarrow> Inl SyntaxError
          | Some (key, r1) \<Rightarrow>
              if strict \<and> key \<in> set seen then Inl DuplicateKey
              else case skip_ws r1 of
                [] \<Rightarrow> Inl SyntaxError
              | col # r2 \<Rightarrow>
                  if col \<noteq> CHR '':'' then Inl SyntaxError
                  else case parse_value strict n r2 of
                    Inl e \<Rightarrow> Inl e
                  | Inr (v, r3) \<Rightarrow>
                      let start = skip_ws r2; raw = take (length start - length r3) start in
                      case skip_ws r3 of
                        [] \<Rightarrow> Inl SyntaxError
                      | d # r4 \<Rightarrow>
                          if d = CHR ''}'' then Inr ([(key, raw, v)], r4)
                          else if d = CHR '','' then
                            (case parse_members strict n (key # seen) r4 of
                               Inl e \<Rightarrow> Inl e
                             | Inr (ms, t) \<Rightarrow> Inr ((key, raw, v) # ms, t))
                          else Inl SyntaxError)"
| "parse_elements strict 0 s = Inl SyntaxError"
| "parse_elements strict (Suc n) s =
     (case parse_value strict n s of
        Inl e \<Rightarrow> Inl e
      | Inr (v, r) \<Rightarrow>
          (case skip_ws r of
             [] \<Rightarrow> Inl SyntaxError
           | d # r1 \<Rightarrow>
               if d = CHR '']'' then Inr ([v], r1)
               else if d = CHR '','' then
                 (case parse_elements strict n r1 of
                    Inl e \<Rightarrow> Inl e
                  | Inr (vs, t) \<Rightarrow> Inr (v # vs, t))
               else Inl SyntaxError))"

text \<open>Nesting is limited to 10000 levels (\<^verbatim>\<open>maxNestingDepth\<close> of \<^verbatim>\<open>encoding/json\<close>).\<close>

fun json_depth :: "json \<Rightarrow> int" where
  "json_depth (JArr vs) = 1 + fold max (map json_depth vs) 0"
| "json_depth (JObj ms) = 1 + fold max (map (\<lambda>(k, raw, v). json_depth v) ms) 0"
| "json_depth _ = 0"

definition parse_json :: "bool \<Rightarrow> string \<Rightarrow> json_error + json" where
  "parse_json strict s =
     (case parse_value strict (Suc (2 * length s)) s of
        Inl e \<Rightarrow> Inl e
      | Inr (v, r) \<Rightarrow> if skip_ws r = [] \<and> json_depth v \<le> 10000 then Inr v else Inl SyntaxError)"

definition json_valid :: "string \<Rightarrow> bool" where
  "json_valid s = (case parse_json False s of Inl _ \<Rightarrow> False | Inr _ \<Rightarrow> True)"

section \<open>Enough fuel\<close>

lemma skip_ws_length: "length (skip_ws s) \<le> length s"
  by (simp add: skip_ws_def length_dropWhile_le)

lemma skip_ws_Cons_length: "skip_ws s = c # r \<Longrightarrow> length r < length s"
  using skip_ws_length [of s] by simp

lemma lex_items_length: "lex_items s = Some (xs, r) \<Longrightarrow> length r < length s"
proof (induction s arbitrary: xs r rule: lex_items.induct)
  case 1
  then show ?case by simp
next
  case (2 c s)
  then show ?case
    by (fastforce split: if_splits list.splits option.splits)
qed

lemma lex_string_length: "lex_string s = Some (x, r) \<Longrightarrow> length r < length s"
  by (auto simp: lex_string_def dest: lex_items_length)

lemma lex_digits_length: "lex_digits s = Some (d, r) \<Longrightarrow> length r < length s"
proof -
  assume "lex_digits s = Some (d, r)"
  then have "takeWhile is_digit s \<noteq> []" "r = dropWhile is_digit s"
    by (auto simp: lex_digits_def Let_def split: if_splits)
  moreover have "length s = length (takeWhile is_digit s) + length (dropWhile is_digit s)"
    by (metis length_append takeWhile_dropWhile_id)
  ultimately show ?thesis by simp
qed

lemma lex_number_length: "lex_number s = Some (x, r) \<Longrightarrow> length r < length s"
proof -
  have i: "lex_int_part s = Some (x, r) \<Longrightarrow> length r < length s" for s x r
    by (auto simp: lex_int_part_def dest: lex_digits_length split: list.splits if_splits)
  have f: "lex_fraction s = Some (x, r) \<Longrightarrow> length r \<le> length s" for s x r
    by (auto simp: lex_fraction_def dest: lex_digits_length split: list.splits if_splits)
  have e: "lex_exponent s = Some (x, r) \<Longrightarrow> length r \<le> length s" for s x r
    by (auto simp: lex_exponent_def dest: lex_digits_length split: list.splits if_splits)
  have u: "lex_unsigned s = Some (x, r) \<Longrightarrow> length r < length s" for s x r
    by (auto simp: lex_unsigned_def bind_eq_Some_conv dest!: i f e)
  show "lex_number s = Some (x, r) \<Longrightarrow> length r < length s"
    by (auto simp: lex_number_def dest: u split: list.splits if_splits)
qed

lemma strip_prefix_length: "strip_prefix p s = Some r \<Longrightarrow> length r \<le> length s"
  by (simp add: strip_prefix_Some)

lemma parse_length:
  "parse_value strict n s = Inr (v, r) \<Longrightarrow> length r < length s"
  "parse_members strict n seen s = Inr (ms, r) \<Longrightarrow> length r < length s"
  "parse_elements strict n s = Inr (vs, r) \<Longrightarrow> length r < length s"
proof (induction n arbitrary: strict s v r seen ms vs)
  case 0
  {
    case 1
    then show ?case by simp
  next
    case 2
    then show ?case by simp
  next
    case 3
    then show ?case by simp
  }
next
  case (Suc n)
  {
    case 1
    then show ?case
      by (auto split: list.splits if_splits sum.splits option.splits
          dest!: skip_ws_Cons_length Suc.IH lex_string_length lex_number_length strip_prefix_length)
  next
    case 2
    then show ?case
      by (auto simp: Let_def split: list.splits if_splits sum.splits option.splits
          dest!: skip_ws_Cons_length Suc.IH lex_string_length)
  next
    case 3
    then show ?case
      by (auto split: list.splits if_splits sum.splits
          dest!: skip_ws_Cons_length Suc.IH)
  }
qed

text \<open>With more fuel than twice the number of characters the result no longer depends on the fuel.\<close>

lemma parse_fuel:
  "2 * length s < n \<Longrightarrow> 2 * length s < m \<Longrightarrow> parse_value strict n s = parse_value strict m s"
  "2 * length s < n \<Longrightarrow> 2 * length s < m \<Longrightarrow> parse_members strict n seen s = parse_members strict m seen s"
  "Suc (2 * length s) < n \<Longrightarrow> Suc (2 * length s) < m \<Longrightarrow> parse_elements strict n s = parse_elements strict m s"
proof (induction n arbitrary: m s seen)
  case 0
  {
    case 1
    then show ?case by simp
  next
    case 2
    then show ?case by simp
  next
    case 3
    then show ?case by simp
  }
next
  case (Suc n)
  {
    case 1
    then obtain k where m: "m = Suc k" by (cases m) auto
    have M: "parse_members strict n seen r = parse_members strict k seen r" if "skip_ws s = c # r" for c r seen
      using skip_ws_Cons_length [OF that] 1 m by (intro Suc.IH) auto
    have E: "parse_elements strict n r = parse_elements strict k r" if "skip_ws s = c # r" for c r
      using skip_ws_Cons_length [OF that] 1 m by (intro Suc.IH) auto
    show ?case unfolding m by (auto simp: M E split: list.split)
  next
    case 2
    then obtain k where m: "m = Suc k" by (cases m) auto
    have V: "parse_value strict n r2 = parse_value strict k r2"
      if "skip_ws s = c # r" "lex_string r = Some (key, r1)" "skip_ws r1 = col # r2" for c r key r1 col r2
      using skip_ws_Cons_length [OF that(1)] lex_string_length [OF that(2)] skip_ws_Cons_length [OF that(3)] 2 m
      by (intro Suc.IH) auto
    have M: "parse_members strict n sn r4 = parse_members strict k sn r4"
      if "skip_ws s = c # r" "lex_string r = Some (key, r1)" "skip_ws r1 = col # r2"
        "parse_value strict k r2 = Inr (v, r3)" "skip_ws r3 = d # r4" for c r key r1 col r2 v r3 d r4 sn
      using skip_ws_Cons_length [OF that(1)] lex_string_length [OF that(2)] skip_ws_Cons_length [OF that(3)]
        parse_length(1) [OF that(4)] skip_ws_Cons_length [OF that(5)] 2 m
      by (intro Suc.IH) auto
    show ?case
      unfolding m by (auto simp: V M Let_def split: list.split option.split sum.split)
  next
    case 3
    then obtain k where m: "m = Suc k" by (cases m) auto
    have V: "parse_value strict n s = parse_value strict k s" using 3 m by (intro Suc.IH) auto
    have E: "parse_elements strict n r1 = parse_elements strict k r1"
      if "parse_value strict k s = Inr (v, r)" "skip_ws r = d # r1" for v r d r1
      using parse_length(1) [OF that(1)] skip_ws_Cons_length [OF that(2)] 3 m by (intro Suc.IH) auto
    show ?case unfolding m by (auto simp: V E split: list.split sum.split)
  }
qed

text \<open>The shape of a successful scan of members.\<close>

definition raw_text :: "string \<Rightarrow> string \<Rightarrow> string" where
  "raw_text start rest = take (length (skip_ws start) - length rest) (skip_ws start)"

lemma parse_membersE:
  assumes "parse_members strict (Suc n) seen s = Inr (ms, r)"
  obtains r0 key r1 r2 v r3 d r4 where "skip_ws s = quote_char # r0" "lex_string r0 = Some (key, r1)"
    "\<not> (strict \<and> key \<in> set seen)" "skip_ws r1 = CHR '':'' # r2" "parse_value strict n r2 = Inr (v, r3)"
    "skip_ws r3 = d # r4"
    "(d = CHR ''}'' \<and> ms = [(key, raw_text r2 r3, v)] \<and> r = r4) \<or>
     (d = CHR '','' \<and> (\<exists>ms'. parse_members strict n (key # seen) r4 = Inr (ms', r) \<and>
        ms = (key, raw_text r2 r3, v) # ms'))"
  using assms
  by (auto simp: Let_def raw_text_def split: list.splits if_splits sum.splits option.splits)

lemma parse_elementsE:
  assumes "parse_elements strict (Suc n) s = Inr (vs, r)"
  obtains v r0 d r1 where "parse_value strict n s = Inr (v, r0)" "skip_ws r0 = d # r1"
    "(d = CHR '']'' \<and> vs = [v] \<and> r = r1) \<or>
     (d = CHR '','' \<and> (\<exists>vs'. parse_elements strict n r1 = Inr (vs', r) \<and> vs = v # vs'))"
  using assms by (auto split: list.splits if_splits sum.splits)

text \<open>A strict scan that succeeds has met no key twice, at any depth, and agrees with the lenient one.\<close>

fun unique_keys :: "json \<Rightarrow> bool" where
  "unique_keys (JArr vs) = list_all unique_keys vs"
| "unique_keys (JObj ms) = (distinct (map fst ms) \<and> list_all (\<lambda>(k, raw, v). unique_keys v) ms)"
| "unique_keys _ = True"

lemma strict_unique:
  "parse_value True n s = Inr (v, r) \<Longrightarrow> unique_keys v"
  "parse_members True n seen s = Inr (ms, r) \<Longrightarrow>
     distinct (map fst ms) \<and> set (map fst ms) \<inter> set seen = {} \<and> list_all (\<lambda>(k, raw, v). unique_keys v) ms"
  "parse_elements True n s = Inr (vs, r) \<Longrightarrow> list_all unique_keys vs"
proof (induction n arbitrary: s v r seen ms vs)
  case 0
  {
    case 1
    then show ?case by simp
  next
    case 2
    then show ?case by simp
  next
    case 3
    then show ?case by simp
  }
next
  case (Suc n)
  {
    case 1
    have M: "distinct (map fst ms) \<and> list_all (\<lambda>(k, raw, v). unique_keys v) ms"
      if "parse_members True n [] r = Inr (ms, t)" for r ms t
      using Suc.IH(2) [OF that] by blast
    from 1 show ?case
      by (auto split: list.splits if_splits sum.splits option.splits dest: M Suc.IH(3))
  next
    case 2
    then show ?case
    proof (rule parse_membersE)
      fix r0 key r1 r2 v r3 d r4
      assume new: "\<not> (True \<and> key \<in> set seen)" and v: "parse_value True n r2 = Inr (v, r3)"
        and tl: "(d = CHR ''}'' \<and> ms = [(key, raw_text r2 r3, v)] \<and> r = r4) \<or>
          (d = CHR '','' \<and> (\<exists>ms'. parse_members True n (key # seen) r4 = Inr (ms', r) \<and>
             ms = (key, raw_text r2 r3, v) # ms'))"
      have "unique_keys v" using v by (rule Suc.IH(1))
      moreover have "distinct (map fst ms') \<and> set (map fst ms') \<inter> set (key # seen) = {} \<and>
          list_all (\<lambda>(k, raw, v). unique_keys v) ms'"
        if "parse_members True n (key # seen) r4 = Inr (ms', r)" for ms'
        using that by (rule Suc.IH(2))
      ultimately show ?thesis using tl new by fastforce
    qed
  next
    case 3
    then show ?case
    proof (rule parse_elementsE)
      fix v r0 d r1
      assume v: "parse_value True n s = Inr (v, r0)"
        and tl: "(d = CHR '']'' \<and> vs = [v] \<and> r = r1) \<or>
          (d = CHR '','' \<and> (\<exists>vs'. parse_elements True n r1 = Inr (vs', r) \<and> vs = v # vs'))"
      have "unique_keys v" using v by (rule Suc.IH(1))
      moreover have "list_all unique_keys vs'" if "parse_elements True n r1 = Inr (vs', r)" for vs'
        using that by (rule Suc.IH(3))
      ultimately show ?thesis using tl by auto
    qed
  }
qed

lemma strict_lenient:
  "parse_value True n s = Inr (v, r) \<Longrightarrow> parse_value False n s = Inr (v, r)"
  "parse_members True n seen s = Inr (ms, r) \<Longrightarrow> parse_members False n seen' s = Inr (ms, r)"
  "parse_elements True n s = Inr (vs, r) \<Longrightarrow> parse_elements False n s = Inr (vs, r)"
proof (induction n arbitrary: s v r seen seen' ms vs)
  case 0
  {
    case 1
    then show ?case by simp
  next
    case 2
    then show ?case by simp
  next
    case 3
    then show ?case by simp
  }
next
  case (Suc n)
  {
    case 1
    have M: "parse_members False n [] r = Inr x" if "parse_members True n [] r = Inr x" for r x
      using Suc.IH(2) [of "[]" r "fst x" "snd x" "[]"] that by simp
    have E: "parse_elements False n r = Inr x" if "parse_elements True n r = Inr x" for r x
      using Suc.IH(3) [of r "fst x" "snd x"] that by simp
    from 1 show ?case
      by (auto split: list.split_asm if_split_asm sum.split_asm option.split_asm dest: M E)
  next
    case 2
    then show ?case
    proof (rule parse_membersE)
      fix r0 key r1 r2 v r3 d r4
      assume h: "skip_ws s = quote_char # r0" "lex_string r0 = Some (key, r1)"
        "skip_ws r1 = CHR '':'' # r2" "parse_value True n r2 = Inr (v, r3)" "skip_ws r3 = d # r4"
        and tl: "(d = CHR ''}'' \<and> ms = [(key, raw_text r2 r3, v)] \<and> r = r4) \<or>
          (d = CHR '','' \<and> (\<exists>ms'. parse_members True n (key # seen) r4 = Inr (ms', r) \<and>
             ms = (key, raw_text r2 r3, v) # ms'))"
      have V: "parse_value False n r2 = Inr (v, r3)" using h(4) by (rule Suc.IH(1))
      have M: "parse_members False n (key # seen') r4 = Inr (ms', r)"
        if "parse_members True n (key # seen) r4 = Inr (ms', r)" for ms'
        using that by (rule Suc.IH(2))
      from tl show ?thesis
      proof
        assume "d = CHR ''}'' \<and> ms = [(key, raw_text r2 r3, v)] \<and> r = r4"
        then show ?thesis using h V by (simp add: Let_def raw_text_def)
      next
        assume "d = CHR '','' \<and> (\<exists>ms'. parse_members True n (key # seen) r4 = Inr (ms', r) \<and>
             ms = (key, raw_text r2 r3, v) # ms')"
        then obtain ms' where ms': "d = CHR '',''" "parse_members True n (key # seen) r4 = Inr (ms', r)"
          "ms = (key, raw_text r2 r3, v) # ms'" by blast
        show ?thesis using h V ms' M [OF ms'(2)] by (simp add: Let_def raw_text_def)
      qed
    qed
  next
    case 3
    then show ?case
    proof (rule parse_elementsE)
      fix v r0 d r1
      assume v: "parse_value True n s = Inr (v, r0)" "skip_ws r0 = d # r1"
        and tl: "(d = CHR '']'' \<and> vs = [v] \<and> r = r1) \<or>
          (d = CHR '','' \<and> (\<exists>vs'. parse_elements True n r1 = Inr (vs', r) \<and> vs = v # vs'))"
      have V: "parse_value False n s = Inr (v, r0)" using v(1) by (rule Suc.IH(1))
      have "parse_elements False n r1 = Inr (vs', r)" if "parse_elements True n r1 = Inr (vs', r)" for vs'
        using that by (rule Suc.IH(3))
      then show ?thesis using V v(2) tl by fastforce
    qed
  }
qed

section \<open>The encoder\<close>

definition hex_digit :: "int \<Rightarrow> char" where
  "hex_digit n = ''0123456789abcdef'' ! nat n"

definition u_escape :: "int \<Rightarrow> string" where
  "u_escape n =
     [backslash, CHR ''u'', hex_digit (n div 4096), hex_digit (n div 256 mod 16),
      hex_digit (n div 16 mod 16), hex_digit (n mod 16)]"

text \<open>\<^verbatim>\<open>json.Marshal\<close> of a string with valid UTF-8: control characters, the quote, the backslash,
  the three HTML characters, U+2028 and U+2029 are escaped.\<close>

fun quote_body :: "string \<Rightarrow> string" where
  "quote_body [] = []"
| "quote_body (c # s) =
     (if c = quote_char \<or> c = backslash then [backslash, c] @ quote_body s
      else if c = CHR 0x08 then [backslash, CHR ''b''] @ quote_body s
      else if c = CHR 0x0C then [backslash, CHR ''f''] @ quote_body s
      else if c = CHR 0x0A then [backslash, CHR ''n''] @ quote_body s
      else if c = CHR 0x0D then [backslash, CHR ''r''] @ quote_body s
      else if c = CHR 0x09 then [backslash, CHR ''t''] @ quote_body s
      else if byte_of c < 32 \<or> c \<in> {CHR ''<'', CHR ''>'', CHR ''&''} then u_escape (byte_of c) @ quote_body s
      else if c = CHR 0xE2 then
        (case s of
           b # d # r \<Rightarrow>
             if b = CHR 0x80 \<and> d = CHR 0xA8 then u_escape 8232 @ quote_body r
             else if b = CHR 0x80 \<and> d = CHR 0xA9 then u_escape 8233 @ quote_body r
             else c # quote_body s
         | _ \<Rightarrow> c # quote_body s)
      else c # quote_body s)"

definition json_quote :: "string \<Rightarrow> string" where
  "json_quote s = quote_char # quote_body s @ [quote_char]"

fun json_print :: "json \<Rightarrow> string"
  and print_elements :: "json list \<Rightarrow> string"
  and print_members :: "members \<Rightarrow> string" where
  "json_print JNull = ''null''"
| "json_print (JBool b) = (if b then ''true'' else ''false'')"
| "json_print (JNum l) = l"
| "json_print (JStr s) = json_quote s"
| "json_print (JArr vs) = CHR ''['' # print_elements vs"
| "json_print (JObj ms) = CHR ''{'' # print_members ms"
| "print_elements [] = '']''"
| "print_elements (v # vs) = json_print v @ (if vs = [] then '']'' else CHR '','' # print_elements vs)"
| "print_members [] = ''}''"
| "print_members ((k, raw, v) # ms) =
     json_quote k @ CHR '':'' # json_print v @ (if ms = [] then ''}'' else CHR '','' # print_members ms)"

text \<open>\<^verbatim>\<open>strconv.Itoa\<close>.\<close>

function show_uint :: "int \<Rightarrow> string" where
  "show_uint n = (if n < 10 then [digit_char n] else show_uint (n div 10) @ [digit_char n])"
  by auto
termination by (relation "measure nat") auto

declare show_uint.simps [simp del]

definition show_int :: "int \<Rightarrow> string" where
  "show_int i = (if i < 0 then CHR ''-'' # show_uint (- i) else show_uint i)"

section \<open>Round trip\<close>

lemma hex_val_hex_digit:
  assumes "0 \<le> d" and "d < 16"
  shows "hex_val (hex_digit d) = Some d"
proof -
  have "d \<in> {0, 1, 2, 3, 4, 5, 6, 7, 8, 9, 10, 11, 12, 13, 14, 15}"
    using assms by (simp only: insert_iff empty_iff) presburger
  then show ?thesis
    by (auto simp: hex_digit_def hex_val_def is_digit_def byte_in_def)
qed

lemma lex_u_escape:
  assumes "0 \<le> n" and "n < 65536"
  shows "lex_items (u_escape n @ r) = map_option (\<lambda>(xs, t). (SUnit n # xs, t)) (lex_items r)"
proof -
  have "0 \<le> n div 4096" "n div 4096 < 16"
    using assms by (simp_all add: div_less_iff_less_mult pos_imp_zdiv_nonneg_iff)
  then have "hex4 (hex_digit (n div 4096)) (hex_digit (n div 256 mod 16)) (hex_digit (n div 16 mod 16))
          (hex_digit (n mod 16)) = Some (((n div 4096 * 16 + n div 256 mod 16) * 16 + n div 16 mod 16) * 16 + n mod 16)"
    using assms by (simp add: hex4_def hex_val_hex_digit)
  also have "((n div 4096 * 16 + n div 256 mod 16) * 16 + n div 16 mod 16) * 16 + n mod 16 = n"
  proof -
    have "n div 4096 = n div 256 div 16" "n div 256 = n div 16 div 16"
      by (simp_all add: zdiv_zmult2_eq [symmetric])
    moreover have "n div 256 div 16 * 16 + n div 256 mod 16 = n div 256" by (rule div_mult_mod_eq)
    moreover have "n div 16 div 16 * 16 + n div 16 mod 16 = n div 16" by (rule div_mult_mod_eq)
    moreover have "n div 16 * 16 + n mod 16 = n" by (rule div_mult_mod_eq)
    ultimately show ?thesis by simp
  qed
  finally show ?thesis by (simp add: u_escape_def)
qed

lemma lex_plain:
  "c \<noteq> quote_char \<Longrightarrow> c \<noteq> backslash \<Longrightarrow> \<not> byte_of c < 32 \<Longrightarrow>
   lex_items (c # r) = map_option (\<lambda>(xs, t). (SByte c # xs, t)) (lex_items r)"
  by simp

lemma lex_escape:
  "simple_escape e = Some b \<Longrightarrow> e \<noteq> CHR ''u'' \<Longrightarrow>
   lex_items (backslash # e # r) = map_option (\<lambda>(xs, t). (SByte b # xs, t)) (lex_items r)"
  by simp

lemma unquote_unit: "\<not> surrogate n \<Longrightarrow> unquote (SUnit n # xs) = encode_rune n @ unquote xs"
  by (cases xs rule: unquote.cases) auto

lemma encode_ascii: "byte_of c < 128 \<Longrightarrow> encode_rune (byte_of c) = [c]"
  by (simp add: encode_rune_def)

lemma encode_separators:
  "encode_rune 8232 = [CHR 0xE2, CHR 0x80, CHR 0xA8]" "encode_rune 8233 = [CHR 0xE2, CHR 0x80, CHR 0xA9]"
  by (simp_all add: encode_rune_def char_of_def)

definition quote_ok :: "string \<Rightarrow> string \<Rightarrow> bool" where
  "quote_ok r s \<longleftrightarrow> (\<exists>xs. lex_items (quote_body s @ quote_char # r) = Some (xs, r) \<and> unquote xs = s)"

lemma quote_ok_escape:
  assumes "quote_ok r s" and "quote_body (c # s) = backslash # e # quote_body s"
    and "simple_escape e = Some c" and "e \<noteq> CHR ''u''"
  shows "quote_ok r (c # s)"
proof -
  obtain xs where "lex_items (quote_body s @ quote_char # r) = Some (xs, r)" "unquote xs = s"
    using assms(1) by (auto simp: quote_ok_def)
  then show ?thesis
    using lex_escape [OF assms(3,4), of "quote_body s @ quote_char # r"] assms(2)
    by (simp add: quote_ok_def del: lex_items.simps)
qed

lemma quote_ok_plain:
  assumes "quote_ok r s" and "quote_body (c # s) = c # quote_body s"
    and "c \<noteq> quote_char" and "c \<noteq> backslash" and "\<not> byte_of c < 32"
  shows "quote_ok r (c # s)"
proof -
  obtain xs where "lex_items (quote_body s @ quote_char # r) = Some (xs, r)" "unquote xs = s"
    using assms(1) by (auto simp: quote_ok_def)
  then show ?thesis
    using lex_plain [OF assms(3-5), of "quote_body s @ quote_char # r"] assms(2)
    by (simp add: quote_ok_def del: lex_items.simps)
qed

lemma quote_ok_unit:
  assumes "quote_ok r s" and "quote_body (u @ s) = u_escape n @ quote_body s"
    and "0 \<le> n" "n < 65536" and "\<not> surrogate n" and "encode_rune n = u"
  shows "quote_ok r (u @ s)"
proof -
  obtain xs where "lex_items (quote_body s @ quote_char # r) = Some (xs, r)" "unquote xs = s"
    using assms(1) by (auto simp: quote_ok_def)
  then show ?thesis
    using lex_u_escape [OF assms(3,4), of "quote_body s @ quote_char # r"] assms(2) unquote_unit [OF assms(5), of xs]
    by (simp add: quote_ok_def assms(6) del: lex_items.simps unquote.simps)
qed

lemma lex_quote_body: "quote_ok r s"
proof (induction s rule: length_induct)
  case (1 s)
  show ?case
  proof (cases s)
    case Nil
    then show ?thesis by (simp add: quote_ok_def)
  next
    case (Cons c t)
    have IH: "quote_ok r t" using 1 Cons by simp
    show ?thesis
    proof (cases "c \<in> {quote_char, backslash, CHR 0x08, CHR 0x0C, CHR 0x0A, CHR 0x0D, CHR 0x09}")
      case True
      then show ?thesis
        unfolding Cons by (auto intro!: quote_ok_escape [OF IH] simp: simple_escape_def)
    next
      case ne: False
      show ?thesis
      proof (cases "byte_of c < 32 \<or> c \<in> {CHR ''<'', CHR ''>'', CHR ''&''}")
        case True
        have lt: "byte_of c < 128" using True by (elim disjE insertE) simp_all
        have "quote_ok r ([c] @ t)"
        proof (rule quote_ok_unit [OF IH])
          show "quote_body ([c] @ t) = u_escape (byte_of c) @ quote_body t" using True ne by simp
          show "0 \<le> byte_of c" by (rule byte_of_range)
          show "byte_of c < 65536" using lt by simp
          show "\<not> surrogate (byte_of c)" using lt by (simp add: surrogate_def)
          show "encode_rune (byte_of c) = [c]" using lt by (rule encode_ascii)
        qed
        then show ?thesis by (simp add: Cons)
      next
        case nc: False
        show ?thesis
        proof (cases "\<exists>d u. c = CHR 0xE2 \<and> t = CHR 0x80 # d # u \<and> (d = CHR 0xA8 \<or> d = CHR 0xA9)")
          case True
          then obtain d u where sep: "c = CHR 0xE2" "t = CHR 0x80 # d # u" "d = CHR 0xA8 \<or> d = CHR 0xA9" by blast
          have IH': "quote_ok r u" using 1 Cons sep by simp
          have "quote_ok r ([c, CHR 0x80, d] @ u)"
            using sep(3)
          proof
            assume "d = CHR 0xA8"
            then show ?thesis
              using sep(1) by (intro quote_ok_unit [OF IH', of _ 8232]) (simp_all add: surrogate_def encode_separators)
          next
            assume "d = CHR 0xA9"
            then show ?thesis
              using sep(1) by (intro quote_ok_unit [OF IH', of _ 8233]) (simp_all add: surrogate_def encode_separators)
          qed
          then show ?thesis by (simp add: Cons sep)
        next
          case False
          have e: "quote_body (c # t) = c # quote_body t"
          proof (cases "c = CHR 0xE2")
            case E2: True
            show ?thesis
            proof (cases t)
              case Nil
              then show ?thesis by (simp add: E2)
            next
              case t: (Cons b t')
              show ?thesis
              proof (cases t')
                case Nil
                then show ?thesis by (simp add: E2 t)
              next
                case (Cons d u)
                then have "\<not> (b = CHR 0x80 \<and> d = CHR 0xA8)" "\<not> (b = CHR 0x80 \<and> d = CHR 0xA9)"
                  using False E2 t by blast+
                then show ?thesis by (simp add: E2 t Cons) blast
              qed
            qed
          next
            case other: False
            then show ?thesis using ne nc by simp
          qed
          show ?thesis
            unfolding Cons using ne nc by (intro quote_ok_plain [OF IH e]) simp_all
        qed
      qed
    qed
  qed
qed

lemma lex_json_quote: "lex_string (quote_body s @ quote_char # r) = Some (s, r)"
  using lex_quote_body [of r s] by (auto simp: quote_ok_def lex_string_def)

text \<open>Integer literals.\<close>

definition int_literal :: "string \<Rightarrow> bool" where
  "int_literal l \<longleftrightarrow>
     (let ds = (case l of c # r \<Rightarrow> if c = CHR ''-'' then r else l | [] \<Rightarrow> []) in
      ds \<noteq> [] \<and> list_all is_digit ds \<and> (ds = ''0'' \<or> hd ds \<noteq> CHR ''0''))"

text \<open>The decimal text of an integer is a literal, and reads as that integer.\<close>

lemma digit_char_digit: "is_digit (digit_char n) \<and> digit_val (digit_char n) = n mod 10 \<and> (digit_char n = CHR ''0'' \<longleftrightarrow> n mod 10 = 0)"
proof -
  have all: "list_all (\<lambda>k. is_digit (digit_char k) \<and> digit_val (digit_char k) = k \<and> (digit_char k = CHR ''0'' \<longleftrightarrow> k = 0)) [0..9]"
    by code_simp
  have "n mod 10 \<in> set [0..9]" by simp
  from all [unfolded list_all_iff, rule_format, OF this] show ?thesis by (simp add: digit_char_def)
qed

lemma digits_val_snoc: "digits_val (ds @ [d]) = digits_val ds * 10 + digit_val d"
  by (simp add: digits_val_def)

lemma show_uint_digits:
  "0 \<le> n \<Longrightarrow> show_uint n \<noteq> [] \<and> list_all is_digit (show_uint n) \<and> digits_val (show_uint n) = n \<and>
     (n = 0 \<and> show_uint n = ''0'' \<or> n \<noteq> 0 \<and> hd (show_uint n) \<noteq> CHR ''0'')"
proof (induction n rule: show_uint.induct)
  case (1 n)
  show ?case
  proof (cases "n < 10")
    case True
    then have u: "show_uint n = [digit_char n]" "n mod 10 = n" using 1(2) by (simp_all add: show_uint.simps)
    show ?thesis
      using digit_char_digit [of n] u by (auto simp: digits_val_def)
  next
    case False
    then have u: "show_uint n = show_uint (n div 10) @ [digit_char n]" by (simp add: show_uint.simps [of n])
    have "0 < n div 10" using False by simp
    then show ?thesis
      using 1(1) [OF False] digit_char_digit [of n] unfolding u digits_val_snoc by (auto simp: hd_append)
  qed
qed

lemma digit_not_minus: "is_digit c \<Longrightarrow> c \<noteq> CHR ''-''"
  by (auto simp: is_digit_def byte_in_def)

lemma show_int_literal: "int_literal (show_int n)"
proof (cases "n < 0")
  case True
  then show ?thesis using show_uint_digits [of "- n"] by (auto simp: show_int_def int_literal_def Let_def)
next
  case False
  then obtain c r where u: "show_uint n = c # r" "is_digit c"
    using show_uint_digits [of n] by (cases "show_uint n") auto
  then show ?thesis
    using False show_uint_digits [of n] digit_not_minus [OF u(2)]
    by (auto simp: show_int_def int_literal_def Let_def)
qed

lemma parse_int64_show: "- (2 ^ 63) \<le> n \<Longrightarrow> n < 2 ^ 63 \<Longrightarrow> parse_int64 (show_int n) = Some n"
proof (cases "n < 0")
  case True
  moreover assume "- (2 ^ 63) \<le> n"
  ultimately show ?thesis
    using show_uint_digits [of "- n"] by (simp add: show_int_def parse_int64_def)
next
  case False
  moreover assume "n < 2 ^ 63"
  moreover obtain c r where u: "show_uint n = c # r" "is_digit c"
    using False show_uint_digits [of n] by (cases "show_uint n") auto
  ultimately show ?thesis
    using show_uint_digits [of n] digit_not_minus [OF u(2)]
    by (simp add: show_int_def parse_int64_def)
qed

definition stops :: "string \<Rightarrow> bool" where
  "stops r \<longleftrightarrow> (case r of [] \<Rightarrow> True | c # _ \<Rightarrow> c = CHR '','' \<or> c = CHR '']'' \<or> c = CHR ''}'')"

lemma stops_lex:
  assumes "stops r"
  shows "lex_fraction r = Some ([], r)" "lex_exponent r = Some ([], r)"
    "takeWhile is_digit r = []" "dropWhile is_digit r = r"
  using assms
  by (cases r; auto simp: stops_def lex_fraction_def lex_exponent_def is_digit_def byte_in_def)+

lemma lex_unsigned_literal:
  assumes "ds \<noteq> []" "list_all is_digit ds" "ds = ''0'' \<or> hd ds \<noteq> CHR ''0''" "stops r"
  shows "lex_unsigned (ds @ r) = Some (ds, r)"
proof -
  have "lex_int_part (ds @ r) = Some (ds, r)"
  proof (cases "ds = ''0''")
    case True
    then show ?thesis by (simp add: lex_int_part_def)
  next
    case False
    then obtain c t where ds: "ds = c # t" "c \<noteq> CHR ''0''" using assms(1,3) by (cases ds) auto
    have "takeWhile is_digit (ds @ r) = ds" "dropWhile is_digit (ds @ r) = r"
      using assms(2,4) stops_lex(3,4) by (auto simp: list_all_iff takeWhile_append2 dropWhile_append2)
    then show ?thesis using ds by (simp add: lex_int_part_def lex_digits_def)
  qed
  then show ?thesis using stops_lex [OF assms(4)] by (simp add: lex_unsigned_def)
qed

lemma literal_cases:
  assumes "int_literal l"
  obtains ds where "l = CHR ''-'' # ds" "ds \<noteq> []" "list_all is_digit ds" "ds = ''0'' \<or> hd ds \<noteq> CHR ''0''"
    | "l \<noteq> []" "hd l \<noteq> CHR ''-''" "list_all is_digit l" "l = ''0'' \<or> hd l \<noteq> CHR ''0''"
proof (cases l)
  case Nil
  then show ?thesis using assms by (simp add: int_literal_def)
next
  case (Cons c t)
  show ?thesis
  proof (cases "c = CHR ''-''")
    case True
    show ?thesis by (rule that(1) [of t]) (use assms Cons True in \<open>simp_all add: int_literal_def\<close>)
  next
    case False
    show ?thesis by (rule that(2)) (use assms Cons False in \<open>simp_all add: int_literal_def\<close>)
  qed
qed

lemma lex_number_literal:
  assumes "int_literal l" and "stops r"
  shows "lex_number (l @ r) = Some (l, r)"
  using assms(1)
proof (cases rule: literal_cases)
  case (1 ds)
  then show ?thesis using lex_unsigned_literal [of ds r] assms(2) by (simp add: lex_number_def)
next
  case 2
  then obtain c t where "l = c # t" by (cases l) auto
  then show ?thesis using 2 lex_unsigned_literal [of l r] assms(2) by (simp add: lex_number_def)
qed

lemma literal_head:
  assumes "int_literal l"
  obtains c t where "l = c # t" "c = CHR ''-'' \<or> is_digit c"
  using assms
proof (cases rule: literal_cases)
  case (1 ds)
  then show ?thesis using that by blast
next
  case 2
  then show ?thesis using that by (cases l) auto
qed

fun json_wf :: "json \<Rightarrow> bool" where
  "json_wf (JNum l) = int_literal l"
| "json_wf (JArr vs) = list_all json_wf vs"
| "json_wf (JObj ms) = (distinct (map fst ms) \<and> list_all (\<lambda>(k, raw, v). json_wf v) ms)"
| "json_wf _ = True"

text \<open>The value with the printed text of every member in place.\<close>

fun annotate :: "json \<Rightarrow> json" where
  "annotate (JArr vs) = JArr (map annotate vs)"
| "annotate (JObj ms) = JObj (map (\<lambda>(k, raw, v). (k, json_print v, annotate v)) ms)"
| "annotate v = v"

lemma digit_facts:
  assumes "c = CHR ''-'' \<or> is_digit c"
  shows "\<not> json_space c" "c \<noteq> CHR ''{''" "c \<noteq> CHR ''[''" "c \<noteq> quote_char" "c \<noteq> CHR ''t''"
    "c \<noteq> CHR ''f''" "c \<noteq> CHR ''n''" "c \<noteq> CHR '']''"
  using assms by (auto simp: is_digit_def byte_in_def json_space_def)

lemma print_head:
  assumes "json_wf v"
  shows "\<exists>c t. json_print v = c # t \<and> \<not> json_space c \<and> c \<noteq> CHR '']''"
proof (cases v)
  case (JNum l)
  then have "int_literal l" using assms by simp
  then obtain c t where "l = c # t" "c = CHR ''-'' \<or> is_digit c" by (rule literal_head)
  then show ?thesis using JNum digit_facts by simp
next
  case (JBool b)
  then show ?thesis by (cases b) (simp_all add: json_space_def)
qed (simp_all add: json_space_def json_quote_def)

lemma skip_ws_print: "json_wf v \<Longrightarrow> skip_ws (json_print v @ r) = json_print v @ r"
  using print_head [of v] by (auto simp: skip_ws_def)

lemma skip_ws_nonspace [simp]:
  "\<not> json_space c \<Longrightarrow> skip_ws (c # r) = c # r"
  by (simp add: skip_ws_def)

lemma not_space [simp]:
  "\<not> json_space CHR ''{''" "\<not> json_space CHR ''}''" "\<not> json_space CHR ''[''" "\<not> json_space CHR '']''"
  "\<not> json_space CHR '':''" "\<not> json_space CHR '',''" "\<not> json_space quote_char"
  "\<not> json_space CHR ''t''" "\<not> json_space CHR ''f''" "\<not> json_space CHR ''n''"
  by (simp_all add: json_space_def)

lemma print_members_head: "ms \<noteq> [] \<Longrightarrow> \<exists>t. print_members ms = quote_char # t"
  by (cases ms rule: print_members.cases) (auto simp: json_quote_def)

lemma skip_ws_members: "ms \<noteq> [] \<Longrightarrow> skip_ws (print_members ms @ r) = print_members ms @ r"
  using print_members_head [of ms] by auto

lemma print_elements_head:
  assumes "vs \<noteq> []" and "list_all json_wf vs"
  shows "\<exists>c t. print_elements vs = c # t \<and> \<not> json_space c \<and> c \<noteq> CHR '']''"
  using assms print_head [of "hd vs"] by (cases vs) auto

text \<open>Reading back what was printed: enough fuel is twice the printed length.\<close>

lemma parse_print:
  "json_wf v \<Longrightarrow> stops r \<Longrightarrow> 2 * length (json_print v) < n \<Longrightarrow>
     parse_value strict n (json_print v @ r) = Inr (annotate v, r)"
  "list_all json_wf vs \<Longrightarrow> vs \<noteq> [] \<Longrightarrow> Suc (2 * length (print_elements vs)) < n \<Longrightarrow>
     parse_elements strict n (print_elements vs @ r) = Inr (map annotate vs, r)"
  "list_all (\<lambda>(k, raw, v). json_wf v) ms \<Longrightarrow> distinct (map fst ms) \<Longrightarrow> set (map fst ms) \<inter> set seen = {} \<Longrightarrow>
     ms \<noteq> [] \<Longrightarrow> 2 * length (print_members ms) < n \<Longrightarrow>
     parse_members strict n seen (print_members ms @ r) =
       Inr (map (\<lambda>(k, raw, v). (k, json_print v, annotate v)) ms, r)"
proof (induction v and vs and ms arbitrary: n r and n r and n r seen
    rule: json_print_print_elements_print_members.induct)
  case (3 l)
  obtain m where n: "n = Suc m" using 3 by (cases n) auto
  have lit: "int_literal l" using 3 by simp
  obtain c t where l: "l = c # t" "c = CHR ''-'' \<or> is_digit c" using lit by (rule literal_head)
  have "lex_number (c # t @ r) = Some (l, r)" using lex_number_literal [OF lit 3(2)] l by simp
  then show ?case using digit_facts [OF l(2)] l(1) by (simp add: n)
next
  case (4 s)
  obtain m where n: "n = Suc m" using 4 by (cases n) auto
  show ?case by (simp add: n json_quote_def lex_json_quote)
next
  case (5 vs)
  obtain m where n: "n = Suc m" using 5 by (cases n) auto
  show ?case
  proof (cases "vs = []")
    case True
    then show ?thesis by (simp add: n)
  next
    case False
    obtain c t where h: "print_elements vs = c # t" "\<not> json_space c" "c \<noteq> CHR '']''"
      using print_elements_head [OF False] 5(2) by auto
    have "parse_elements strict m (print_elements vs @ r) = Inr (map annotate vs, r)"
      using 5(2,4) n False by (intro 5(1)) auto
    then show ?thesis using h by (simp add: n)
  qed
next
  case (6 ms)
  obtain m where n: "n = Suc m" using 6 by (cases n) auto
  show ?case
  proof (cases "ms = []")
    case True
    then show ?thesis by (simp add: n)
  next
    case False
    obtain t where h: "print_members ms = quote_char # t" using print_members_head [OF False] by auto
    have "parse_members strict m [] (print_members ms @ r) =
        Inr (map (\<lambda>(k, raw, v). (k, json_print v, annotate v)) ms, r)"
      using 6(2,4) n False by (intro 6(1)) auto
    then show ?thesis using h by (simp add: n)
  qed
next
  case (8 v vs)
  obtain m where n: "n = Suc m" using 8 by (cases n) auto
  let ?rest = "(if vs = [] then '']'' else CHR '','' # print_elements vs) @ r"
  have v: "parse_value strict m (json_print v @ ?rest) = Inr (annotate v, ?rest)"
    using 8(3,5) n by (intro 8(1)) (auto simp: stops_def)
  show ?case
  proof (cases "vs = []")
    case True
    then show ?thesis using v by (simp add: n)
  next
    case False
    have "parse_elements strict m (print_elements vs @ r) = Inr (map annotate vs, r)"
      using 8(3,5) n False by (intro 8(2)) auto
    then show ?thesis using v False by (simp add: n)
  qed
next
  case (10 k raw v ms)
  obtain m where n: "n = Suc m" using 10 by (cases n) auto
  let ?rest = "(if ms = [] then ''}'' else CHR '','' # print_members ms) @ r"
  have wf: "json_wf v" using 10(3) by simp
  have v: "parse_value strict m (json_print v @ ?rest) = Inr (annotate v, ?rest)"
    using 10(3,7) n by (intro 10(1)) (auto simp: stops_def)
  have raw: "take (length (skip_ws (json_print v @ ?rest)) - length ?rest) (skip_ws (json_print v @ ?rest)) = json_print v"
    by (simp add: skip_ws_print [OF wf])
  have new: "k \<notin> set seen" using 10(5) by auto
  have key: "lex_string (quote_body k @ quote_char # CHR '':'' # json_print v @ ?rest) =
      Some (k, CHR '':'' # json_print v @ ?rest)"
    by (rule lex_json_quote)
  have whole: "print_members ((k, raw, v) # ms) @ r =
      quote_char # quote_body k @ quote_char # CHR '':'' # json_print v @ ?rest"
    by (simp add: json_quote_def)
  show ?case
  proof (cases "ms = []")
    case True
    then show ?thesis
      unfolding whole n using v raw key new by (simp add: Let_def del: print_members.simps)
  next
    case False
    have "parse_members strict m (k # seen) (print_members ms @ r) =
        Inr (map (\<lambda>(k, raw, v). (k, json_print v, annotate v)) ms, r)"
      using 10(3,4,5,7) n False by (intro 10(2)) auto
    then show ?thesis
      unfolding whole n using v raw key new False by (simp add: Let_def del: print_members.simps)
  qed
next
  case 1
  then show ?case by (cases n) auto
next
  case (2 b)
  then show ?case by (cases n; cases b) auto
qed simp_all

lemma parse_json_print:
  assumes "json_wf v" and "json_depth (annotate v) \<le> 10000"
  shows "parse_json strict (json_print v) = Inr (annotate v)"
  using parse_print(1) [OF assms(1), of "[]" "Suc (2 * length (json_print v))" strict] assms(2)
  by (simp add: parse_json_def stops_def skip_ws_def)

text \<open>Users of the decoder reason with the lemmas above, not by unfolding a scan.\<close>

declare parse_value.simps [simp del] parse_members.simps [simp del] parse_elements.simps [simp del]
declare lex_items.simps [simp del] quote_body.simps [simp del]

end
