(* ===== verification/Domain.thy ===== *)
theory Domain
  imports Database Json
begin

text \<open>
  The rules of the package \<^verbatim>\<open>domain\<close>: delivery modes, job transitions, read access to events,
  function names, the bounds on handler replies, and realtime channels with their grants.
\<close>

section \<open>Applications, jobs and events\<close>

definition parse_delivery_mode :: "string \<Rightarrow> delivery_mode option" where
  "parse_delivery_mode s =
     (if s = ''queue'' then Some DeliveryQueue
      else if s = ''websocket'' then Some DeliveryWebSocket
      else if s = ''callback'' then Some DeliveryCallback
      else if s = ''all'' then Some DeliveryAll
      else None)"

definition DeliveryMode_Valid :: "string \<Rightarrow> bool" where
  "DeliveryMode_Valid s \<longleftrightarrow> parse_delivery_mode s \<noteq> None"

definition CanTransition :: "job_status \<Rightarrow> job_status \<Rightarrow> bool" where
  "CanTransition status nxt =
     (case status of
        JobPending \<Rightarrow> nxt = JobLeased \<or> nxt = JobAcked \<or> nxt = JobDeadLetter
      | JobLeased \<Rightarrow> nxt = JobPending \<or> nxt = JobDelivered \<or> nxt = JobAcked \<or> nxt = JobDeadLetter
      | JobDelivered \<Rightarrow> nxt = JobAcked \<or> nxt = JobDeadLetter
      | JobAcked \<Rightarrow> nxt = JobAcked
      | JobDeadLetter \<Rightarrow> nxt = JobPending \<or> nxt = JobDeadLetter)"

definition CanRead :: "string \<Rightarrow> string list \<Rightarrow> string \<Rightarrow> bool" where
  "CanRead sourceAppID targetAppIDs actor \<longleftrightarrow> actor = sourceAppID \<or> actor \<in> set targetAppIDs"

section \<open>Functions\<close>

definition word_char :: "char \<Rightarrow> bool" where
  "word_char c \<longleftrightarrow> is_upper c \<or> is_lower c \<or> c = CHR ''_''"

text \<open>\<^verbatim>\<open>^[A-Za-z_][A-Za-z0-9_.-]{0,63}$\<close>\<close>

definition ValidFunctionName :: "string \<Rightarrow> bool" where
  "ValidFunctionName name =
     (case name of
        [] \<Rightarrow> False
      | c # r \<Rightarrow>
          word_char c \<and> length r \<le> 63 \<and>
          list_all (\<lambda>c. word_char c \<or> is_digit c \<or> c = CHR ''.'' \<or> c = CHR ''-'') r)"

definition JSONObject :: "string \<Rightarrow> bool" where
  "JSONObject raw =
     (let raw = go_trim_space raw in
      case raw of [] \<Rightarrow> False | c # _ \<Rightarrow> c = CHR ''{'' \<and> utf8_valid raw \<and> json_valid raw)"

text \<open>The two fields of a handler error, each once, in any order, both strings and not null.\<close>

fun rpc_error_fields :: "members \<Rightarrow> (string \<times> string) list \<Rightarrow> (string \<times> string) list option" where
  "rpc_error_fields [] acc = Some acc"
| "rpc_error_fields ((name, raw, v) # ms) acc =
     (if name \<noteq> ''code'' \<and> name \<noteq> ''message'' then None
      else if map_of acc name \<noteq> None then None
      else case v of JStr s \<Rightarrow> rpc_error_fields ms ((name, s) # acc) | _ \<Rightarrow> None)"

definition rpc_error_json :: "string \<Rightarrow> string \<Rightarrow> json" where
  "rpc_error_json code msg = JObj [(''code'', [], JStr code), (''message'', [], JStr msg)]"

definition CanonicalRPCError :: "string \<Rightarrow> string option" where
  "CanonicalRPCError raw =
     (if \<not> JSONObject raw then None
      else case parse_value False (Suc (2 * length raw)) raw of
        Inr (JObj ms, _) \<Rightarrow>
          (case rpc_error_fields ms [] of
             None \<Rightarrow> None
           | Some acc \<Rightarrow>
               (case (map_of acc ''code'', map_of acc ''message'') of
                  (Some code, Some msg) \<Rightarrow>
                    if ValidFunctionName code \<and> msg \<noteq> [] \<and> length msg \<le> 1024
                    then Some (json_print (rpc_error_json code msg)) else None
                | _ \<Rightarrow> None))
      | _ \<Rightarrow> None)"

text \<open>The text of a \<^verbatim>\<open>json.RawMessage\<close> in the output of \<^verbatim>\<open>json.Marshal\<close>: blanks outside strings are
  dropped, and the HTML characters, U+2028 and U+2029 are escaped.  The flags say whether the scan is
  inside a string and right after a backslash.\<close>

fun compact :: "bool \<Rightarrow> bool \<Rightarrow> string \<Rightarrow> string" where
  "compact inStr esc [] = []"
| "compact inStr esc (c # s) =
     (if \<not> inStr \<and> json_space c then compact inStr False s
      else
        let inStr' = (if esc then inStr else if c = quote_char then \<not> inStr else inStr);
            esc' = (inStr \<and> \<not> esc \<and> c = backslash) in
        if c \<in> {CHR ''<'', CHR ''>'', CHR ''&''} then u_escape (byte_of c) @ compact inStr' esc' s
        else if c = CHR 0xE2 then
          (case s of
             b # d # r \<Rightarrow>
               if b = CHR 0x80 \<and> d = CHR 0xA8 then u_escape 8232 @ compact inStr' esc' r
               else if b = CHR 0x80 \<and> d = CHR 0xA9 then u_escape 8233 @ compact inStr' esc' r
               else c # compact inStr' esc' s
           | _ \<Rightarrow> c # compact inStr' esc' s)
        else c # compact inStr' esc' s)"

definition FunctionFrameLimit :: int where "FunctionFrameLimit = 64 * 1024"

text \<open>The encoding of the reply frame, with \<^verbatim>\<open>omitempty\<close> on the two raw fields.\<close>

definition rpc_result_wire :: "rpc_result \<Rightarrow> string" where
  "rpc_result_wire r =
     CHR ''{'' # json_quote ''type'' @ CHR '':'' # json_quote ''rpc.result'' @
     CHR '','' # json_quote ''invocation_id'' @ CHR '':'' # json_quote (rr_invocation_id r) @
     CHR '','' # json_quote ''ok'' @ CHR '':'' # json_print (JBool (rr_ok r)) @
     (if rr_result r = [] then []
      else CHR '','' # json_quote ''result'' @ CHR '':'' # compact False False (rr_result r)) @
     (if rr_error r = [] then []
      else CHR '','' # json_quote ''error'' @ CHR '':'' # compact False False (rr_error r)) @ ''}''"

definition ValidRPCResult :: "rpc_result \<Rightarrow> bool" where
  "ValidRPCResult r \<longleftrightarrow>
     rr_invocation_id r \<noteq> [] \<and> length (rr_invocation_id r) \<le> 128 \<and>
     (if rr_ok r then rr_error r = [] \<and> utf8_valid (rr_result r) \<and> json_valid (rr_result r)
      else rr_result r = [] \<and> JSONObject (rr_error r) \<and> CanonicalRPCError (rr_error r) \<noteq> None) \<and>
     int (length (rpc_result_wire r)) \<le> FunctionFrameLimit"

definition Terminal :: "invocation_state \<Rightarrow> bool" where
  "Terminal st \<longleftrightarrow>
     st \<in> {InvocationSuccess, InvocationHandlerError, InvocationUnavailable, InvocationTimeout}"

section \<open>Realtime channels\<close>

text \<open>\<^verbatim>\<open>^[a-z0-9][a-z0-9_.:-]{0,95}$\<close>\<close>

definition channel_first :: "char \<Rightarrow> bool" where
  "channel_first c \<longleftrightarrow> is_lower c \<or> is_digit c"

definition channel_rest :: "char \<Rightarrow> bool" where
  "channel_rest c \<longleftrightarrow> is_lower c \<or> is_digit c \<or> c \<in> {CHR ''_'', CHR ''.'', CHR '':'', CHR ''-''}"

definition channel_pattern :: "string \<Rightarrow> bool" where
  "channel_pattern s =
     (case s of [] \<Rightarrow> False | c # r \<Rightarrow> channel_first c \<and> length r \<le> 95 \<and> list_all channel_rest r)"

definition ValidRealtimeChannel :: "string \<Rightarrow> bool" where
  "ValidRealtimeChannel channel \<longleftrightarrow> channel = go_trim_space channel \<and> channel_pattern channel"

definition PrivateRealtimeChannel :: "string \<Rightarrow> bool" where
  "PrivateRealtimeChannel channel \<longleftrightarrow>
     ValidRealtimeChannel channel \<and>
     (case strip_prefix ''private:'' channel of None \<Rightarrow> False | Some r \<Rightarrow> length r > 0)"

text \<open>\<^verbatim>\<open>strings.Split\<close> with a single-byte separator.\<close>

fun split_on :: "char \<Rightarrow> string \<Rightarrow> string list" where
  "split_on sep [] = [[]]"
| "split_on sep (c # s) =
     (if c = sep then [] # split_on sep s
      else case split_on sep s of [] \<Rightarrow> [[c]] | h # t \<Rightarrow> (c # h) # t)"

lemma split_on_free: "sep \<notin> set s \<Longrightarrow> split_on sep s = [s]"
  by (induction s) auto

lemma split_on_append: "sep \<notin> set s \<Longrightarrow> split_on sep (s @ sep # r) = s # split_on sep r"
  by (induction s) auto

definition completeRealtimeNamespace :: "string \<Rightarrow> bool" where
  "completeRealtimeNamespace v \<longleftrightarrow> [] \<notin> set (split_on CHR '':'' v)"

definition cut_suffix :: "string \<Rightarrow> string \<Rightarrow> string option" where
  "cut_suffix suffix s = map_option rev (strip_prefix (rev suffix) (rev s))"

definition ValidRealtimeChannelGrant :: "string \<Rightarrow> bool" where
  "ValidRealtimeChannelGrant grant =
     (if ValidRealtimeChannel grant \<and> completeRealtimeNamespace grant then True
      else case cut_suffix '':*'' grant of
        None \<Rightarrow> False
      | Some prefix \<Rightarrow>
          length (filter (\<lambda>c. c = CHR ''*'') grant) = 1 \<and>
          prefix \<noteq> [] \<and> ValidRealtimeChannel prefix \<and> completeRealtimeNamespace prefix)"

definition RealtimeChannelGrantMatches :: "string \<Rightarrow> string \<Rightarrow> bool" where
  "RealtimeChannelGrantMatches grant channel =
     (if \<not> ValidRealtimeChannel channel \<or> \<not> ValidRealtimeChannelGrant grant then False
      else if grant = channel then True
      else case cut_suffix '':*'' grant of
        None \<Rightarrow> False
      | Some prefix \<Rightarrow>
          (case strip_prefix (prefix @ '':'') channel of
             None \<Rightarrow> False
           | Some remainder \<Rightarrow> remainder \<noteq> [] \<and> CHR '':'' \<notin> set remainder))"

lemma cut_suffix_Some: "cut_suffix suf s = Some p \<longleftrightarrow> s = p @ suf"
  by (auto simp: cut_suffix_def strip_prefix_Some rev_eq_append_conv intro: exI [of _ "rev p"])

lemma channel_no_star: "ValidRealtimeChannel s \<Longrightarrow> CHR ''*'' \<notin> set s"
  by (cases s)
    (auto simp: ValidRealtimeChannel_def channel_pattern_def channel_first_def channel_rest_def list_all_iff
      is_lower_def is_digit_def byte_in_def)




end
