(* ===== verification/StreamProtocol.thy ===== *)
theory StreamProtocol
  imports Domain
begin

text \<open>
  The wire contract of the durable stream, \<^verbatim>\<open>streamprotocol/protocol.go\<close>: decoding of client
  frames and validation of server frames.  An object is the list of its members in the order of the
  text, each with its raw text and its value; frames with a repeated key never get that far.
\<close>

section \<open>Errors\<close>

record protocol_error =
  pe_code :: string
  pe_message :: string
  pe_retryable :: bool

definition protocolError :: "string \<Rightarrow> string \<Rightarrow> bool \<Rightarrow> protocol_error" where
  "protocolError code msg retryable = \<lparr>pe_code = code, pe_message = msg, pe_retryable = retryable\<rparr>"

definition stableErrors :: "string list" where
  "stableErrors =
     [''invalid_utf8'', ''frame_too_large'', ''invalid_json'', ''duplicate_key'', ''invalid_frame'',
      ''unknown_type'', ''unsupported_version'', ''delivery_not_assigned'', ''stale_delivery'',
      ''consumer_already_started'', ''consumer_unavailable'', ''backpressure'',
      ''function_not_assigned'', ''internal_error'']"

definition StableErrorCode :: "string \<Rightarrow> bool" where
  "StableErrorCode code \<longleftrightarrow> code \<in> set stableErrors"

definition CloseCodeFor :: "protocol_error option \<Rightarrow> int" where
  "CloseCodeFor err =
     (case err of
        None \<Rightarrow> 1000
      | Some e \<Rightarrow>
          if pe_code e = ''frame_too_large'' then 1009
          else if pe_code e = ''unsupported_version'' then 4406
          else if pe_code e = ''backpressure'' then 4429
          else if pe_code e = ''consumer_unavailable'' \<or> pe_code e = ''internal_error'' then 4503
          else 4400)"

definition invalidFrame :: protocol_error where
  "invalidFrame = protocolError ''invalid_frame'' ''Frame fields are invalid.'' False"

section \<open>Objects and fields\<close>

definition MaxMessageBytes :: int where "MaxMessageBytes = 64 * 1024"

definition decodeObject :: "string \<Rightarrow> protocol_error + members" where
  "decodeObject raw =
     (if int (length raw) > MaxMessageBytes then
        Inl (protocolError ''frame_too_large'' ''Frame exceeds the 64 KiB limit.'' False)
      else if \<not> utf8_valid raw then
        Inl (protocolError ''invalid_utf8'' ''Frame must contain valid UTF-8.'' False)
      else case parse_json True raw of
        Inl DuplicateKey \<Rightarrow>
          Inl (protocolError ''duplicate_key'' ''Frame contains a duplicate JSON object key.'' False)
      | Inl SyntaxError \<Rightarrow>
          Inl (protocolError ''invalid_json'' ''Frame must contain exactly one JSON object.'' False)
      | Inr (JObj ms) \<Rightarrow> Inr ms
      | Inr _ \<Rightarrow>
          Inl (protocolError ''invalid_json'' ''Frame must contain exactly one JSON object.'' False))"

definition field :: "members \<Rightarrow> string \<Rightarrow> (string \<times> json) option" where
  "field ms k = map_of (rev ms) k"

definition only :: "members \<Rightarrow> string list \<Rightarrow> bool" where
  "only ms allowed = list_all (\<lambda>(k, _). k \<in> set allowed) ms"

text \<open>\<^verbatim>\<open>json.Unmarshal\<close> into a string, a bool and an int; null leaves the zero value.\<close>

definition stringField :: "members \<Rightarrow> string \<Rightarrow> string option" where
  "stringField ms k =
     (case field ms k of
        Some (_, JStr s) \<Rightarrow> Some s
      | Some (_, JNull) \<Rightarrow> Some []
      | _ \<Rightarrow> None)"

definition boolField :: "members \<Rightarrow> string \<Rightarrow> bool option" where
  "boolField ms k =
     (case field ms k of
        Some (_, JBool b) \<Rightarrow> Some b
      | Some (_, JNull) \<Rightarrow> Some False
      | _ \<Rightarrow> None)"

definition intField :: "members \<Rightarrow> string \<Rightarrow> int option" where
  "intField ms k =
     (case field ms k of
        Some (_, JNum l) \<Rightarrow> parse_int64 l
      | Some (_, JNull) \<Rightarrow> Some 0
      | _ \<Rightarrow> None)"

definition bounded :: "string \<Rightarrow> nat \<Rightarrow> bool" where
  "bounded v mx \<longleftrightarrow> v \<noteq> [] \<and> length v \<le> mx"

definition jsonObject :: "(string \<times> json) option \<Rightarrow> bool" where
  "jsonObject f = (case f of Some (_, JObj _) \<Rightarrow> True | _ \<Rightarrow> False)"

definition validJSONValue :: "string \<Rightarrow> bool" where
  "validJSONValue raw \<longleftrightarrow> raw \<noteq> [] \<and> utf8_valid raw \<and> json_valid raw"

text \<open>Into a \<^verbatim>\<open>map[string]json.RawMessage\<close>: null gives the nil map.\<close>

definition object_of :: "(string \<times> json) option \<Rightarrow> members option" where
  "object_of f = (case f of Some (_, JObj ms) \<Rightarrow> Some ms | Some (_, JNull) \<Rightarrow> Some [] | _ \<Rightarrow> None)"

text \<open>Into a \<^verbatim>\<open>[]string\<close>.\<close>

fun strings_of :: "json list \<Rightarrow> string list option" where
  "strings_of [] = Some []"
| "strings_of (v # vs) =
     (case v of
        JStr s \<Rightarrow> map_option (Cons s) (strings_of vs)
      | JNull \<Rightarrow> map_option (Cons []) (strings_of vs)
      | _ \<Rightarrow> None)"

definition string_list :: "(string \<times> json) option \<Rightarrow> string list option" where
  "string_list f =
     (case f of Some (_, JArr vs) \<Rightarrow> strings_of vs | Some (_, JNull) \<Rightarrow> Some [] | _ \<Rightarrow> None)"

definition validHandlerError :: "(string \<times> json) option \<Rightarrow> bool" where
  "validHandlerError f =
     (case object_of f of
        None \<Rightarrow> False
      | Some v \<Rightarrow>
          only v [''code'', ''message''] \<and> length v = 2 \<and>
          (case (stringField v ''code'', stringField v ''message'') of
             (Some code, Some msg) \<Rightarrow> ValidFunctionName code \<and> bounded msg 1024
           | _ \<Rightarrow> False))"

definition validEvent :: "(string \<times> json) option \<Rightarrow> bool" where
  "validEvent f =
     (case object_of f of
        None \<Rightarrow> False
      | Some event \<Rightarrow>
          only event [''id'', ''type'', ''source_app_id'', ''target_app_ids'', ''data'', ''created_at''] \<and>
          length event = 6 \<and>
          (case string_list (field event ''target_app_ids'') of
             None \<Rightarrow> False
           | Some targets \<Rightarrow>
               1 \<le> length targets \<and> length targets \<le> 100 \<and>
               list_all (\<lambda>t. bounded t 128) targets \<and> distinct targets) \<and>
          (case (stringField event ''id'', stringField event ''type'', stringField event ''source_app_id'',
                 stringField event ''created_at'') of
             (Some i, Some ty, Some source, Some created) \<Rightarrow>
               bounded i 128 \<and> ty \<noteq> [] \<and> bounded source 128 \<and>
               jsonObject (field event ''data'') \<and> valid_rfc3339 created
           | _ \<Rightarrow> False))"

section \<open>Client frames\<close>

record client_frame =
  cf_type :: string
  cf_protocol_version :: int
  cf_consumer :: string
  cf_max_in_flight :: int
  cf_delivery_id :: string
  cf_delay_ms :: int
  cf_invocation_id :: string
  cf_ok :: "bool option"
  cf_result :: string
  cf_error :: string

definition empty_frame :: client_frame where
  "empty_frame =
     \<lparr>cf_type = [], cf_protocol_version = 0, cf_consumer = [], cf_max_in_flight = 0, cf_delivery_id = [],
      cf_delay_ms = 0, cf_invocation_id = [], cf_ok = None, cf_result = [], cf_error = []\<rparr>"

definition decode_start :: "members \<Rightarrow> client_frame \<Rightarrow> protocol_error + client_frame" where
  "decode_start obj frame =
     (if \<not> only obj [''type'', ''protocol_version'', ''consumer'', ''max_in_flight''] then Inl invalidFrame
      else
        let version = intField obj ''protocol_version'' in
        if version \<noteq> None \<and> version \<noteq> Some 1 then
          Inl (protocolError ''unsupported_version'' ''Protocol version is not supported.'' False)
        else case (version, stringField obj ''consumer'', intField obj ''max_in_flight'') of
          (Some v, Some consumer, Some mx) \<Rightarrow>
            if consumer \<noteq> ''default'' \<or> mx < 1 \<or> mx > 256 then Inl invalidFrame
            else Inr (frame\<lparr>cf_protocol_version := v, cf_consumer := consumer, cf_max_in_flight := mx\<rparr>)
        | _ \<Rightarrow> Inl invalidFrame)"

definition decode_delivery :: "members \<Rightarrow> client_frame \<Rightarrow> protocol_error + client_frame" where
  "decode_delivery obj frame =
     (if \<not> only obj [''type'', ''delivery_id''] then Inl invalidFrame
      else case stringField obj ''delivery_id'' of
        Some i \<Rightarrow> if \<not> bounded i 128 then Inl invalidFrame else Inr (frame\<lparr>cf_delivery_id := i\<rparr>)
      | None \<Rightarrow> Inl invalidFrame)"

definition decode_nack :: "members \<Rightarrow> client_frame \<Rightarrow> protocol_error + client_frame" where
  "decode_nack obj frame =
     (if \<not> only obj [''type'', ''delivery_id'', ''delay_ms''] then Inl invalidFrame
      else case (stringField obj ''delivery_id'', intField obj ''delay_ms'') of
        (Some i, Some delay) \<Rightarrow>
          if \<not> bounded i 128 \<or> delay < 0 \<or> delay > 300000 then Inl invalidFrame
          else Inr (frame\<lparr>cf_delivery_id := i, cf_delay_ms := delay\<rparr>)
      | _ \<Rightarrow> Inl invalidFrame)"

definition decode_result :: "members \<Rightarrow> client_frame \<Rightarrow> protocol_error + client_frame" where
  "decode_result obj frame =
     (if \<not> only obj [''type'', ''invocation_id'', ''ok'', ''result'', ''error''] then Inl invalidFrame
      else case (stringField obj ''invocation_id'', boolField obj ''ok'') of
        (Some i, Some okValue) \<Rightarrow>
          if \<not> bounded i 128 then Inl invalidFrame
          else
            let frame = frame\<lparr>cf_invocation_id := i, cf_ok := Some okValue\<rparr> in
            if okValue then
              (case (field obj ''result'', field obj ''error'') of
                 (Some (raw, _), None) \<Rightarrow>
                   if validJSONValue raw then Inr (frame\<lparr>cf_result := raw\<rparr>) else Inl invalidFrame
               | _ \<Rightarrow> Inl invalidFrame)
            else
              (case (field obj ''result'', field obj ''error'') of
                 (None, Some (raw, v)) \<Rightarrow>
                   if validHandlerError (Some (raw, v)) then Inr (frame\<lparr>cf_error := raw\<rparr>) else Inl invalidFrame
               | _ \<Rightarrow> Inl invalidFrame)
      | _ \<Rightarrow> Inl invalidFrame)"

definition DecodeClientFrame :: "string \<Rightarrow> protocol_error + client_frame" where
  "DecodeClientFrame raw =
     (case decodeObject raw of
        Inl e \<Rightarrow> Inl e
      | Inr obj \<Rightarrow>
          (case stringField obj ''type'' of
             None \<Rightarrow> Inl invalidFrame
           | Some typeName \<Rightarrow>
               if typeName = [] then Inl invalidFrame
               else
                 let frame = empty_frame\<lparr>cf_type := typeName\<rparr> in
                 if typeName = ''consumer.start'' then decode_start obj frame
                 else if typeName = ''delivery.ack'' \<or> typeName = ''delivery.progress'' then
                   decode_delivery obj frame
                 else if typeName = ''delivery.nack'' then decode_nack obj frame
                 else if typeName = ''function.result'' then decode_result obj frame
                 else if typeName = ''ping'' then
                   (if only obj [''type''] then Inr frame else Inl invalidFrame)
                 else Inl (protocolError ''unknown_type'' ''Frame type is not supported.'' False)))"

record assignment_entry =
  ae_app_id :: string
  ae_connection_id :: string

definition ValidateAssignment ::
    "client_frame \<Rightarrow> string \<Rightarrow> string \<Rightarrow> (string \<rightharpoonup> assignment_entry) \<Rightarrow> protocol_error option" where
  "ValidateAssignment frame appID connectionID assignments =
     (if cf_delivery_id frame = [] then Some invalidFrame
      else case assignments (cf_delivery_id frame) of
        None \<Rightarrow>
          Some (protocolError ''delivery_not_assigned'' ''Delivery is not assigned to this connection.'' False)
      | Some a \<Rightarrow>
          if ae_app_id a \<noteq> appID then
            Some (protocolError ''delivery_not_assigned'' ''Delivery is not assigned to this connection.'' False)
          else if ae_connection_id a \<noteq> connectionID then
            Some (protocolError ''stale_delivery'' ''Delivery assignment is no longer current.'' True)
          else None)"

definition ValidateInvocationAssignment ::
    "client_frame \<Rightarrow> string \<Rightarrow> string \<Rightarrow> (string \<rightharpoonup> assignment_entry) \<Rightarrow> protocol_error option" where
  "ValidateInvocationAssignment frame appID connectionID assignments =
     (if cf_invocation_id frame = [] then Some invalidFrame
      else
        let no = Some (protocolError ''function_not_assigned''
                         ''Function invocation is not assigned to this connection.'' False) in
        case assignments (cf_invocation_id frame) of
          None \<Rightarrow> no
        | Some a \<Rightarrow> if ae_app_id a \<noteq> appID \<or> ae_connection_id a \<noteq> connectionID then no else None)"

section \<open>Server frames\<close>

definition int_between :: "int option \<Rightarrow> int \<Rightarrow> int \<Rightarrow> bool" where
  "int_between x lo hi = (case x of None \<Rightarrow> False | Some n \<Rightarrow> lo \<le> n \<and> n \<le> hi)"

definition string_bounded :: "string option \<Rightarrow> nat \<Rightarrow> bool" where
  "string_bounded x mx = (case x of None \<Rightarrow> False | Some s \<Rightarrow> bounded s mx)"

text \<open>The conditions on the fields of each type; \<open>None\<close> for a type the server never sends.\<close>

definition server_fields_ok :: "string \<Rightarrow> members \<Rightarrow> bool option" where
  "server_fields_ok typeName obj =
     (if typeName = ''ready'' then
        Some (only obj [''type'', ''protocol_version'', ''app_id'', ''connection_id'',
                ''heartbeat_interval_ms'', ''max_in_flight_limit''] \<and>
              intField obj ''protocol_version'' = Some 1 \<and>
              string_bounded (stringField obj ''app_id'') 128 \<and>
              string_bounded (stringField obj ''connection_id'') 128 \<and>
              int_between (intField obj ''heartbeat_interval_ms'') 1000 120000 \<and>
              int_between (intField obj ''max_in_flight_limit'') 1 256)
      else if typeName = ''consumer.started'' then
        Some (only obj [''type'', ''consumer'', ''max_in_flight''] \<and>
              stringField obj ''consumer'' = Some ''default'' \<and>
              int_between (intField obj ''max_in_flight'') 1 256)
      else if typeName = ''event.delivery'' then
        Some (only obj [''type'', ''delivery_id'', ''attempt'', ''event''] \<and>
              string_bounded (stringField obj ''delivery_id'') 128 \<and>
              (case intField obj ''attempt'' of None \<Rightarrow> False | Some n \<Rightarrow> 1 \<le> n) \<and>
              validEvent (field obj ''event''))
      else if typeName = ''delivery.accepted'' then
        Some (only obj [''type'', ''delivery_id'', ''state''] \<and>
              string_bounded (stringField obj ''delivery_id'') 128 \<and>
              stringField obj ''state'' \<in> {Some ''acked'', Some ''retrying'', Some ''progress''})
      else if typeName = ''function.invoke'' then
        Some (only obj [''type'', ''invocation_id'', ''function'', ''input'', ''deadline''] \<and>
              string_bounded (stringField obj ''invocation_id'') 128 \<and>
              (case stringField obj ''function'' of None \<Rightarrow> False | Some n \<Rightarrow> ValidFunctionName n) \<and>
              jsonObject (field obj ''input'') \<and>
              (case stringField obj ''deadline'' of None \<Rightarrow> False | Some d \<Rightarrow> valid_rfc3339 d))
      else if typeName = ''error'' then
        Some (only obj [''type'', ''code'', ''message'', ''retryable''] \<and>
              (case stringField obj ''code'' of None \<Rightarrow> False | Some c \<Rightarrow> StableErrorCode c) \<and>
              string_bounded (stringField obj ''message'') 1024 \<and> boolField obj ''retryable'' \<noteq> None)
      else if typeName = ''pong'' then Some (only obj [''type''])
      else None)"

definition ValidateServerFrame :: "string \<Rightarrow> protocol_error option" where
  "ValidateServerFrame raw =
     (case decodeObject raw of
        Inl e \<Rightarrow> Some e
      | Inr obj \<Rightarrow>
          (case stringField obj ''type'' of
             None \<Rightarrow> Some invalidFrame
           | Some typeName \<Rightarrow>
               (case server_fields_ok typeName obj of
                  None \<Rightarrow> Some (protocolError ''unknown_type'' ''Frame type is not supported.'' False)
                | Some True \<Rightarrow> None
                | Some False \<Rightarrow> Some invalidFrame)))"

section \<open>Behaviour\<close>

lemmas decode_defs = decode_start_def decode_delivery_def decode_nack_def decode_result_def

lemma decodeObject_Inr:
  "decodeObject raw = Inr ms \<longleftrightarrow>
     int (length raw) \<le> MaxMessageBytes \<and> utf8_valid raw \<and> parse_json True raw = Inr (JObj ms)"
  by (auto simp: decodeObject_def split: sum.splits json_error.splits json.splits)

lemma decodeObject_error:
  "decodeObject raw = Inl e \<Longrightarrow>
   pe_code e \<in> {''frame_too_large'', ''invalid_utf8'', ''duplicate_key'', ''invalid_json''} \<and> \<not> pe_retryable e"
  by (auto simp: decodeObject_def protocolError_def split: if_splits sum.splits json_error.splits json.splits)

lemma parse_json_unique: "parse_json True raw = Inr v \<Longrightarrow> unique_keys v"
  by (auto simp: parse_json_def split: sum.splits if_splits dest: strict_unique)

lemma start_ok:
  assumes "decode_start obj frame = Inr f"
  shows "cf_type f = cf_type frame \<and> cf_protocol_version f = 1 \<and> cf_consumer f = ''default'' \<and>
    1 \<le> cf_max_in_flight f \<and> cf_max_in_flight f \<le> 256"
  using assms by (auto simp: decode_start_def Let_def split: if_splits option.splits)

lemma delivery_ok:
  assumes "decode_delivery obj frame = Inr f"
  shows "cf_type f = cf_type frame \<and> bounded (cf_delivery_id f) 128"
  using assms by (auto simp: decode_delivery_def split: if_splits option.splits)

lemma nack_ok:
  assumes "decode_nack obj frame = Inr f"
  shows "cf_type f = cf_type frame \<and> bounded (cf_delivery_id f) 128 \<and> 0 \<le> cf_delay_ms f \<and> cf_delay_ms f \<le> 300000"
  using assms by (auto simp: decode_nack_def split: if_splits option.splits)

lemma result_ok:
  assumes "decode_result obj frame = Inr f"
  shows "cf_type f = cf_type frame \<and> bounded (cf_invocation_id f) 128 \<and>
    (cf_ok f = Some True \<and> json_valid (cf_result f) \<and> cf_error f = cf_error frame \<or>
     cf_ok f = Some False \<and> cf_result f = cf_result frame)"
  using assms
  by (auto simp: decode_result_def Let_def validJSONValue_def split: if_splits option.splits)

lemma decode_error:
  "decode_start obj frame = Inl e \<Longrightarrow> e = invalidFrame \<or> pe_code e = ''unsupported_version'' \<and> \<not> pe_retryable e"
  "decode_delivery obj frame = Inl e \<Longrightarrow> e = invalidFrame"
  "decode_nack obj frame = Inl e \<Longrightarrow> e = invalidFrame"
  "decode_result obj frame = Inl e \<Longrightarrow> e = invalidFrame"
  by (auto simp: decode_defs Let_def protocolError_def split: if_splits option.splits)

text \<open>ASCII text survives quoting.\<close>

definition ascii :: "string \<Rightarrow> bool" where
  "ascii s \<longleftrightarrow> list_all (\<lambda>c. byte_of c < 128) s"

lemma hex_digit_ascii: "0 \<le> n \<Longrightarrow> n < 16 \<Longrightarrow> byte_of (hex_digit n) < 128"
proof -
  assume "0 \<le> n" "n < 16"
  then have "hex_digit n \<in> set ''0123456789abcdef''"
    unfolding hex_digit_def by (intro nth_mem) simp
  then show ?thesis by auto
qed

lemma u_escape_ascii: "0 \<le> n \<Longrightarrow> n < 65536 \<Longrightarrow> ascii (u_escape n)"
  by (simp add: ascii_def u_escape_def hex_digit_ascii pos_imp_zdiv_nonneg_iff div_less_iff_less_mult)

lemma ascii_append [simp]: "ascii (a @ b) \<longleftrightarrow> ascii a \<and> ascii b"
  by (auto simp: ascii_def)

lemma ascii_Cons [simp]: "ascii (c # s) \<longleftrightarrow> byte_of c < 128 \<and> ascii s"
  by (auto simp: ascii_def)

lemma ascii_Nil [simp]: "ascii []" by (simp add: ascii_def)

lemma ascii_utf8: "ascii s \<Longrightarrow> utf8_valid s"
  by (rule utf8_valid_ascii) (simp add: ascii_def list_all_iff)

lemma quote_body_ascii: "ascii s \<Longrightarrow> ascii (quote_body s)"
proof (induction s)
  case (Cons c s)
  have "c \<noteq> CHR 0xE2" using Cons.prems by auto
  then show ?case
    using Cons u_escape_ascii [of "byte_of c"] byte_of_range [of c] by (simp add: quote_body.simps)
qed (simp add: quote_body.simps)

lemma quote_body_length: "length (quote_body s) \<le> 6 * length s"
proof (induction s rule: length_induct)
  case (1 s)
  show ?case
  proof (cases s)
    case Nil
    then show ?thesis by (simp add: quote_body.simps)
  next
    case (Cons c t)
    have t: "length (quote_body t) \<le> 6 * length t" using 1 Cons by simp
    have u: "length (quote_body r) \<le> 6 * length r" if "t = b # d # r" for b d r using 1 Cons that by simp
    show ?thesis
      using t u by (cases t rule: remdups_adj.cases) (auto simp: Cons quote_body.simps u_escape_def)
  qed
qed

lemma json_quote_ascii: "ascii s \<Longrightarrow> ascii (json_quote s)"
  by (simp add: json_quote_def quote_body_ascii)

section \<open>Properties\<close>





text \<open>
  C32.  No accepted frame, from a client or from the server, repeats a key at any depth, so two readers
  of the same frame cannot see different values: a frame that decodes is a list of members with
  distinct keys all of whose nested objects have distinct keys too.
\<close>

theorem decoded_keys_unique:
  assumes "decodeObject raw = Inr obj"
  shows "unique_keys (JObj obj)"
  using assms parse_json_unique [of raw "JObj obj"] by (simp only: decodeObject_Inr)

theorem decoded_keys_unique_witness:
  "\<exists>obj. decodeObject ''{\"a\":{\"b\":1},\"c\":[]}'' = Inr obj \<and> unique_keys (JObj obj) \<and> length obj = 2"
proof -
  have "decodeObject ''{\"a\":{\"b\":1},\"c\":[]}'' =
      Inr [(''a'', ''{\"b\":1}'', JObj [(''b'', ''1'', JNum ''1'')]), (''c'', ''[]'', JArr [])]"
    by code_simp
  from decoded_keys_unique [OF this] this show ?thesis by auto
qed

text \<open>
  C37.  What a client encodes is what the gateway decodes: the encoding of an acknowledgement of any
  ASCII identifier of 1 to 128 bytes, quotes, backslashes and control characters included, decodes to
  an acknowledgement of that identifier.
\<close>

theorem ack_frame_roundtrip:
  assumes "ascii i" and "bounded i 128"
  shows "DecodeClientFrame (json_print (JObj [(''type'', [], JStr ''delivery.ack''), (''delivery_id'', [], JStr i)])) =
         Inr (empty_frame\<lparr>cf_type := ''delivery.ack'', cf_delivery_id := i\<rparr>)"
proof -
  let ?v = "JObj [(''type'', [], JStr ''delivery.ack''), (''delivery_id'', [], JStr i)]"
  let ?o = "[(''type'', json_quote ''delivery.ack'', JStr ''delivery.ack''), (''delivery_id'', json_quote i, JStr i)]"
  from quote_body_length [of i] have "length (quote_body i) \<le> 768" using assms(2) by (simp add: bounded_def)
  then have "int (length (json_print ?v)) \<le> MaxMessageBytes"
    by (simp add: MaxMessageBytes_def json_quote_def quote_body.simps)
  moreover have "utf8_valid (json_print ?v)"
    using assms(1) by (intro ascii_utf8) (simp add: json_quote_ascii)
  moreover have "parse_json True (json_print ?v) = Inr (annotate ?v)"
    by (rule parse_json_print) simp_all
  ultimately have "decodeObject (json_print ?v) = Inr ?o"
    by (simp add: decodeObject_Inr)
  then show ?thesis
    using assms(2)
    by (simp add: DecodeClientFrame_def decode_delivery_def stringField_def field_def only_def Let_def
        del: json_print.simps)
qed

theorem ack_frame_roundtrip_witness:
  "DecodeClientFrame (json_print (JObj [(''type'', [], JStr ''delivery.ack''), (''delivery_id'', [], JStr ''a<b'')])) =
   Inr (empty_frame\<lparr>cf_type := ''delivery.ack'', cf_delivery_id := ''a<b''\<rparr>)"
  by (rule ack_frame_roundtrip) (simp_all add: ascii_def bounded_def)

end
