(* ===== verification/Wire.thy ===== *)
theory Wire
  imports Domain
begin

text \<open>
  The values that travel between the components as JSON: \<^verbatim>\<open>json.Unmarshal\<close> into the structs of
  \<^verbatim>\<open>domain/event.go\<close> and into the envelope of an outbox message, \<^verbatim>\<open>json.Marshal\<close> of both, and the broker
  subjects of \<^verbatim>\<open>broker/nats/subjects.go\<close>.
\<close>

section \<open>Decoding into structs\<close>

text \<open>Keys match field names without regard to case; U+017F folds to an s and U+212A to a k.\<close>

fun fold_key :: "string \<Rightarrow> string" where
  "fold_key [] = []"
| "fold_key (c # s) =
     (case s of
        d # r \<Rightarrow>
          if c = CHR 0xC5 \<and> d = CHR 0xBF then CHR ''s'' # fold_key r
          else (case r of
                  e # r' \<Rightarrow>
                    if c = CHR 0xE2 \<and> d = CHR 0x84 \<and> e = CHR 0xAA then CHR ''k'' # fold_key r'
                    else lower_char c # fold_key s
                | [] \<Rightarrow> lower_char c # fold_key s)
      | [] \<Rightarrow> [lower_char c])"

text \<open>
  The members of an object are assigned one after the other to the value that is being filled in: a
  later member overwrites an earlier one, null leaves a field alone, and a member of the wrong type
  makes the whole decoding fail.
\<close>

fun decode_members :: "(string \<Rightarrow> string \<Rightarrow> json \<Rightarrow> 'a \<Rightarrow> 'a option) \<Rightarrow> members \<Rightarrow> 'a \<Rightarrow> 'a option" where
  "decode_members f [] x = Some x"
| "decode_members f ((k, raw, v) # ms) x = Option.bind (f (fold_key k) raw v x) (decode_members f ms)"

definition decode_struct :: "(string \<Rightarrow> string \<Rightarrow> json \<Rightarrow> 'a \<Rightarrow> 'a option) \<Rightarrow> json \<Rightarrow> 'a \<Rightarrow> 'a option" where
  "decode_struct f v x =
     (case v of JObj ms \<Rightarrow> decode_members f ms x | JNull \<Rightarrow> Some x | _ \<Rightarrow> None)"

definition decode_string :: "json \<Rightarrow> string \<Rightarrow> string option" where
  "decode_string v x = (case v of JStr s \<Rightarrow> Some s | JNull \<Rightarrow> Some x | _ \<Rightarrow> None)"

definition decode_int :: "json \<Rightarrow> int \<Rightarrow> int option" where
  "decode_int v x = (case v of JNum l \<Rightarrow> parse_int64 l | JNull \<Rightarrow> Some x | _ \<Rightarrow> None)"

fun decode_string_items :: "json list \<Rightarrow> string list option" where
  "decode_string_items [] = Some []"
| "decode_string_items (v # vs) =
     Option.bind (decode_string v []) (\<lambda>s. map_option (\<lambda>ss. s # ss) (decode_string_items vs))"

definition decode_strings :: "json \<Rightarrow> string list \<Rightarrow> string list option" where
  "decode_strings v x = (case v of JArr vs \<Rightarrow> decode_string_items vs | JNull \<Rightarrow> Some [] | _ \<Rightarrow> None)"

text \<open>\<^verbatim>\<open>time.Time.UnmarshalJSON\<close> reads the raw bytes between the quotes.\<close>

definition decode_time :: "string \<Rightarrow> json \<Rightarrow> zoned \<Rightarrow> zoned option" where
  "decode_time raw v x =
     (case v of JStr _ \<Rightarrow> parse_rfc3339 (butlast (tl raw)) | JNull \<Rightarrow> Some x | _ \<Rightarrow> None)"

section \<open>Events\<close>

definition zero_zoned :: zoned where "zero_zoned = (zero_time, 0)"

definition empty_queue_event :: queue_event where
  "empty_queue_event =
     \<lparr>qe_available_at = zero_zoned, qe_ordering_key = [], qe_priority = 0, qe_metadata = [],
      qe_dedup_hash = []\<rparr>"

definition empty_event :: event where
  "empty_event =
     \<lparr>e_id = [], e_type = [], e_source_app_id = [], e_target_app_ids = [], e_data = [],
      e_created_at = zero_zoned, e_queue = None\<rparr>"

text \<open>\<open>strict\<close> is \<^verbatim>\<open>DisallowUnknownFields\<close>.\<close>

definition queue_event_field :: "bool \<Rightarrow> string \<Rightarrow> string \<Rightarrow> json \<Rightarrow> queue_event \<Rightarrow> queue_event option" where
  "queue_event_field strict k raw v x =
     (if k = ''available_at'' then map_option (\<lambda>t. x\<lparr>qe_available_at := t\<rparr>) (decode_time raw v (qe_available_at x))
      else if k = ''ordering_key'' then map_option (\<lambda>t. x\<lparr>qe_ordering_key := t\<rparr>) (decode_string v (qe_ordering_key x))
      else if k = ''priority'' then map_option (\<lambda>t. x\<lparr>qe_priority := t\<rparr>) (decode_int v (qe_priority x))
      else if k = ''metadata'' then Some (x\<lparr>qe_metadata := raw\<rparr>)
      else if strict then None else Some x)"

definition event_field :: "bool \<Rightarrow> string \<Rightarrow> string \<Rightarrow> json \<Rightarrow> event \<Rightarrow> event option" where
  "event_field strict k raw v x =
     (if k = ''id'' then map_option (\<lambda>t. x\<lparr>e_id := t\<rparr>) (decode_string v (e_id x))
      else if k = ''type'' then map_option (\<lambda>t. x\<lparr>e_type := t\<rparr>) (decode_string v (e_type x))
      else if k = ''source_app_id'' then map_option (\<lambda>t. x\<lparr>e_source_app_id := t\<rparr>) (decode_string v (e_source_app_id x))
      else if k = ''target_app_ids'' then map_option (\<lambda>t. x\<lparr>e_target_app_ids := t\<rparr>) (decode_strings v (e_target_app_ids x))
      else if k = ''data'' then Some (x\<lparr>e_data := raw\<rparr>)
      else if k = ''created_at'' then map_option (\<lambda>t. x\<lparr>e_created_at := t\<rparr>) (decode_time raw v (e_created_at x))
      else if k = ''queue'' then
        (if v = JNull then Some (x\<lparr>e_queue := None\<rparr>)
         else map_option (\<lambda>q. x\<lparr>e_queue := Some q\<rparr>)
                (decode_struct (queue_event_field strict) v (coalesce (e_queue x) empty_queue_event)))
      else if strict then None else Some x)"

definition unmarshal_event :: "string \<Rightarrow> event option" where
  "unmarshal_event raw =
     (case parse_json False raw of Inr v \<Rightarrow> decode_struct (event_field False) v empty_event | Inl _ \<Rightarrow> None)"

section \<open>Envelopes\<close>

text \<open>The struct that the store writes (\<^verbatim>\<open>outboxEnvelope\<close>) and that worker and gateway read back.\<close>

record envelope =
  en_delivery_id :: string
  en_generation :: int
  en_event :: event

definition empty_envelope :: envelope where
  "empty_envelope = \<lparr>en_delivery_id = [], en_generation = 0, en_event = empty_event\<rparr>"

definition envelope_field :: "bool \<Rightarrow> string \<Rightarrow> string \<Rightarrow> json \<Rightarrow> envelope \<Rightarrow> envelope option" where
  "envelope_field strict k raw v x =
     (if k = ''delivery_id'' then map_option (\<lambda>t. x\<lparr>en_delivery_id := t\<rparr>) (decode_string v (en_delivery_id x))
      else if k = ''generation'' then map_option (\<lambda>t. x\<lparr>en_generation := t\<rparr>) (decode_int v (en_generation x))
      else if k = ''event'' then
        map_option (\<lambda>t. x\<lparr>en_event := t\<rparr>) (decode_struct (event_field strict) v (en_event x))
      else if strict then None else Some x)"

definition unmarshal_envelope :: "bool \<Rightarrow> string \<Rightarrow> envelope option" where
  "unmarshal_envelope strict raw =
     (case parse_json False raw of
        Inr v \<Rightarrow> decode_struct (envelope_field strict) v empty_envelope
      | Inl _ \<Rightarrow> None)"

text \<open>The raw text of the member \<^verbatim>\<open>event\<close>, empty when there is none.\<close>

definition envelope_event_raw :: "string \<Rightarrow> string option" where
  "envelope_event_raw raw =
     (case parse_json False raw of
        Inr v \<Rightarrow> decode_struct (\<lambda>k r v x. if k = ''event'' then Some r else Some x) v []
      | Inl _ \<Rightarrow> None)"

section \<open>Encoding\<close>

text \<open>An object with the given members, each with its encoded value.\<close>

fun member_texts :: "(string \<times> string) list \<Rightarrow> string" where
  "member_texts [] = ''}''"
| "member_texts ((k, t) # ms) =
     json_quote k @ CHR '':'' # t @ (if ms = [] then ''}'' else CHR '','' # member_texts ms)"

definition object_text :: "(string \<times> string) list \<Rightarrow> string" where
  "object_text ms = CHR ''{'' # member_texts ms"

definition string_list_text :: "string list \<Rightarrow> string" where
  "string_list_text ss = (if ss = [] then ''null'' else json_print (JArr (map JStr ss)))"

text \<open>A raw message is compacted; an empty one is written as null, and text that is not JSON is refused.\<close>

definition raw_message_text :: "string \<Rightarrow> string option" where
  "raw_message_text raw =
     (if raw = [] then Some ''null''
      else if json_valid raw then Some (compact False False raw) else None)"

definition time_text :: "zoned \<Rightarrow> string option" where
  "time_text t = map_option (\<lambda>s. CHR 0x22 # s @ [CHR 0x22]) (format_rfc3339 t)"

definition queue_event_text :: "queue_event \<Rightarrow> string option" where
  "queue_event_text q =
     Option.bind (time_text (qe_available_at q)) (\<lambda>at.
     Option.bind (raw_message_text (qe_metadata q)) (\<lambda>meta.
       Some (object_text
         ([(''available_at'', at)] @
          (if qe_ordering_key q = [] then [] else [(''ordering_key'', json_quote (qe_ordering_key q))]) @
          (if qe_priority q = 0 then [] else [(''priority'', show_int (qe_priority q))]) @
          (if qe_metadata q = [] then [] else [(''metadata'', meta)])))))"

definition event_text :: "event \<Rightarrow> string option" where
  "event_text e =
     Option.bind (raw_message_text (e_data e)) (\<lambda>data.
     Option.bind (time_text (e_created_at e)) (\<lambda>at.
     Option.bind (case e_queue e of None \<Rightarrow> Some [] | Some q \<Rightarrow> map_option (\<lambda>t. [(''queue'', t)]) (queue_event_text q))
       (\<lambda>q.
       Some (object_text
         ([(''id'', json_quote (e_id e)), (''type'', json_quote (e_type e)),
           (''source_app_id'', json_quote (e_source_app_id e)),
           (''target_app_ids'', string_list_text (e_target_app_ids e)),
           (''data'', data), (''created_at'', at)] @ q)))))"

definition envelope_text :: "envelope \<Rightarrow> string option" where
  "envelope_text n =
     map_option (\<lambda>e. object_text [(''delivery_id'', json_quote (en_delivery_id n)),
                                  (''generation'', show_int (en_generation n)), (''event'', e)])
       (event_text (en_event n))"

section \<open>Broker messages\<close>

text \<open>What a handler does with a message of the broker.\<close>

datatype broker_action = MsgAck | MsgNack duration | MsgProgress

text \<open>
  Subjects.  \<open>token_of\<close> stands for the lower-case base 32 text of the first twenty bytes of the
  SHA-256 digest of an identifier.
\<close>

record app_subjects =
  as_deliveries :: string
  as_dead_letters :: string
  as_realtime :: string

definition AppToken :: "(string \<Rightarrow> string) \<Rightarrow> string \<Rightarrow> string option" where
  "AppToken token_of appID =
     (if appID = [] \<or> appID \<noteq> go_trim_space appID \<or> length appID > 256 \<or> \<not> utf8_valid appID \<or>
         CHR 0x00 \<in> set appID
      then None else Some (token_of appID))"

definition SubjectsForApp :: "(string \<Rightarrow> string) \<Rightarrow> string \<Rightarrow> app_subjects option" where
  "SubjectsForApp token_of appID =
     map_option (\<lambda>token.
       \<lparr>as_deliveries = ''rh.v1.delivery.'' @ token, as_dead_letters = ''rh.v1.dlq.'' @ token,
        as_realtime = ''rh.v1.realtime.'' @ token\<rparr>) (AppToken token_of appID)"

definition CallbackSubject :: "int \<Rightarrow> string option" where
  "CallbackSubject shard =
     (if shard < 0 \<or> shard > 1023 then None
      else Some (''rh.v1.callback.'' @
             (if shard < 10 then ''00'' else if shard < 100 then ''0'' else []) @ show_int shard))"

definition FunctionSubject :: "(string \<Rightarrow> string) \<Rightarrow> string \<Rightarrow> string \<Rightarrow> string option" where
  "FunctionSubject token_of appID functionID =
     Option.bind (AppToken token_of appID) (\<lambda>a.
     Option.bind (AppToken token_of functionID) (\<lambda>f. Some (''rh.v1.rpc.'' @ a @ ''.'' @ f)))"

definition ReplySubject :: "(string \<Rightarrow> string) \<Rightarrow> string \<Rightarrow> string option" where
  "ReplySubject token_of instanceID =
     map_option (\<lambda>t. ''rh.v1.rpc.reply.'' @ t) (AppToken token_of instanceID)"

end
