(* ===== verification/Auth.thy ===== *)
theory Auth
  imports Wire
begin

text \<open>
  Request signatures and access tokens: \<^verbatim>\<open>auth/signature.go\<close> and \<^verbatim>\<open>auth/token.go\<close>, with the codecs of
  Go's packages \<^verbatim>\<open>encoding/hex\<close> and \<^verbatim>\<open>encoding/base64\<close> that they use.  The hash functions are arguments:
  \<open>sha\<close> for SHA-256 and \<open>mac\<close> for HMAC-SHA-256.
\<close>

section \<open>Codecs\<close>

definition byte_char :: "int \<Rightarrow> char" where
  "byte_char n =
     Char (odd n) (odd (n div 2)) (odd (n div 4)) (odd (n div 8)) (odd (n div 16)) (odd (n div 32))
       (odd (n div 64)) (odd (n div 128))"

lemma byte_char_of: "byte_char n = char_of n"
  by (simp add: byte_char_def char_of_def bit_iff_odd)

lemma byte_char_byte [simp]: "byte_char (byte_of c) = c"
  by (simp add: byte_char_of)

definition hex_encode :: "string \<Rightarrow> string" where
  "hex_encode s = concat (map (\<lambda>c. [hex_digit (byte_of c div 16), hex_digit (byte_of c mod 16)]) s)"

fun hex_decode :: "string \<Rightarrow> string option" where
  "hex_decode [] = Some []"
| "hex_decode [a] = None"
| "hex_decode (a # b # r) =
     Option.bind (hex_val a) (\<lambda>x. Option.bind (hex_val b) (\<lambda>y.
     map_option (\<lambda>s. byte_char (x * 16 + y) # s) (hex_decode r)))"

text \<open>\<^verbatim>\<open>base64.RawURLEncoding\<close>: the decoder skips line breaks and does not look at the unused low bits of
  the last character.\<close>

definition b64_alphabet :: string where
  "b64_alphabet = ''ABCDEFGHIJKLMNOPQRSTUVWXYZabcdefghijklmnopqrstuvwxyz0123456789-_''"

definition b64_char :: "int \<Rightarrow> char" where "b64_char n = b64_alphabet ! nat n"

definition b64_val :: "char \<Rightarrow> int option" where
  "b64_val c =
     (let n = byte_of c in
      if is_upper c then Some (n - 65) else if is_lower c then Some (n - 71)
      else if is_digit c then Some (n + 4) else if c = CHR ''-'' then Some 62
      else if c = CHR ''_'' then Some 63 else None)"

fun b64_encode :: "string \<Rightarrow> string" where
  "b64_encode [] = []"
| "b64_encode [a] = [b64_char (byte_of a div 4), b64_char (byte_of a mod 4 * 16)]"
| "b64_encode [a, b] =
     [b64_char (byte_of a div 4), b64_char (byte_of a mod 4 * 16 + byte_of b div 16),
      b64_char (byte_of b mod 16 * 4)]"
| "b64_encode (a # b # c # r) =
     b64_char (byte_of a div 4) # b64_char (byte_of a mod 4 * 16 + byte_of b div 16) #
     b64_char (byte_of b mod 16 * 4 + byte_of c div 64) # b64_char (byte_of c mod 64) # b64_encode r"

fun b64_bytes :: "int list \<Rightarrow> string option" where
  "b64_bytes [] = Some []"
| "b64_bytes [w] = None"
| "b64_bytes [w, x] = Some [byte_char (w * 4 + x div 16)]"
| "b64_bytes [w, x, y] = Some [byte_char (w * 4 + x div 16), byte_char (x mod 16 * 16 + y div 4)]"
| "b64_bytes (w # x # y # z # r) =
     map_option (\<lambda>s. byte_char (w * 4 + x div 16) # byte_char (x mod 16 * 16 + y div 4) #
                     byte_char (y mod 4 * 64 + z) # s) (b64_bytes r)"

fun b64_vals :: "string \<Rightarrow> int list option" where
  "b64_vals [] = Some []"
| "b64_vals (c # s) = Option.bind (b64_val c) (\<lambda>n. map_option (\<lambda>ns. n # ns) (b64_vals s))"

definition b64_decode :: "string \<Rightarrow> string option" where
  "b64_decode s =
     Option.bind (b64_vals (filter (\<lambda>c. c \<noteq> CHR 0x0A \<and> c \<noteq> CHR 0x0D) s)) b64_bytes"

section \<open>Signatures of requests\<close>

datatype authentication_error =
    MalformedAuthentication | TimestampExpired | InvalidSignature | ComputeSignature

text \<open>Signed 64-bit wrap-around.\<close>

definition wrap64 :: "int \<Rightarrow> int" where
  "wrap64 n = (n + 2 ^ 63) mod 2 ^ 64 - 2 ^ 63"

definition Sign ::
    "(string \<Rightarrow> string) \<Rightarrow> (string \<Rightarrow> string \<Rightarrow> string) \<Rightarrow> string \<Rightarrow> string \<Rightarrow> string \<Rightarrow> string \<Rightarrow> string \<Rightarrow> string" where
  "Sign sha mac secret timestamp meth requestTarget body =
     (let canonical = timestamp @ [CHR 0x0A] @ meth @ [CHR 0x0A] @ requestTarget @ [CHR 0x0A] @
                      hex_encode (sha body) in
      hex_encode (mac secret canonical))"

definition stringLower :: "string \<Rightarrow> string" where
  "stringLower s = map lower_char s"

definition Verify ::
    "(string \<Rightarrow> string) \<Rightarrow> (string \<Rightarrow> string \<Rightarrow> string) \<Rightarrow> string \<Rightarrow> string \<Rightarrow> string \<Rightarrow> string \<Rightarrow> string \<Rightarrow> string
     \<Rightarrow> time \<Rightarrow> duration \<Rightarrow> authentication_error option" where
  "Verify sha mac secret timestamp meth requestTarget signature body now maxSkew =
     (case parse_int timestamp of
        None \<Rightarrow> Some MalformedAuthentication
      | Some unixSeconds \<Rightarrow>
          if timestamp = [] \<or> maxSkew < 0 then Some MalformedAuthentication
          else if length signature \<noteq> 64 \<or> signature \<noteq> stringLower signature then Some MalformedAuthentication
          else case hex_decode signature of
            None \<Rightarrow> Some MalformedAuthentication
          | Some provided \<Rightarrow>
              if length provided \<noteq> 32 then Some MalformedAuthentication
              else
                let deltaSeconds = wrap64 (now div second - unixSeconds);
                    maxSkewSeconds = maxSkew div second in
                if deltaSeconds > maxSkewSeconds \<or> deltaSeconds < - maxSkewSeconds then Some TimestampExpired
                else case hex_decode (Sign sha mac secret timestamp meth requestTarget body) of
                  None \<Rightarrow> Some ComputeSignature
                | Some expected \<Rightarrow> if expected \<noteq> provided then Some InvalidSignature else None)"

section \<open>Tokens\<close>

datatype token_error = ErrInvalidToken | ErrTokenExpired | ErrMissingScope | ErrInvalidScope | ErrInvalidTTL

text \<open>A Go map of capabilities is a list of pairs with distinct keys.\<close>

type_synonym capabilities = "(string \<times> string list) list"

record token_claims =
  tc_version :: int
  tc_app_id :: string
  tc_scopes :: "string list"
  tc_issued_at :: int
  tc_expires_at :: int
  tc_client_id :: string
  tc_channels :: capabilities

definition MaxTokenTTL :: duration where "MaxTokenTTL = 15 * minute"

definition client_char :: "char \<Rightarrow> bool" where
  "client_char c \<longleftrightarrow> is_lower c \<or> is_upper c \<or> is_digit c \<or> c \<in> set ''_.:-''"

definition validClientID :: "string \<Rightarrow> bool" where
  "validClientID s \<longleftrightarrow> s \<noteq> [] \<and> length s \<le> 128 \<and> list_all client_char s"

definition capability_actions :: "string list" where
  "capability_actions =
     [''subscribe'', ''publish'', ''presence'', ''history'', ''annotate'', ''file.publish'', ''push.manage'']"

definition validateChannelCapabilities :: "capabilities \<Rightarrow> bool" where
  "validateChannelCapabilities channels \<longleftrightarrow>
     channels \<noteq> [] \<and> length channels \<le> 100 \<and>
     list_all (\<lambda>(channel, actions).
        ValidRealtimeChannelGrant channel \<and> actions \<noteq> [] \<and> length actions \<le> length capability_actions \<and>
        list_all (\<lambda>a. a \<in> set capability_actions) actions \<and> distinct actions) channels"

definition scope_part :: "string \<Rightarrow> bool" where
  "scope_part part =
     (case part of [] \<Rightarrow> False | c # r \<Rightarrow> is_lower c \<and> list_all (\<lambda>d. is_lower d \<or> is_digit d) r)"

definition validScope :: "string \<Rightarrow> bool" where
  "validScope scope =
     (case split_on CHR '':'' scope of [a, b] \<Rightarrow> scope_part a \<and> scope_part b | _ \<Rightarrow> False)"

definition validateScopes :: "string list \<Rightarrow> bool" where
  "validateScopes scopes \<longleftrightarrow> scopes \<noteq> [] \<and> list_all validScope scopes \<and> distinct scopes"

text \<open>The claims as \<^verbatim>\<open>json.Marshal\<close> orders them; the keys of a map are sorted.\<close>

definition capability_members :: "capabilities \<Rightarrow> members" where
  "capability_members channels = map (\<lambda>(k, acts). (k, [], JArr (map JStr acts))) channels"

definition capabilities_json :: "capabilities \<Rightarrow> json" where
  "capabilities_json channels = JObj (capability_members (sort_key fst channels))"

definition claims_json :: "token_claims \<Rightarrow> json" where
  "claims_json c =
     JObj ([(''v'', [], JNum (show_int (tc_version c))), (''app_id'', [], JStr (tc_app_id c)),
            (''scopes'', [], JArr (map JStr (tc_scopes c))),
            (''iat'', [], JNum (show_int (tc_issued_at c))), (''exp'', [], JNum (show_int (tc_expires_at c)))] @
           (if tc_client_id c = [] then [] else [(''client_id'', [], JStr (tc_client_id c))]) @
           (if tc_channels c = [] then [] else [(''channels'', [], capabilities_json (tc_channels c))]))"

definition token_header :: string where
  "token_header = ''{\"alg\":\"HS256\",\"typ\":\"RHT\"}''"

definition issue ::
    "(string \<Rightarrow> string \<Rightarrow> string) \<Rightarrow> string \<Rightarrow> time \<Rightarrow> string \<Rightarrow> string list \<Rightarrow> string \<Rightarrow> capabilities \<Rightarrow> duration
     \<Rightarrow> token_error + string" where
  "issue mac secret now appID scopes clientID channels ttl =
     (if appID = [] then Inl ErrInvalidToken
      else if ttl \<le> 0 \<or> ttl > MaxTokenTTL \<or> ttl mod second \<noteq> 0 then Inl ErrInvalidTTL
      else if \<not> validateScopes scopes then Inl ErrInvalidScope
      else
        let now = now - now mod second;
            payload = json_print (claims_json
              \<lparr>tc_version = 1, tc_app_id = appID, tc_scopes = scopes, tc_issued_at = now div second,
               tc_expires_at = (now + ttl) div second, tc_client_id = clientID, tc_channels = channels\<rparr>);
            signingInput = b64_encode token_header @ ''.'' @ b64_encode payload in
        Inr (signingInput @ ''.'' @ b64_encode (mac secret signingInput)))"

definition Issue ::
    "(string \<Rightarrow> string \<Rightarrow> string) \<Rightarrow> string \<Rightarrow> time \<Rightarrow> string \<Rightarrow> string list \<Rightarrow> duration \<Rightarrow> token_error + string" where
  "Issue mac secret now appID scopes ttl = issue mac secret now appID scopes [] [] ttl"

definition IssueRealtime ::
    "(string \<Rightarrow> string \<Rightarrow> string) \<Rightarrow> string \<Rightarrow> time \<Rightarrow> string \<Rightarrow> string \<Rightarrow> capabilities \<Rightarrow> duration \<Rightarrow> token_error + string" where
  "IssueRealtime mac secret now appID clientID channels ttl =
     (if \<not> validClientID clientID \<or> \<not> validateChannelCapabilities channels then Inl ErrInvalidToken
      else issue mac secret now appID [''ws:connect''] clientID channels ttl)"

text \<open>Decoding of the claims.  A repeated key of the map overwrites its entry.\<close>

fun map_put :: "string \<Rightarrow> 'a \<Rightarrow> (string \<times> 'a) list \<Rightarrow> (string \<times> 'a) list" where
  "map_put k v [] = [(k, v)]"
| "map_put k v ((k', v') # m) = (if k = k' then (k, v) # m else (k', v') # map_put k v m)"

fun decode_capabilities :: "members \<Rightarrow> capabilities \<Rightarrow> capabilities option" where
  "decode_capabilities [] m = Some m"
| "decode_capabilities ((k, raw, v) # ms) m =
     Option.bind (decode_strings v []) (\<lambda>acts. decode_capabilities ms (map_put k acts m))"

definition claims_field :: "string \<Rightarrow> string \<Rightarrow> json \<Rightarrow> token_claims \<Rightarrow> token_claims option" where
  "claims_field k raw v x =
     (if k = ''v'' then map_option (\<lambda>t. x\<lparr>tc_version := t\<rparr>) (decode_int v (tc_version x))
      else if k = ''app_id'' then map_option (\<lambda>t. x\<lparr>tc_app_id := t\<rparr>) (decode_string v (tc_app_id x))
      else if k = ''scopes'' then map_option (\<lambda>t. x\<lparr>tc_scopes := t\<rparr>) (decode_strings v (tc_scopes x))
      else if k = ''iat'' then map_option (\<lambda>t. x\<lparr>tc_issued_at := t\<rparr>) (decode_int v (tc_issued_at x))
      else if k = ''exp'' then map_option (\<lambda>t. x\<lparr>tc_expires_at := t\<rparr>) (decode_int v (tc_expires_at x))
      else if k = ''client_id'' then map_option (\<lambda>t. x\<lparr>tc_client_id := t\<rparr>) (decode_string v (tc_client_id x))
      else if k = ''channels'' then
        (case v of
           JObj ms \<Rightarrow> map_option (\<lambda>t. x\<lparr>tc_channels := t\<rparr>) (decode_capabilities ms (tc_channels x))
         | JNull \<Rightarrow> Some (x\<lparr>tc_channels := []\<rparr>)
         | _ \<Rightarrow> None)
      else Some x)"

definition empty_claims :: token_claims where
  "empty_claims =
     \<lparr>tc_version = 0, tc_app_id = [], tc_scopes = [], tc_issued_at = 0, tc_expires_at = 0,
      tc_client_id = [], tc_channels = []\<rparr>"

definition unmarshal_claims :: "string \<Rightarrow> token_claims option" where
  "unmarshal_claims payload =
     (case parse_json False payload of Inr v \<Rightarrow> decode_struct claims_field v empty_claims | Inl _ \<Rightarrow> None)"

definition claims_ok :: "token_claims \<Rightarrow> bool" where
  "claims_ok c \<longleftrightarrow>
     \<not> (tc_version c \<noteq> 1 \<or> tc_app_id c = [] \<or> tc_expires_at c \<le> tc_issued_at c \<or>
        wrap64 (tc_expires_at c - tc_issued_at c) > MaxTokenTTL div second) \<and>
     validateScopes (tc_scopes c) \<and>
     \<not> ((tc_client_id c = []) \<noteq> (tc_channels c = []) \<or>
        tc_client_id c \<noteq> [] \<and> (\<not> validClientID (tc_client_id c) \<or> \<not> validateChannelCapabilities (tc_channels c)))"

definition TokenIssuer_Verify ::
    "(string \<Rightarrow> string \<Rightarrow> string) \<Rightarrow> string \<Rightarrow> time \<Rightarrow> string \<Rightarrow> string \<Rightarrow> token_error + token_claims" where
  "TokenIssuer_Verify mac secret now token requiredScope =
     (case split_on CHR ''.'' token of
        [h, p, sig] \<Rightarrow>
          if h = [] \<or> p = [] \<or> sig = [] then Inl ErrInvalidToken
          else (case b64_decode sig of
            None \<Rightarrow> Inl ErrInvalidToken
          | Some provided \<Rightarrow>
              if length provided \<noteq> 32 \<or> mac secret (h @ ''.'' @ p) \<noteq> provided then Inl ErrInvalidToken
              else if b64_decode h \<noteq> Some token_header then Inl ErrInvalidToken
              else case Option.bind (b64_decode p) unmarshal_claims of
                None \<Rightarrow> Inl ErrInvalidToken
              | Some c \<Rightarrow>
                  if \<not> claims_ok c then Inl ErrInvalidToken
                  else if now div second \<ge> tc_expires_at c then Inl ErrTokenExpired
                  else if requiredScope \<noteq> [] \<and> requiredScope \<notin> set (tc_scopes c) then Inl ErrMissingScope
                  else Inr c)
      | _ \<Rightarrow> Inl ErrInvalidToken)"

section \<open>The codecs round trip\<close>

lemma sextet:
  assumes "0 \<le> n" and "n < 64"
  shows "b64_val (b64_char n) = Some n" "b64_char n \<noteq> CHR 0x0A" "b64_char n \<noteq> CHR 0x0D" "b64_char n \<noteq> CHR ''.''"
    "CHR ''.'' \<noteq> b64_char n"
proof -
  have all: "list_all (\<lambda>n. b64_val (b64_char n) = Some n \<and> b64_char n \<noteq> CHR 0x0A \<and> b64_char n \<noteq> CHR 0x0D \<and>
      b64_char n \<noteq> CHR ''.'') [0..63]"
    by code_simp
  have "n \<in> set [0..63]" using assms by simp
  from all [unfolded list_all_iff, rule_format, OF this]
  show "b64_val (b64_char n) = Some n" "b64_char n \<noteq> CHR 0x0A" "b64_char n \<noteq> CHR 0x0D" and dot: "b64_char n \<noteq> CHR ''.''"
    by blast+
  from dot show "CHR ''.'' \<noteq> b64_char n" by (rule not_sym)
qed

lemma div_mod_digits:
  fixes x y k :: int
  assumes "0 \<le> y" and "y < k"
  shows "(x * k + y) div k = x" "(x * k + y) mod k = y"
  using assms by simp_all

lemma byte_parts:
  assumes "0 \<le> a" and "a < (256 :: int)"
  shows "0 \<le> a div 4 \<and> a div 4 < 64" "0 \<le> a mod 4 \<and> a mod 4 < 4" "0 \<le> a div 16 \<and> a div 16 < 16"
    "0 \<le> a mod 16 \<and> a mod 16 < 16" "0 \<le> a div 64 \<and> a div 64 < 4" "0 \<le> a mod 64 \<and> a mod 64 < 64"
  using assms by auto

lemma sextet_groups:
  assumes a: "0 \<le> a" "a < 256" and b: "0 \<le> b" "b < 256" and c: "0 \<le> c" "c < (256 :: int)"
  shows "a mod 4 * 16 + b div 16 < 64 \<and> b mod 16 * 4 + c div 64 < 64 \<and> a mod 4 * 16 < 64 \<and> b mod 16 * 4 < 64"
    "(a mod 4 * 16 + b div 16) div 16 = a mod 4" "(a mod 4 * 16 + b div 16) mod 16 = b div 16"
    "(b mod 16 * 4 + c div 64) div 4 = b mod 16" "(b mod 16 * 4 + c div 64) mod 4 = c div 64"
proof -
  have small: "x * 16 + y < 64" if "x < 4" "y < 16" for x y :: int using that by simp
  have small': "x * 4 + y < 64" if "x < 16" "y < 4" for x y :: int using that by simp
  have m: "a mod 4 < 4" "b div 16 < 16" "b mod 16 < 16" "c div 64 < 4"
    using byte_parts [OF a] byte_parts [OF b] byte_parts [OF c] by blast+
  from small [OF m(1,2)] small' [OF m(3,4)] small [OF m(1), of 0] small' [OF m(3), of 0]
  show "a mod 4 * 16 + b div 16 < 64 \<and> b mod 16 * 4 + c div 64 < 64 \<and> a mod 4 * 16 < 64 \<and> b mod 16 * 4 < 64"
    by simp
  have p: "0 \<le> b div 16" "b div 16 < 16" "0 \<le> c div 64" "c div 64 < 4"
    using byte_parts [OF b] byte_parts [OF c] by blast+
  show "(a mod 4 * 16 + b div 16) div 16 = a mod 4" "(a mod 4 * 16 + b div 16) mod 16 = b div 16"
    using div_mod_digits [OF p(1,2)] by blast+
  show "(b mod 16 * 4 + c div 64) div 4 = b mod 16" "(b mod 16 * 4 + c div 64) mod 4 = c div 64"
    using div_mod_digits [OF p(3,4)] by blast+
qed

lemma byte_sextets:
  fixes a b c :: char
  defines "w \<equiv> byte_of a div 4" and "x \<equiv> byte_of a mod 4 * 16 + byte_of b div 16"
    and "y \<equiv> byte_of b mod 16 * 4 + byte_of c div 64" and "z \<equiv> byte_of c mod 64"
    and "x' \<equiv> byte_of a mod 4 * 16" and "y' \<equiv> byte_of b mod 16 * 4"
  shows "0 \<le> w \<and> w < 64" "0 \<le> x \<and> x < 64" "0 \<le> y \<and> y < 64" "0 \<le> z \<and> z < 64" "0 \<le> x' \<and> x' < 64" "0 \<le> y' \<and> y' < 64"
    "w * 4 + x div 16 = byte_of a" "x mod 16 * 16 + y div 4 = byte_of b" "y mod 4 * 64 + z = byte_of c"
    "w * 4 + x' div 16 = byte_of a" "x mod 16 * 16 + y' div 4 = byte_of b"
proof -
  note r = byte_of_range [of a] byte_of_range [of b] byte_of_range [of c]
  note p = byte_parts [OF r(1,2)] byte_parts [OF r(3,4)] byte_parts [OF r(5,6)] and g = sextet_groups [OF r]
  show "0 \<le> w \<and> w < 64" "0 \<le> z \<and> z < 64" using p unfolding w_def z_def by blast+
  have pos: "0 \<le> k * m + n" if "0 \<le> k" "0 \<le> m" "0 \<le> n" for k m n :: int using that by simp
  have m: "0 \<le> byte_of a mod 4" "0 \<le> byte_of b div 16" "0 \<le> byte_of b mod 16" "0 \<le> byte_of c div 64" using p by blast+
  have "0 \<le> x" "0 \<le> y" "0 \<le> byte_of a mod 4 * 16 + 0" "0 \<le> byte_of b mod 16 * 4 + 0"
    unfolding x_def y_def by (rule pos, rule m, rule zero_le_numeral, (rule m | rule order_refl))+
  then show "0 \<le> x \<and> x < 64" "0 \<le> y \<and> y < 64" "0 \<le> x' \<and> x' < 64" "0 \<le> y' \<and> y' < 64"
    using g(1) unfolding x_def y_def x'_def y'_def by (simp_all only: add_0_right simp_thms)
  show "w * 4 + x div 16 = byte_of a" "x mod 16 * 16 + y div 4 = byte_of b" "y mod 4 * 64 + z = byte_of c"
    unfolding w_def x_def y_def z_def g(2-5) by (rule div_mult_mod_eq)+
  show "w * 4 + x' div 16 = byte_of a" "x mod 16 * 16 + y' div 4 = byte_of b"
    unfolding w_def x_def x'_def y'_def g(2-5) by simp_all
qed

lemmas sextet_bytes =
  sextet [OF byte_sextets(1) [THEN conjunct1] byte_sextets(1) [THEN conjunct2]]
  sextet [OF byte_sextets(2) [THEN conjunct1] byte_sextets(2) [THEN conjunct2]]
  sextet [OF byte_sextets(3) [THEN conjunct1] byte_sextets(3) [THEN conjunct2]]
  sextet [OF byte_sextets(4) [THEN conjunct1] byte_sextets(4) [THEN conjunct2]]
  sextet [OF byte_sextets(5) [THEN conjunct1] byte_sextets(5) [THEN conjunct2]]
  sextet [OF byte_sextets(6) [THEN conjunct1] byte_sextets(6) [THEN conjunct2]]

lemma b64_sextets:
  "Option.bind (b64_vals (filter (\<lambda>c. c \<noteq> CHR 0x0A \<and> c \<noteq> CHR 0x0D) (b64_encode s))) b64_bytes = Some s \<and>
   CHR ''.'' \<notin> set (b64_encode s)"
proof (induction s rule: b64_encode.induct)
  case 1
  then show ?case by simp
next
  case (2 a)
  have "b64_bytes [byte_of a div 4, byte_of a mod 4 * 16] = Some [a]"
    by (simp only: b64_bytes.simps byte_sextets(7-11) byte_char_byte)
  then show ?case by (simp add: sextet_bytes del: b64_bytes.simps)
next
  case (3 a b)
  have "b64_bytes [byte_of a div 4, byte_of a mod 4 * 16 + byte_of b div 16, byte_of b mod 16 * 4] = Some [a, b]"
    by (simp only: b64_bytes.simps byte_sextets(7-11) byte_char_byte)
  then show ?case by (simp add: sextet_bytes del: b64_bytes.simps)
next
  case (4 a b c r)
  obtain ns where ns: "b64_vals (filter (\<lambda>c. c \<noteq> CHR 0x0A \<and> c \<noteq> CHR 0x0D) (b64_encode r)) = Some ns"
    "b64_bytes ns = Some r" "CHR ''.'' \<notin> set (b64_encode r)" using 4 by (auto simp: bind_eq_Some_conv)
  have "b64_bytes (byte_of a div 4 # (byte_of a mod 4 * 16 + byte_of b div 16) #
      (byte_of b mod 16 * 4 + byte_of c div 64) # (byte_of c mod 64) # ns) = Some (a # b # c # r)"
    by (simp only: b64_bytes.simps byte_sextets(7-11) byte_char_byte ns option.map)
  then show ?case by (simp add: sextet_bytes ns(1,3) del: b64_bytes.simps)
qed

lemma b64_roundtrip [simp]: "b64_decode (b64_encode s) = Some s"
  using b64_sextets [of s] by (simp add: b64_decode_def)

lemma b64_no_dot [simp]: "CHR ''.'' \<notin> set (b64_encode s)"
  using b64_sextets [of s] by blast

lemma b64_nonempty [simp]: "b64_encode s = [] \<longleftrightarrow> s = []"
  by (cases s rule: b64_encode.cases) auto

lemma hex_roundtrip [simp]: "hex_decode (hex_encode s) = Some s"
proof (induction s)
  case Nil
  then show ?case by (simp add: hex_encode_def)
next
  case (Cons c s)
  have "hex_encode (c # s) = hex_digit (byte_of c div 16) # hex_digit (byte_of c mod 16) # hex_encode s"
    by (simp add: hex_encode_def)
  then show ?case
    using Cons byte_parts [OF byte_of_range [of c]] by (simp add: hex_val_hex_digit)
qed

text \<open>A statement about one byte, by going through all of them.\<close>

lemma all_bytes: "list_all P (map byte_char [0..255]) \<Longrightarrow> P c"
proof -
  assume all: "list_all P (map byte_char [0..255])"
  have "byte_of c \<in> set [0..255]" using byte_of_range [of c] by simp
  then have "byte_char (byte_of c) \<in> set (map byte_char [0..255])" unfolding set_map by (rule imageI)
  from all [unfolded list_all_iff, rule_format, OF this] show ?thesis by (simp only: byte_char_byte)
qed

lemma lower_hex: "lower_char c = c \<longrightarrow> (case hex_val c of None \<Rightarrow> True | Some n \<Rightarrow> hex_digit n = c \<and> 0 \<le> n \<and> n < 16)"
  by (rule all_bytes) code_simp

lemma byte_of_byte_char: "0 \<le> n \<Longrightarrow> n < 256 \<Longrightarrow> byte_of (byte_char n) = n"
  by (simp add: byte_char_of byte_of_char)

lemma hex_decode_lower:
  "hex_decode s = Some p \<Longrightarrow> stringLower s = s \<Longrightarrow> hex_encode p = s"
proof (induction s arbitrary: p rule: hex_decode.induct)
  case (3 a b r)
  from 3(2) obtain x y q where h: "hex_val a = Some x" "hex_val b = Some y" "hex_decode r = Some q"
    "p = byte_char (x * 16 + y) # q"
    by (auto simp: bind_eq_Some_conv)
  have low: "lower_char a = a" "lower_char b = b" "stringLower r = r" using 3(3) by (simp_all add: stringLower_def)
  have d: "hex_digit x = a" "0 \<le> x" "x < 16" "hex_digit y = b" "0 \<le> y" "y < 16"
    using lower_hex [of a] lower_hex [of b] low h by simp_all
  have "byte_of (byte_char (x * 16 + y)) = x * 16 + y" using d by (intro byte_of_byte_char) simp_all
  moreover have "hex_encode q = r" using 3(1) h low by simp
  ultimately show ?case using d h div_mod_digits [of y 16 x] by (simp add: hex_encode_def)
qed (simp_all add: hex_encode_def)

lemma length_hex_encode [simp]: "length (hex_encode s) = 2 * length s"
  by (induction s) (simp_all add: hex_encode_def)

lemma lower_hex_digit: "0 \<le> n \<Longrightarrow> n < 16 \<Longrightarrow> lower_char (hex_digit n) = hex_digit n"
proof -
  have all: "list_all (\<lambda>n. lower_char (hex_digit n) = hex_digit n) [0..15]" by code_simp
  assume "0 \<le> n" "n < 16"
  then have "n \<in> set [0..15]" by simp
  from all [unfolded list_all_iff, rule_format, OF this] show ?thesis .
qed

lemma stringLower_hex: "stringLower (hex_encode s) = hex_encode s"
proof (induction s)
  case (Cons c s)
  then show ?case using byte_parts [OF byte_of_range [of c]]
    by (simp add: hex_encode_def stringLower_def lower_hex_digit)
qed (simp add: hex_encode_def stringLower_def)

text \<open>The difference of two instants wraps, but a wrapped difference is never a small one.\<close>

lemma wrap64_small:
  assumes "- (2 ^ 63) \<le> a" "a < 2 ^ 63" "- (2 ^ 62) \<le> b" "b < 2 ^ 62" "0 \<le> m" "m < 2 ^ 62"
  shows "- m \<le> wrap64 (b - a) \<and> wrap64 (b - a) \<le> m \<longleftrightarrow> - m \<le> b - a \<and> b - a \<le> m"
proof -
  have "wrap64 (b - a) = b - a \<or> wrap64 (b - a) = b - a + 2 ^ 64 \<and> b - a < - (2 ^ 63) \<or>
      wrap64 (b - a) = b - a - 2 ^ 64 \<and> 2 ^ 63 \<le> b - a"
  proof -
    consider "b - a < - (2 ^ 63)" | "- (2 ^ 63) \<le> b - a" "b - a < 2 ^ 63" | "2 ^ 63 \<le> b - a" by linarith
    then show ?thesis
    proof cases
      case 1
      have "(b - a + 2 ^ 63) mod 2 ^ 64 = (b - a + 2 ^ 63 + 2 ^ 64) mod 2 ^ 64" by (rule mod_add_self2 [symmetric])
      also have "\<dots> = b - a + 2 ^ 63 + 2 ^ 64" using 1 assms by (intro mod_pos_pos_trivial) simp_all
      finally show ?thesis using 1 by (simp add: wrap64_def)
    next
      case 2
      then have "(b - a + 2 ^ 63) mod 2 ^ 64 = b - a + 2 ^ 63" by (intro mod_pos_pos_trivial) simp_all
      then show ?thesis by (simp add: wrap64_def)
    next
      case 3
      have "(b - a + 2 ^ 63) mod 2 ^ 64 = (b - a + 2 ^ 63 - 2 ^ 64) mod 2 ^ 64" by (rule minus_mod_self2 [symmetric])
      also have "\<dots> = b - a + 2 ^ 63 - 2 ^ 64" using 3 assms by (intro mod_pos_pos_trivial) simp_all
      finally show ?thesis using 3 by (simp add: wrap64_def)
    qed
  qed
  then show ?thesis using assms by auto
qed

lemma parse_int64_range: "parse_int64 s = Some n \<Longrightarrow> - (2 ^ 63) \<le> n \<and> n < 2 ^ 63"
  by (simp add: parse_int64_def Let_def split: if_splits)

lemma parse_int_range: "parse_int s = Some n \<Longrightarrow> - (2 ^ 63) \<le> n \<and> n < 2 ^ 63"
  by (auto simp: parse_int_def split: list.splits if_splits dest: parse_int64_range)

section \<open>Tokens round trip\<close>

lemma claims_keys:
  "fold_key ''v'' = ''v''" "fold_key ''app_id'' = ''app_id''" "fold_key ''scopes'' = ''scopes''"
  "fold_key ''iat'' = ''iat''" "fold_key ''exp'' = ''exp''" "fold_key ''client_id'' = ''client_id''"
  "fold_key ''channels'' = ''channels''"
  by code_simp+

lemma decode_strings_print: "decode_strings (annotate (JArr (map JStr ss))) x = Some ss"
proof -
  have "decode_string_items (map (annotate \<circ> JStr) ss) = Some ss"
    by (induction ss) (simp_all add: decode_string_def)
  then show ?thesis by (simp add: decode_strings_def)
qed

lemma map_put_new: "k \<notin> fst ` set m \<Longrightarrow> map_put k v m = m @ [(k, v)]"
  by (induction m) auto

lemma capability_members_simps [simp]:
  "capability_members [] = []"
  "capability_members ((k, acts) # cs) = (k, [], JArr (map JStr acts)) # capability_members cs"
  "map fst (capability_members cs) = map fst cs"
  by (simp_all add: capability_members_def case_prod_unfold)

lemma decode_capabilities_print:
  "distinct (map fst cs) \<Longrightarrow> fst ` set cs \<inter> fst ` set m = {} \<Longrightarrow>
   decode_capabilities (map (\<lambda>(k, raw, v). (k, json_print v, annotate v)) (capability_members cs)) m = Some (m @ cs)"
proof (induction cs arbitrary: m)
  case (Cons c cs)
  obtain k acts where c: "c = (k, acts)" by (cases c)
  have "decode_capabilities (map (\<lambda>(k, raw, v). (k, json_print v, annotate v)) (capability_members cs))
      (m @ [(k, acts)]) = Some ((m @ [(k, acts)]) @ cs)"
    using Cons(2,3) c by (intro Cons.IH) auto
  moreover have "map_put k acts m = m @ [(k, acts)]" using Cons(3) c by (intro map_put_new) auto
  ultimately show ?case
    using decode_strings_print [of acts "[]"] by (simp add: c del: annotate.simps)
qed simp

lemma distinct_sort_fst: "distinct (map fst (sort_key fst cs)) = distinct (map fst cs)"
  by (simp add: distinct_map)

lemma capabilities_wf: "distinct (map fst cs) \<Longrightarrow> json_wf (capabilities_json cs)"
  using distinct_sort_fst [of cs] by (auto simp: capabilities_json_def capability_members_def list_all_iff case_prod_unfold comp_def)

lemma fold_max_le: "(\<And>x. x \<in> set xs \<Longrightarrow> x \<le> b) \<Longrightarrow> a \<le> b \<Longrightarrow> fold max xs a \<le> (b :: int)"
  by (induction xs arbitrary: a) auto

lemma depth_strings: "json_depth (annotate (JArr (map JStr ss))) \<le> 1"
  by (auto intro!: fold_max_le)

lemma depth_obj:
  "(\<And>k raw v. (k, raw, v) \<in> set ms \<Longrightarrow> json_depth (annotate v) \<le> b) \<Longrightarrow> 0 \<le> b \<Longrightarrow> json_depth (annotate (JObj ms)) \<le> 1 + b"
  by (auto intro!: fold_max_le)

lemma claims_depth: "json_depth (annotate (claims_json c)) \<le> 10000"
proof -
  have cap: "json_depth (annotate (capabilities_json cs)) \<le> 1 + 1" for cs
    unfolding capabilities_json_def
    by (rule depth_obj) (auto simp: capability_members_def intro: depth_strings simp del: annotate.simps(1))
  have "json_depth (annotate (claims_json c)) \<le> 1 + 2"
    unfolding claims_json_def
    using depth_strings [of "tc_scopes c"] cap [of "tc_channels c"]
    by (intro depth_obj) (auto simp del: annotate.simps(1) split: if_splits)
  then show ?thesis by simp
qed

lemma unmarshal_claims_print:
  assumes "\<bar>tc_version c\<bar> < 2 ^ 63" "\<bar>tc_issued_at c\<bar> < 2 ^ 63" "\<bar>tc_expires_at c\<bar> < 2 ^ 63"
    and "distinct (map fst (tc_channels c))"
  shows "unmarshal_claims (json_print (claims_json c)) =
    Some (c\<lparr>tc_channels := sort_key fst (tc_channels c)\<rparr>)"
proof -
  have wf: "json_wf (claims_json c)"
    using capabilities_wf [OF assms(4)] by (auto simp: claims_json_def show_int_literal list_all_iff)
  have n: "parse_int64 (show_int (tc_version c)) = Some (tc_version c)"
    "parse_int64 (show_int (tc_issued_at c)) = Some (tc_issued_at c)"
    "parse_int64 (show_int (tc_expires_at c)) = Some (tc_expires_at c)"
    using assms(1-3) by (auto intro!: parse_int64_show)
  have ch: "decode_capabilities (map (\<lambda>(k, raw, v). (k, json_print v, annotate v))
      (capability_members (sort_key fst (tc_channels c)))) [] = Some (sort_key fst (tc_channels c))"
    using decode_capabilities_print [of "sort_key fst (tc_channels c)" "[]"] assms(4) by (simp add: distinct_sort_fst)
  have "decode_struct claims_field (annotate (claims_json c)) empty_claims =
      Some (c\<lparr>tc_channels := sort_key fst (tc_channels c)\<rparr>)"
    using decode_strings_print [of "tc_scopes c"]
    by (simp add: claims_json_def decode_struct_def claims_field_def claims_keys decode_int_def decode_string_def n ch
        empty_claims_def capabilities_json_def)
  then show ?thesis
    using parse_json_print [OF wf claims_depth, of False] by (simp add: unmarshal_claims_def)
qed

lemma capabilities_sort: "validateChannelCapabilities (sort_key fst cs) = validateChannelCapabilities cs"
proof -
  have "sort_key fst cs = [] \<longleftrightarrow> cs = []" by (metis length_0_conv length_sort)
  then show ?thesis by (simp add: validateChannelCapabilities_def list_all_iff)
qed

lemma ttl_seconds:
  assumes "0 < ttl" and "ttl \<le> 15 * minute" and "ttl mod second = 0"
  shows "(now - now mod second + ttl) div second = now div second + ttl div second"
    "0 < ttl div second" "ttl div second \<le> 900" "(now - now mod second) div second = now div second"
proof -
  obtain k where k: "ttl = second * k" using assms(3) by (metis dvd_def mod_0_imp_dvd)
  have n: "now - now mod second = second * (now div second)" by (simp add: minus_mod_eq_mult_div)
  show "(now - now mod second + ttl) div second = now div second + ttl div second"
  proof -
    have "second * (now div second) + second * k = (now div second + k) * second" by (simp add: algebra_simps)
    then show ?thesis unfolding n k by (simp only: nonzero_mult_div_cancel_right nonzero_mult_div_cancel_left)
  qed
  show "0 < ttl div second" "ttl div second \<le> 900" using assms(1,2) by (simp_all add: k)
  show "(now - now mod second) div second = now div second" by (simp add: n)
qed

lemma issue_ok:
  "appID \<noteq> [] \<Longrightarrow> 0 < ttl \<Longrightarrow> ttl \<le> 15 * minute \<Longrightarrow> ttl mod second = 0 \<Longrightarrow> validateScopes scopes \<Longrightarrow>
   \<exists>token. issue mac secret now appID scopes clientID channels ttl = Inr token"
  by (simp add: issue_def MaxTokenTTL_def Let_def)

lemma wrap64_id: "- (2 ^ 63) \<le> n \<Longrightarrow> n < 2 ^ 63 \<Longrightarrow> wrap64 n = n"
  by (simp add: wrap64_def)

section \<open>Properties\<close>

text \<open>
  C30.  A signed request is accepted exactly when it should be.  Verification succeeds if and only if the
  timestamp is a 64-bit decimal number, it is within the allowed skew of the clock in both directions,
  and the signature is the lower-case hexadecimal HMAC of the canonical request.  The subtraction of the
  timestamps wraps around at 64 bits, and no timestamp, however extreme, uses that to pass.
\<close>

theorem signature_verification_exact:
  assumes "\<bar>now div second\<bar> < 2 ^ 62" and "maxSkew div second < 2 ^ 62" and "\<And>k m. length (mac k m) = 32"
  shows "Verify sha mac secret timestamp meth target signature body now maxSkew = None \<longleftrightarrow>
    (\<exists>t. parse_int timestamp = Some t \<and> 0 \<le> maxSkew \<and> \<bar>now div second - t\<bar> \<le> maxSkew div second \<and>
         signature = Sign sha mac secret timestamp meth target body)"
proof (cases "parse_int timestamp")
  case None
  then show ?thesis by (simp add: Verify_def)
next
  case (Some t)
  let ?sig = "Sign sha mac secret timestamp meth target body"
  let ?d = "now div second - t" and ?m = "maxSkew div second"
  have ne: "timestamp \<noteq> []" using Some by (auto simp: parse_int_def)
  have sig: "length ?sig = 64" "stringLower ?sig = ?sig" "\<exists>e. hex_decode ?sig = Some e \<and> length e = 32"
    using assms(3) by (simp_all add: Sign_def Let_def stringLower_hex)
  have skew: "0 \<le> maxSkew \<Longrightarrow> \<not> (wrap64 ?d > ?m \<or> wrap64 ?d < - ?m) \<longleftrightarrow> \<bar>?d\<bar> \<le> ?m"
  proof -
    assume "0 \<le> maxSkew"
    then have "0 \<le> ?m" by simp
    moreover have "- (2 ^ 62) \<le> now div second" "now div second < 2 ^ 62" using assms(1) by linarith+
    ultimately have "- ?m \<le> wrap64 ?d \<and> wrap64 ?d \<le> ?m \<longleftrightarrow> - ?m \<le> ?d \<and> ?d \<le> ?m"
      using wrap64_small [of t "now div second" ?m] parse_int_range [OF Some] assms(2) by blast
    then show ?thesis by linarith
  qed
  show ?thesis
  proof (cases "signature = ?sig")
    case True
    then show ?thesis using Some ne sig skew by (auto simp: Verify_def Let_def)
  next
    case False
    have "hex_decode signature \<noteq> hex_decode ?sig" if "stringLower signature = signature" "hex_decode signature = Some p" for p
      using hex_decode_lower [OF that(2,1)] hex_decode_lower [OF _ sig(2)] False that(2) by auto
    then show ?thesis using Some ne False sig(3) by (auto simp: Verify_def Let_def split: option.splits)
  qed
qed

definition toy_mac :: "string \<Rightarrow> string \<Rightarrow> string" where
  "toy_mac k m = take 32 (k @ m @ replicate 32 CHR ''='')"

lemma length_toy_mac [simp]: "length (toy_mac k m) = 32"
  by (simp add: toy_mac_def)

theorem signature_verification_exact_witness:
  "Verify id toy_mac ''k'' ''100'' ''POST'' ''/e'' (Sign id toy_mac ''k'' ''100'' ''POST'' ''/e'' ''b'') ''b''
     (103 * second) (5 * second) = None \<and>
   Verify id toy_mac ''k'' ''100'' ''POST'' ''/e'' (Sign id toy_mac ''k'' ''100'' ''POST'' ''/e'' ''b'') ''b''
     (93 * second) (5 * second) \<noteq> None"
proof -
  have t: "parse_int ''100'' = Some 100" by code_simp
  show ?thesis
    using t signature_verification_exact [of "103 * second" "5 * second" toy_mac id "''k''" "''100''" "''POST''" "''/e''" _ "''b''"]
      signature_verification_exact [of "93 * second" "5 * second" toy_mac id "''k''" "''100''" "''POST''" "''/e''" _ "''b''"]
    by simp
qed

text \<open>
  C28.  A token that was issued verifies until it expires.  Whatever application, scopes, client and
  capabilities it was issued for, the issuer that holds the same secret reads exactly those claims back
  from the token text, with the capabilities in key order, at every instant before the expiry, when no
  scope is required or the required one is among the token's.
\<close>

theorem token_roundtrip:
  assumes iss: "issue mac secret now appID scopes clientID channels ttl = Inr token"
    and len: "\<And>k m. length (mac k m) = 32" and now: "\<bar>now div second\<bar> < 2 ^ 62"
    and cap: "clientID = [] \<and> channels = [] \<or>
      validClientID clientID \<and> validateChannelCapabilities channels \<and> distinct (map fst channels)"
    and fresh: "now' div second < now div second + ttl div second"
    and scope: "required = [] \<or> required \<in> set scopes"
  shows "TokenIssuer_Verify mac secret now' token required =
    Inr \<lparr>tc_version = 1, tc_app_id = appID, tc_scopes = scopes, tc_issued_at = now div second,
         tc_expires_at = now div second + ttl div second, tc_client_id = clientID,
         tc_channels = sort_key fst channels\<rparr>"
proof -
  have pre: "appID \<noteq> []" "0 < ttl" "ttl \<le> 15 * minute" "ttl mod second = 0" "validateScopes scopes"
    using iss by (auto simp: issue_def MaxTokenTTL_def split: if_splits)
  note t = ttl_seconds [OF pre(2-4)]
  define c where "c = \<lparr>tc_version = 1, tc_app_id = appID, tc_scopes = scopes, tc_issued_at = now div second,
         tc_expires_at = now div second + ttl div second, tc_client_id = clientID, tc_channels = channels\<rparr>"
  define c' where "c' = c\<lparr>tc_channels := sort_key fst channels\<rparr>"
  let ?h = "b64_encode token_header" and ?p = "b64_encode (json_print (claims_json c))"
  have token: "token = ?h @ ''.'' @ ?p @ ''.'' @ b64_encode (mac secret (?h @ ''.'' @ ?p))"
    using iss pre by (simp add: issue_def MaxTokenTTL_def Let_def c_def t)
  have parts: "split_on CHR ''.'' token = [?h, ?p, b64_encode (mac secret (?h @ ''.'' @ ?p))]"
    unfolding token by (simp add: split_on_append split_on_free)
  have ne: "?h \<noteq> []" "?p \<noteq> []" "b64_encode (mac secret (?h @ ''.'' @ ?p)) \<noteq> []"
    using len [of secret "?h @ ''.'' @ ?p"] by (auto simp: token_header_def claims_json_def)
  have "distinct (map fst channels)" using cap by auto
  then have dec: "unmarshal_claims (json_print (claims_json c)) = Some c'"
    using unmarshal_claims_print [of c] now t(2,3) by (simp add: c_def c'_def)
  have keys: "sort_key fst channels = [] \<longleftrightarrow> channels = []" by (metis length_0_conv length_sort)
  have w: "wrap64 (ttl div second) = ttl div second" using t(2,3) by (intro wrap64_id) simp_all
  have "(clientID = []) = (channels = [])"
    "clientID \<noteq> [] \<Longrightarrow> validClientID clientID \<and> validateChannelCapabilities channels"
    using cap by (auto simp: validClientID_def validateChannelCapabilities_def)
  then have ok: "claims_ok c'"
    using pre(1,5) t(2,3) keys w
    by (auto simp: claims_ok_def c_def c'_def capabilities_sort MaxTokenTTL_def)
  have "TokenIssuer_Verify mac secret now' token required =
      (if now' div second \<ge> tc_expires_at c' then Inl ErrTokenExpired
       else if required \<noteq> [] \<and> required \<notin> set (tc_scopes c') then Inl ErrMissingScope else Inr c')"
    using ne len dec ok unfolding TokenIssuer_Verify_def parts by simp
  then show ?thesis using fresh scope by (auto simp: c_def c'_def)
qed

theorem token_roundtrip_witness:
  "\<exists>token. IssueRealtime toy_mac ''k'' (1000 * second + 5) ''app'' ''cl'' [(''room:b'', [''publish'']), (''room:a'', [''subscribe''])]
      (60 * second) = Inr token \<and>
    TokenIssuer_Verify toy_mac ''k'' (1059 * second) token ''ws:connect'' =
      Inr \<lparr>tc_version = 1, tc_app_id = ''app'', tc_scopes = [''ws:connect''], tc_issued_at = 1000, tc_expires_at = 1060,
           tc_client_id = ''cl'', tc_channels = [(''room:a'', [''subscribe'']), (''room:b'', [''publish''])]\<rparr>"
proof -
  let ?cs = "[(''room:b'', [''publish'']), (''room:a'', [''subscribe''])]"
  have v: "validClientID ''cl''" "validateChannelCapabilities ?cs" "validateScopes [''ws:connect'']" by code_simp+
  obtain token where iss: "issue toy_mac ''k'' (1000 * second + 5) ''app'' [''ws:connect''] ''cl'' ?cs (60 * second) = Inr token"
    using issue_ok [of "''app''" "60 * second" "[''ws:connect'']" toy_mac "''k''" "1000 * second + 5" "''cl''" ?cs] v(3)
    by auto
  have srt: "sort_key fst ?cs = [(''room:a'', [''subscribe'']), (''room:b'', [''publish''])]" by code_simp
  have d: "distinct (map fst ?cs)" by code_simp
  have n: "(1000 * second + 5) div second = (1000 :: int)" "60 * second div second = (60 :: int)" by simp_all
  have "TokenIssuer_Verify toy_mac ''k'' (1059 * second) token ''ws:connect'' =
      Inr \<lparr>tc_version = 1, tc_app_id = ''app'', tc_scopes = [''ws:connect''], tc_issued_at = (1000 * second + 5) div second,
           tc_expires_at = (1000 * second + 5) div second + 60 * second div second,
           tc_client_id = ''cl'', tc_channels = sort_key fst ?cs\<rparr>"
  proof (rule token_roundtrip [OF iss])
    show "''cl'' = [] \<and> ?cs = [] \<or> validClientID ''cl'' \<and> validateChannelCapabilities ?cs \<and> distinct (map fst ?cs)"
      using v d by blast
  qed simp_all
  then have "TokenIssuer_Verify toy_mac ''k'' (1059 * second) token ''ws:connect'' =
      Inr \<lparr>tc_version = 1, tc_app_id = ''app'', tc_scopes = [''ws:connect''], tc_issued_at = 1000, tc_expires_at = 1060,
           tc_client_id = ''cl'', tc_channels = [(''room:a'', [''subscribe'']), (''room:b'', [''publish''])]\<rparr>"
    unfolding n srt by simp
  moreover have "IssueRealtime toy_mac ''k'' (1000 * second + 5) ''app'' ''cl'' ?cs (60 * second) = Inr token"
    using iss v(1,2) by (simp only: IssueRealtime_def simp_thms if_False)
  ultimately show ?thesis by blast
qed

end
