(* ===== verification/Callbacks.thy ===== *)
theory Callbacks
  imports Outbox Auth
begin

text \<open>
  Webhook deliveries.  The store side (\<^verbatim>\<open>store/postgres/callbacks.go\<close>) leases an attempt, records its
  outcome and the publication of a dead letter; \<^verbatim>\<open>delivery/classify.go\<close> and \<^verbatim>\<open>delivery/callback.go\<close> make the
  HTTP request and judge its outcome; the worker (\<^verbatim>\<open>worker/jetstream.go\<close>) drives the three for one broker
  message.
\<close>

section \<open>Store operations\<close>

definition postgresTime :: "time \<Rightarrow> time" where "postgresTime = truncate_us"

definition CallbackFinishMargin :: duration where "CallbackFinishMargin = second"

record callback_dispatch =
  cd_delivery_id :: string
  cd_public_job_id :: string
  cd_target_app_id :: string
  cd_attempt :: int
  cd_generation :: int
  cd_token :: string
  cd_lease_expires_at :: time
  cd_retry_at :: time
  cd_reason :: string
  cd_dlq_published :: bool
  cd_app :: application
  cd_event :: event
  cd_body :: string
  cd_secret :: string
  cd_credential_version :: int

datatype callback_disposition =
    CallbackDispatchReady | CallbackDispatchBusy | CallbackDispatchComplete | CallbackDispatchDeadLetter

text \<open>The row of the join: delivery, application, event, outbox row and the credential in force, if any.\<close>

definition callback_join ::
    "db \<Rightarrow> string \<Rightarrow> (delivery \<times> application \<times> event_row \<times> outbox_row \<times> credential option) option" where
  "callback_join s deliveryID =
     (case sql_row (\<lambda>d. d_id d = deliveryID \<and> d_sink d = CallbackSink) (deliveries s) of
        None \<Rightarrow> None
      | Some d \<Rightarrow>
          (case (sql_row (\<lambda>a. app_id a = d_target_app_id d) (applications s),
                 sql_row (\<lambda>e. ev_id e = d_event_id d) (events s),
                 sql_row (\<lambda>r. ob_delivery_id r = d_id d) (outbox s)) of
             (Some a, Some e, Some r) \<Rightarrow>
               Some (d, a, e, r, sql_row (\<lambda>c. cr_app_id c = app_id a \<and> cr_revoked_at c = None) (credentials s))
           | _ \<Rightarrow> None))"

definition loaded_dispatch :: "delivery \<Rightarrow> application \<Rightarrow> string \<Rightarrow> event \<Rightarrow> callback_dispatch" where
  "loaded_dispatch d a body e =
     \<lparr>cd_delivery_id = d_id d, cd_public_job_id = d_public_job_id d, cd_target_app_id = d_target_app_id d,
      cd_attempt = d_attempts d, cd_generation = d_generation d,
      cd_token = coalesce (d_callback_token d) [],
      cd_lease_expires_at = coalesce (d_callback_expires_at d) zero_time,
      cd_retry_at = coalesce (d_callback_retry_at d) zero_time,
      cd_reason = coalesce (d_callback_reason d) [],
      cd_dlq_published = (d_callback_dlq_published_at d \<noteq> None),
      cd_app = a, cd_event = e, cd_body = body, cd_secret = [], cd_credential_version = 0\<rparr>"

definition callback_lifecycle :: "string \<Rightarrow> string \<Rightarrow> string option \<Rightarrow> int option \<Rightarrow> time \<Rightarrow> delivery \<Rightarrow> delivery_event" where
  "callback_lifecycle typ outcome reason attempt now d =
     \<lparr>dl_delivery_id = d_id d, dl_generation = d_generation d, dl_type = typ, dl_outcome = outcome,
      dl_reason = reason, dl_attempt = attempt, dl_occurred_at = now\<rparr>"

text \<open>The statement that moves the delivery to the dead letters without another attempt.\<close>

definition callback_dead_letter :: "string \<Rightarrow> string \<Rightarrow> time \<Rightarrow> db \<Rightarrow> db option" where
  "callback_dead_letter deliveryID reason now s =
     map_option
       (add_lifecycle
          (map (\<lambda>d. callback_lifecycle ''delivery.dead_lettered'' ''dead_letter'' (Some reason)
                      (if d_attempts d = 0 then None else Some (d_attempts d)) now d)
            (filter (\<lambda>d. d_id d = deliveryID) (deliveries s))))
       (update_deliveries (\<lambda>d. d_id d = deliveryID)
          (\<lambda>d. d\<lparr>d_status := DeadLetter, d_callback_reason := Some reason, d_callback_token := None,
                 d_callback_expires_at := None, d_updated_at := now\<rparr>) s)"

definition eligible :: "application \<Rightarrow> credential option \<Rightarrow> bool" where
  "eligible a c \<longleftrightarrow>
     app_enabled a \<and> (case app_callback_url a of None \<Rightarrow> False | Some u \<Rightarrow> u \<noteq> []) \<and>
     (app_delivery_mode a = DeliveryCallback \<or> app_delivery_mode a = DeliveryAll) \<and> c \<noteq> None"

text \<open>An attempt row that exists already is left alone (\<^verbatim>\<open>ON CONFLICT DO NOTHING\<close>).\<close>

definition insert_attempt :: "delivery_attempt \<Rightarrow> db \<Rightarrow> db" where
  "insert_attempt row s =
     (if sql_exists (\<lambda>x. da_delivery_id x = da_delivery_id row \<and> da_generation x = da_generation row \<and>
                         da_attempt x = da_attempt row) (delivery_attempts s)
      then s else s\<lparr>delivery_attempts := delivery_attempts s @ [row]\<rparr>)"

text \<open>\<open>decrypt\<close> is the cipher's \<^verbatim>\<open>Decrypt\<close>.\<close>

definition start_attempt ::
    "(string \<Rightarrow> string option) \<Rightarrow> db \<Rightarrow> delivery \<Rightarrow> callback_dispatch \<Rightarrow> credential \<Rightarrow> string \<Rightarrow> time \<Rightarrow> duration
     \<Rightarrow> (store_error + callback_dispatch \<times> callback_disposition) \<times> db" where
  "start_attempt decrypt s d result cr token now lease =
     (let attempt = cd_attempt result + 1; expires = postgresTime (now + lease) in
      case decrypt (cr_encrypted_hmac_secret cr) of
        None \<Rightarrow> (Inl ErrDB, s)
      | Some secret \<Rightarrow>
          (case update_deliveries (\<lambda>x. d_id x = d_id d)
                  (\<lambda>x. x\<lparr>d_status := Dispatched, d_attempts := attempt, d_callback_token := Some token,
                         d_callback_expires_at := Some expires, d_callback_retry_at := None,
                         d_callback_url := app_callback_url (cd_app result),
                         d_callback_credential_version := Some (cr_version cr),
                         d_callback_reason := None, d_updated_at := now\<rparr>) s of
             None \<Rightarrow> (Inl ErrDB, s)
           | Some s1 \<Rightarrow>
               (Inr (result\<lparr>cd_attempt := attempt, cd_token := token, cd_lease_expires_at := expires,
                            cd_retry_at := zero_time, cd_credential_version := cr_version cr,
                            cd_secret := secret\<rparr>, CallbackDispatchReady),
                add_lifecycle [callback_lifecycle ''callback.started'' ''started'' None (Some attempt) now d]
                  (insert_attempt
                     \<lparr>da_delivery_id = d_id d, da_generation = d_generation d, da_attempt = attempt,
                      da_outcome = ''started'', da_reason = None, da_callback_token = Some token,
                      da_created_at = now, da_updated_at = now\<rparr> s1))))"

text \<open>The decision on a loaded delivery.\<close>

definition callback_decide ::
    "(string \<Rightarrow> string option) \<Rightarrow> db \<Rightarrow> delivery \<Rightarrow> event_row \<Rightarrow> credential option \<Rightarrow> callback_dispatch \<Rightarrow> string \<Rightarrow> time
     \<Rightarrow> duration \<Rightarrow> (store_error + callback_dispatch \<times> callback_disposition) \<times> db" where
  "callback_decide decrypt s d e c result token now lease =
     (if d_status d = Acked \<or> d_status d = Delivered then (Inr (result, CallbackDispatchComplete), s)
      else if d_status d = DeadLetter then (Inr (result, CallbackDispatchDeadLetter), s)
      else if cd_retry_at result \<noteq> zero_time \<and> now < cd_retry_at result
      then (Inr (result, CallbackDispatchBusy), s)
      else if cd_token result \<noteq> [] \<and> now < cd_lease_expires_at result
      then (Inr (result\<lparr>cd_retry_at := cd_lease_expires_at result\<rparr>, CallbackDispatchBusy), s)
      else if \<not> now < ev_expires_at e \<or> cd_attempt result \<ge> 6 then
        let reason = (if cd_attempt result \<ge> 6 then ''attempts_exhausted'' else ''event_expired'') in
        (case callback_dead_letter (d_id d) reason now s of
           None \<Rightarrow> (Inl ErrDB, s)
         | Some s' \<Rightarrow> (Inr (result\<lparr>cd_reason := reason\<rparr>, CallbackDispatchDeadLetter), s'))
      else if \<not> eligible (cd_app result) c then
        (case callback_dead_letter (d_id d) ''callback_disabled'' now s of
           None \<Rightarrow> (Inl ErrDB, s)
         | Some s' \<Rightarrow> (Inr (result\<lparr>cd_reason := ''callback_disabled''\<rparr>, CallbackDispatchDeadLetter), s'))
      else start_attempt decrypt s d result (the c) token now lease)"

definition BeginCallbackAttempt ::
    "(string \<Rightarrow> string option) \<Rightarrow> db \<Rightarrow> string \<Rightarrow> int \<Rightarrow> string \<Rightarrow> time \<Rightarrow> duration
     \<Rightarrow> (store_error + callback_dispatch \<times> callback_disposition) \<times> db" where
  "BeginCallbackAttempt decrypt s deliveryID generation token now0 lease =
     (if deliveryID = [] \<or> generation < 1 \<or> token = [] \<or> lease \<le> CallbackFinishMargin then (Inl ErrConflict, s)
      else
        let now = postgresTime now0 in
        case callback_join s deliveryID of
          None \<Rightarrow> (Inl ErrNotFound, s)
        | Some (d, a, e, r, c) \<Rightarrow>
            if d_generation d \<noteq> generation \<or> ob_generation r \<noteq> generation then (Inl ErrConflict, s)
            else case envelope_event_raw (ob_payload r) of
              None \<Rightarrow> (Inl ErrConflict, s)
            | Some body \<Rightarrow>
                if body = [] then (Inl ErrConflict, s)
                else case unmarshal_event body of
                  None \<Rightarrow> (Inl ErrConflict, s)
                | Some event \<Rightarrow>
                    callback_decide decrypt s d e c (loaded_dispatch d a body event) token now lease)"

record callback_transition =
  ct_status :: job_status
  ct_now :: time
  ct_retry_at :: time
  ct_reason :: string

definition nullableTime :: "time \<Rightarrow> time option" where
  "nullableTime t = (if t = zero_time then None else Some t)"

definition stringValue :: "string option \<Rightarrow> string" where "stringValue v = coalesce v []"

definition sameOptionalTime :: "time option \<Rightarrow> time \<Rightarrow> bool" where
  "sameOptionalTime v expected =
     (case v of None \<Rightarrow> expected = zero_time | Some t \<Rightarrow> t = postgresTime expected)"

definition finish_status :: "job_status \<Rightarrow> delivery_status" where
  "finish_status st = (if st = JobPending then Retrying else if st = JobDeadLetter then DeadLetter else Delivered)"

definition status_text :: "delivery_status \<Rightarrow> string" where
  "status_text st =
     (case st of Pending \<Rightarrow> ''pending'' | Dispatched \<Rightarrow> ''dispatched'' | Retrying \<Rightarrow> ''retrying''
      | Delivered \<Rightarrow> ''delivered'' | Acked \<Rightarrow> ''acked'' | DeadLetter \<Rightarrow> ''dead_letter'')"

definition holds_callback :: "string \<Rightarrow> int \<Rightarrow> string \<Rightarrow> int \<Rightarrow> time \<Rightarrow> delivery \<Rightarrow> bool" where
  "holds_callback deliveryID generation token attempt now d \<longleftrightarrow>
     d_id d = deliveryID \<and> d_sink d = CallbackSink \<and> d_generation d = generation \<and>
     d_callback_token d = Some token \<and> d_attempts d = attempt \<and> after_opt (d_callback_expires_at d) now"

definition finish_row :: "delivery_status \<Rightarrow> time \<Rightarrow> string \<Rightarrow> time \<Rightarrow> delivery \<Rightarrow> delivery" where
  "finish_row st retryAt reason now d =
     d\<lparr>d_status := st, d_callback_retry_at := nullableTime retryAt, d_callback_reason := Some reason,
       d_callback_token := None, d_callback_expires_at := None, d_updated_at := now\<rparr>"

definition attempt_key :: "string \<Rightarrow> int \<Rightarrow> int \<Rightarrow> delivery_attempt \<Rightarrow> bool" where
  "attempt_key i g n x \<longleftrightarrow> da_delivery_id x = i \<and> da_generation x = g \<and> da_attempt x = n"

definition FinishCallbackAttempt ::
    "db \<Rightarrow> string \<Rightarrow> int \<Rightarrow> string \<Rightarrow> int \<Rightarrow> callback_transition \<Rightarrow> (store_error + unit) \<times> db" where
  "FinishCallbackAttempt s deliveryID generation token attempt tr =
     (if ct_status tr \<noteq> JobDelivered \<and> ct_status tr \<noteq> JobPending \<and> ct_status tr \<noteq> JobDeadLetter then (Inl ErrConflict, s)
      else if ct_status tr = JobPending \<and> ct_retry_at tr = zero_time then (Inl ErrConflict, s)
      else
        let now = postgresTime (ct_now tr);
            retryAt = (if ct_retry_at tr = zero_time then zero_time else postgresTime (ct_retry_at tr));
            status = finish_status (ct_status tr);
            P = holds_callback deliveryID generation token attempt now in
        case update_deliveries P (finish_row status retryAt (ct_reason tr) now) s of
          None \<Rightarrow> (Inl ErrDB, s)
        | Some s1 \<Rightarrow>
            if sql_count P (deliveries s) \<noteq> 1 then
              (case (sql_row (\<lambda>d. d_id d = deliveryID \<and> d_generation d = generation \<and> d_attempts d = attempt) (deliveries s1),
                     sql_row (attempt_key deliveryID generation attempt) (delivery_attempts s1)) of
                 (Some d, Some a) \<Rightarrow>
                   if d_status d \<noteq> status \<or> da_outcome a \<noteq> status_text status \<or> da_callback_token a \<noteq> Some token \<or>
                      stringValue (da_reason a) \<noteq> ct_reason tr \<or> \<not> sameOptionalTime (d_callback_retry_at d) retryAt
                   then (Inl ErrConflict, s) else (Inr (), s1)
               | _ \<Rightarrow> (Inl ErrConflict, s))
            else if sql_count (attempt_key deliveryID generation attempt) (delivery_attempts s1) \<noteq> 1
            then (Inl ErrConflict, s)
            else
              let typ = (if status = Retrying then ''callback.retrying''
                         else if status = DeadLetter then ''delivery.dead_lettered'' else ''callback.delivered'') in
              (Inr (), add_lifecycle
                 [\<lparr>dl_delivery_id = deliveryID, dl_generation = generation, dl_type = typ, dl_outcome = status_text status,
                   dl_reason = Some (ct_reason tr), dl_attempt = Some attempt, dl_occurred_at = now\<rparr>]
                 (s1\<lparr>delivery_attempts := sql_update (attempt_key deliveryID generation attempt)
                      (\<lambda>x. x\<lparr>da_outcome := status_text status, da_reason := Some (ct_reason tr), da_updated_at := now\<rparr>)
                      (delivery_attempts s1)\<rparr>)))"

definition MarkCallbackDLQPublished :: "db \<Rightarrow> string \<Rightarrow> int \<Rightarrow> time \<Rightarrow> (store_error + unit) \<times> db" where
  "MarkCallbackDLQPublished s deliveryID generation now0 =
     (let now = postgresTime now0;
          P = (\<lambda>d. d_id d = deliveryID \<and> d_generation d = generation \<and> d_sink d = CallbackSink \<and> d_status d = DeadLetter) in
      case update_deliveries P
             (\<lambda>d. d\<lparr>d_callback_dlq_published_at := Some (coalesce (d_callback_dlq_published_at d) now),
                    d_updated_at := max (d_updated_at d) now\<rparr>) s of
        None \<Rightarrow> (Inl ErrDB, s)
      | Some s' \<Rightarrow> if sql_count P (deliveries s) \<noteq> 1 then (Inl ErrConflict, s') else (Inr (), s'))"

section \<open>One HTTP attempt\<close>

record delivery_result =
  dr_status :: int
  dr_retry_after :: string
  dr_err :: bool

datatype outcome_kind = OutcomeDelivered | OutcomeRetry | OutcomeDeadLetter

record delivery_outcome =
  oc_kind :: outcome_kind
  oc_retry_at :: time
  oc_reason :: string

definition MaxAttempts :: int where "MaxAttempts = 6"

definition retry_delays :: "duration list" where
  "retry_delays = [second, 5 * second, 15 * second, 60 * second, 300 * second]"

text \<open>\<open>parse_http_time\<close> is \<^verbatim>\<open>http.ParseTime\<close>.\<close>

definition retry_after_delay :: "(string \<Rightarrow> time option) \<Rightarrow> string \<Rightarrow> time \<Rightarrow> duration \<Rightarrow> duration" where
  "retry_after_delay parse_http_time header now delay =
     (let raw = go_trim_space header in
      case parse_int raw of
        Some secs \<Rightarrow>
          if secs \<ge> 0 then min secs 300 * second
          else (case parse_http_time raw of
                  Some at \<Rightarrow> if at < now then delay else min (at - now) (300 * second)
                | None \<Rightarrow> delay)
      | None \<Rightarrow>
          (case parse_http_time raw of
             Some at \<Rightarrow> if at < now then delay else min (at - now) (300 * second)
           | None \<Rightarrow> delay))"

definition Classify :: "(string \<Rightarrow> time option) \<Rightarrow> delivery_result \<Rightarrow> int \<Rightarrow> time \<Rightarrow> delivery_outcome" where
  "Classify parse_http_time r attempt now =
     (let status = dr_status r; err = dr_err r in
      if \<not> err \<and> status \<ge> 200 \<and> status < 300
      then \<lparr>oc_kind = OutcomeDelivered, oc_retry_at = zero_time, oc_reason = ''http_success''\<rparr>
      else if \<not> (err \<or> status = 408 \<or> status = 425 \<or> status = 429 \<or> status \<ge> 500 \<and> status \<le> 599)
      then \<lparr>oc_kind = OutcomeDeadLetter, oc_retry_at = zero_time, oc_reason = ''http_permanent''\<rparr>
      else
        let reason = (if err then ''transport_error'' else ''http_transient'') in
        if attempt \<ge> MaxAttempts
        then \<lparr>oc_kind = OutcomeDeadLetter, oc_retry_at = zero_time, oc_reason = ''attempts_exhausted''\<rparr>
        else
          let attempt = max attempt 1;
              delay = retry_delays ! nat (attempt - 1);
              delay = (if status = 429 \<and> \<not> err then retry_after_delay parse_http_time (dr_retry_after r) now delay else delay) in
          \<lparr>oc_kind = OutcomeRetry, oc_retry_at = now + delay, oc_reason = reason\<rparr>)"

text \<open>
  The request.  \<open>parse_url\<close> is \<^verbatim>\<open>net/url\<close>'s parser, and \<open>transport\<close> the HTTP client: the status and the
  header \<^verbatim>\<open>Retry-After\<close> of a response whose body could be read in time, or nothing.
\<close>

record parsed_url =
  url_scheme :: string
  url_host :: string
  url_has_user :: bool
  url_text :: string
  url_request_uri :: string

record http_request =
  hq_url :: string
  hq_headers :: "(string \<times> string) list"
  hq_body :: string

definition transport_error :: delivery_result where
  "transport_error = \<lparr>dr_status = 0, dr_retry_after = [], dr_err = True\<rparr>"

definition Deliver ::
    "(string \<Rightarrow> string) \<Rightarrow> (string \<Rightarrow> string \<Rightarrow> string) \<Rightarrow> (string \<Rightarrow> parsed_url option)
     \<Rightarrow> (http_request \<Rightarrow> (int \<times> string) option) \<Rightarrow> time \<Rightarrow> callback_dispatch \<Rightarrow> delivery_result" where
  "Deliver sha mac parse_url transport now input =
     (case app_callback_url (cd_app input) of
        None \<Rightarrow> transport_error
      | Some text \<Rightarrow>
          (case parse_url text of
             None \<Rightarrow> transport_error
           | Some u \<Rightarrow>
               if url_host u = [] \<or> url_has_user u \<or> (url_scheme u \<noteq> ''http'' \<and> url_scheme u \<noteq> ''https'')
               then transport_error
               else
                 let timestamp = show_int (now div second) in
                 (case transport
                    \<lparr>hq_url = url_text u,
                     hq_headers = [(''Content-Type'', ''application/json''),
                                   (''X-RelayHub-Event-Id'', e_id (cd_event input)),
                                   (''X-RelayHub-Timestamp'', timestamp),
                                   (''X-RelayHub-Signature'',
                                    Sign sha mac (cd_secret input) timestamp ''POST'' (url_request_uri u) (cd_body input))],
                     hq_body = cd_body input\<rparr> of
                    None \<Rightarrow> transport_error
                  | Some (status, retryAfter) \<Rightarrow> \<lparr>dr_status = status, dr_retry_after = retryAfter, dr_err = False\<rparr>)))"

section \<open>The worker\<close>

record jetstream_options =
  jo_concurrency :: int
  jo_attempt_timeout :: duration
  jo_lease_duration :: duration
  jo_shutdown_timeout :: duration

definition NewJetStream :: "jetstream_options \<Rightarrow> jetstream_options" where
  "NewJetStream o0 =
     (let o1 = (if jo_concurrency o0 \<le> 0 then o0\<lparr>jo_concurrency := 8\<rparr> else o0);
          o2 = (if jo_attempt_timeout o1 \<le> 0 then o1\<lparr>jo_attempt_timeout := 10 * second\<rparr> else o1);
          o3 = (if jo_lease_duration o2 < jo_attempt_timeout o2 + 5 * second
                then o2\<lparr>jo_lease_duration := jo_attempt_timeout o2 + 20 * second\<rparr> else o2) in
      if jo_shutdown_timeout o3 \<le> 0 then o3\<lparr>jo_shutdown_timeout := 10 * second\<rparr> else o3)"

text \<open>What a message meets before it is processed: \<open>None\<close> when a slot is reserved for it.\<close>

definition handle_admission :: "bool \<Rightarrow> nat \<Rightarrow> int \<Rightarrow> broker_action option" where
  "handle_admission stopping used concurrency =
     (if stopping then Some (MsgNack 0)
      else if int used < concurrency then None
      else Some (MsgNack (100 * millisecond)))"

text \<open>The store interface \<^verbatim>\<open>store.CallbackAttemptStore\<close>.\<close>

record 'db callback_ops =
  cb_begin :: "'db \<Rightarrow> string \<Rightarrow> int \<Rightarrow> string \<Rightarrow> time \<Rightarrow> duration
    \<Rightarrow> (store_error + callback_dispatch \<times> callback_disposition) \<times> 'db"
  cb_finish :: "'db \<Rightarrow> string \<Rightarrow> int \<Rightarrow> string \<Rightarrow> int \<Rightarrow> callback_transition \<Rightarrow> (store_error + unit) \<times> 'db"
  cb_mark :: "'db \<Rightarrow> string \<Rightarrow> int \<Rightarrow> time \<Rightarrow> (store_error + unit) \<times> 'db"

text \<open>Everything around one message: the clock readings, the new token, the broker and the HTTP exchange,
  what other processes do to the database during the exchange, and whether the context was cancelled.\<close>

record 'db worker_env =
  we_now_begin :: time
  we_now_finish :: time
  we_now_mark :: time
  we_token :: string
  we_token_of :: "string \<Rightarrow> string"
  we_publish :: "string \<Rightarrow> string \<Rightarrow> string \<Rightarrow> bool"
  we_deliver :: "callback_dispatch \<Rightarrow> delivery_result"
  we_parse_http_time :: "string \<Rightarrow> time option"
  we_interfere :: "'db \<Rightarrow> 'db"
  we_cancelled :: bool

record 'db worker_run =
  wr_actions :: "broker_action list"
  wr_observed :: "string list"
  wr_published :: "string list"
  wr_db :: 'db

definition dlq_payload :: "callback_dispatch \<Rightarrow> string option" where
  "dlq_payload d =
     map_option (\<lambda>e. object_text [(''delivery_id'', json_quote (cd_delivery_id d)),
                                  (''generation'', show_int (cd_generation d)), (''event'', e),
                                  (''reason'', json_quote (cd_reason d))])
       (event_text (cd_event d))"

definition dlq_message_id :: "callback_dispatch \<Rightarrow> string" where
  "dlq_message_id d = ''rh-v1-callback-dlq-'' @ cd_delivery_id d @ ''-g'' @ show_int (cd_generation d)"

definition publishDLQ :: "'db callback_ops \<Rightarrow> 'db worker_env \<Rightarrow> callback_dispatch \<Rightarrow> 'db worker_run \<Rightarrow> 'db worker_run" where
  "publishDLQ ops env d run =
     (if cd_dlq_published d then run\<lparr>wr_actions := wr_actions run @ [MsgAck]\<rparr>
      else case SubjectsForApp (we_token_of env) (cd_target_app_id d) of
        None \<Rightarrow> run\<lparr>wr_observed := wr_observed run @ [''store_error'']\<rparr>
      | Some subjects \<Rightarrow>
          (case dlq_payload d of
             None \<Rightarrow> run\<lparr>wr_observed := wr_observed run @ [''store_error'']\<rparr>
           | Some payload \<Rightarrow>
               if \<not> we_publish env (as_dead_letters subjects) payload (dlq_message_id d)
               then run\<lparr>wr_observed := wr_observed run @ [''broker_error'']\<rparr>
               else
                 let run1 = run\<lparr>wr_published := wr_published run @ [dlq_message_id d]\<rparr> in
                 (case cb_mark ops (wr_db run1) (cd_delivery_id d) (cd_generation d) (we_now_mark env) of
                    (Inl _, s) \<Rightarrow> run1\<lparr>wr_observed := wr_observed run1 @ [''store_error''], wr_db := s\<rparr>
                  | (Inr _, s) \<Rightarrow> run1\<lparr>wr_actions := wr_actions run1 @ [MsgAck], wr_db := s\<rparr>)))"

definition transition_of :: "delivery_outcome \<Rightarrow> time \<Rightarrow> callback_transition" where
  "transition_of oc now =
     \<lparr>ct_status = (case oc_kind oc of OutcomeDelivered \<Rightarrow> JobDelivered | OutcomeRetry \<Rightarrow> JobPending
                   | OutcomeDeadLetter \<Rightarrow> JobDeadLetter),
      ct_now = now, ct_retry_at = oc_retry_at oc, ct_reason = oc_reason oc\<rparr>"

definition job_status_text :: "job_status \<Rightarrow> string" where
  "job_status_text st =
     (case st of JobPending \<Rightarrow> ''pending'' | JobLeased \<Rightarrow> ''leased'' | JobDelivered \<Rightarrow> ''delivered''
      | JobAcked \<Rightarrow> ''acked'' | JobDeadLetter \<Rightarrow> ''dead_letter'')"

definition attempt_delivery :: "'db callback_ops \<Rightarrow> 'db worker_env \<Rightarrow> callback_dispatch \<Rightarrow> 'db worker_run \<Rightarrow> 'db worker_run" where
  "attempt_delivery ops env d run0 =
     (let run = run0\<lparr>wr_actions := wr_actions run0 @ [MsgProgress], wr_db := we_interfere env (wr_db run0)\<rparr>;
          result = we_deliver env d in
      if we_cancelled env then run
      else
        let now = we_now_finish env;
            tr = transition_of (Classify (we_parse_http_time env) result (cd_attempt d) now) now in
        case cb_finish ops (wr_db run) (cd_delivery_id d) (cd_generation d) (cd_token d) (cd_attempt d) tr of
          (Inl _, s) \<Rightarrow> run\<lparr>wr_observed := wr_observed run @ [''store_error''], wr_db := s\<rparr>
        | (Inr _, s) \<Rightarrow>
            let run1 = run\<lparr>wr_observed := wr_observed run @ [job_status_text (ct_status tr)], wr_db := s\<rparr> in
            if ct_status tr = JobDelivered then run1\<lparr>wr_actions := wr_actions run1 @ [MsgAck]\<rparr>
            else if ct_status tr = JobPending
            then run1\<lparr>wr_actions := wr_actions run1 @ [MsgNack (max 0 (ct_retry_at tr - now))]\<rparr>
            else publishDLQ ops env (d\<lparr>cd_reason := ct_reason tr\<rparr>) run1)"

definition process_message ::
    "'db callback_ops \<Rightarrow> duration \<Rightarrow> 'db worker_env \<Rightarrow> string \<Rightarrow> 'db \<Rightarrow> 'db worker_run" where
  "process_message ops lease env data s =
     (let run = \<lparr>wr_actions = [], wr_observed = [], wr_published = [], wr_db = s\<rparr> in
      case unmarshal_envelope False data of
        None \<Rightarrow> run\<lparr>wr_actions := [MsgAck], wr_observed := [''invalid_message'']\<rparr>
      | Some en \<Rightarrow>
          if en_delivery_id en = [] \<or> e_id (en_event en) = []
          then run\<lparr>wr_actions := [MsgAck], wr_observed := [''invalid_message'']\<rparr>
          else
            let generation = (if en_generation en = 0 then 1 else en_generation en); now = we_now_begin env in
            case cb_begin ops s (en_delivery_id en) generation (we_token env) now lease of
              (Inl e, s') \<Rightarrow>
                if e = ErrNotFound \<or> e = ErrConflict
                then run\<lparr>wr_actions := [MsgAck], wr_observed := [''invalid_message''], wr_db := s'\<rparr>
                else run\<lparr>wr_actions := [MsgNack second], wr_observed := [''store_error''], wr_db := s'\<rparr>
            | (Inr (d, disposition), s') \<Rightarrow>
                (case disposition of
                   CallbackDispatchBusy \<Rightarrow> run\<lparr>wr_actions := [MsgNack (max 0 (cd_retry_at d - now))], wr_db := s'\<rparr>
                 | CallbackDispatchComplete \<Rightarrow> run\<lparr>wr_actions := [MsgAck], wr_db := s'\<rparr>
                 | CallbackDispatchDeadLetter \<Rightarrow> publishDLQ ops env d (run\<lparr>wr_db := s'\<rparr>)
                 | CallbackDispatchReady \<Rightarrow> attempt_delivery ops env d (run\<lparr>wr_db := s'\<rparr>)))"

section \<open>What the store operations do to a delivery\<close>

lemma callback_join_find:
  assumes "deliveries_ok s" and "callback_join s i = Some (d, a, e, r, c)"
  shows "find_delivery s i = Some d" "d_sink d = CallbackSink"
proof -
  have "sql_row (\<lambda>d. d_id d = i \<and> d_sink d = CallbackSink) (deliveries s) = Some d"
    using assms(2) by (auto simp: callback_join_def split: option.splits)
  then have d: "d \<in> set (deliveries s)" "d_id d = i" "d_sink d = CallbackSink" by (auto dest: sql_row_Some)
  show "d_sink d = CallbackSink" by fact
  show "find_delivery s i = Some d"
    unfolding find_delivery_def using assms(1) d(1,2) by (intro sql_row_key) (auto simp: deliveries_ok_def)
qed

definition live_callback :: "delivery \<Rightarrow> time \<Rightarrow> bool" where
  "live_callback d now \<longleftrightarrow> d_callback_token d \<noteq> None \<and> d_callback_token d \<noteq> Some [] \<and> after_opt (d_callback_expires_at d) now"

definition ready_row :: "string \<Rightarrow> time \<Rightarrow> duration \<Rightarrow> application \<Rightarrow> credential \<Rightarrow> delivery \<Rightarrow> delivery" where
  "ready_row token now lease a cr d =
     d\<lparr>d_status := Dispatched, d_attempts := d_attempts d + 1, d_callback_token := Some token,
       d_callback_expires_at := Some (postgresTime (now + lease)), d_callback_retry_at := None,
       d_callback_url := app_callback_url a, d_callback_credential_version := Some (cr_version cr),
       d_callback_reason := None, d_updated_at := now\<rparr>"

definition dead_row :: "string \<Rightarrow> time \<Rightarrow> delivery \<Rightarrow> delivery" where
  "dead_row reason now d =
     d\<lparr>d_status := DeadLetter, d_callback_reason := Some reason, d_callback_token := None,
       d_callback_expires_at := None, d_updated_at := now\<rparr>"

lemma delivery_check_rows:
  assumes "delivery_check d"
  shows "delivery_check (dead_row reason now d)" "delivery_check (ready_row token now lease a cr d)"
    "delivery_check (finish_row st retryAt reason now d)"
  using assms
  by (auto simp: delivery_check_def assignment_complete_def callback_lease_complete_def dead_row_def ready_row_def
      finish_row_def)

text \<open>An update of the row with a given identifier.\<close>

lemma update_one:
  assumes "deliveries_ok s" and "find_delivery s i = Some d" and "delivery_check (f d)" and "\<And>x. d_id (f x) = d_id x"
  shows "\<exists>s'. update_deliveries (\<lambda>x. d_id x = i) f s = Some s' \<and> deliveries_ok s' \<and>
    (\<forall>j. find_delivery s' j = (if j = i then Some (f d) else find_delivery s j))"
proof -
  have "\<forall>x \<in> set (deliveries s). d_id x = i \<longrightarrow> delivery_check (f x)"
    using find_delivery_unique [OF assms(1,2)] assms(3) by blast
  then obtain s' where s': "update_deliveries (\<lambda>x. d_id x = i) f s = Some s'"
    by (simp add: update_deliveries_Some)
  have "find_delivery s' j = (if j = i then Some (f d) else find_delivery s j)" for j
    unfolding find_delivery_update [OF s' assms(4)]
    using assms(2) find_delivery_in [of s j] by (cases "find_delivery s j") auto
  then show ?thesis using s' deliveries_ok_update [OF s' assms(4,1)] by blast
qed

lemma callback_dead_letter_row:
  assumes "deliveries_ok s" and "find_delivery s i = Some d"
  shows "\<exists>s'. callback_dead_letter i reason now s = Some s' \<and> deliveries_ok s' \<and>
    delivery_attempts s' = delivery_attempts s \<and>
    (\<forall>j. find_delivery s' j = (if j = i then Some (dead_row reason now d) else find_delivery s j))"
proof -
  have "delivery_check (dead_row reason now d)"
    using find_delivery_check [OF assms] delivery_check_rows by blast
  then obtain s1 where s1: "update_deliveries (\<lambda>d. d_id d = i) (dead_row reason now) s = Some s1" "deliveries_ok s1"
    "\<And>j. find_delivery s1 j = (if j = i then Some (dead_row reason now d) else find_delivery s j)"
    using update_one [OF assms, of "dead_row reason now"] by (auto simp: dead_row_def)
  have "dead_row reason now = (\<lambda>d. d\<lparr>d_status := DeadLetter, d_callback_reason := Some reason,
      d_callback_token := None, d_callback_expires_at := None, d_updated_at := now\<rparr>)"
    by (simp add: fun_eq_iff dead_row_def)
  with s1 update_deliveries_frame [OF s1(1)] show ?thesis
    by (simp add: callback_dead_letter_def add_lifecycle_def deliveries_ok_def find_delivery_def)
qed

lemma lifecycle_frame [simp]:
  "find_delivery (add_lifecycle evs s) i = find_delivery s i" "deliveries_ok (add_lifecycle evs s) = deliveries_ok s"
  "delivery_attempts (add_lifecycle evs s) = delivery_attempts s"
  by (simp_all add: add_lifecycle_def find_delivery_def deliveries_ok_def)

lemma insert_attempt_frame [simp]:
  "find_delivery (insert_attempt row s) i = find_delivery s i" "deliveries_ok (insert_attempt row s) = deliveries_ok s"
  by (simp_all add: insert_attempt_def find_delivery_def deliveries_ok_def)

definition started_row :: "string \<Rightarrow> int \<Rightarrow> int \<Rightarrow> string \<Rightarrow> time \<Rightarrow> delivery_attempt" where
  "started_row i g n t now =
     \<lparr>da_delivery_id = i, da_generation = g, da_attempt = n, da_outcome = ''started'', da_reason = None,
      da_callback_token = Some t, da_created_at = now, da_updated_at = now\<rparr>"

lemma start_attempt_row:
  assumes "deliveries_ok s" and "find_delivery s i = Some d" and "cd_attempt x = d_attempts d"
    and "start_attempt decrypt s d x cr t now lease = (r, s')"
  shows "r = Inl ErrDB \<and> s' = s \<or>
    (\<exists>y. r = Inr (y, CallbackDispatchReady) \<and> cd_attempt y = d_attempts d + 1 \<and> cd_token y = t \<and>
       cd_lease_expires_at y = postgresTime (now + lease) \<and> cd_delivery_id y = cd_delivery_id x \<and> cd_generation y = cd_generation x \<and>
       cd_dlq_published y = cd_dlq_published x \<and> deliveries_ok s' \<and>
       (\<forall>j. find_delivery s' j = (if j = i then Some (ready_row t now lease (cd_app x) cr d) else find_delivery s j)) \<and>
       delivery_attempts s' =
         (if sql_exists (attempt_key i (d_generation d) (d_attempts d + 1)) (delivery_attempts s) then delivery_attempts s
          else delivery_attempts s @ [started_row i (d_generation d) (d_attempts d + 1) t now]))"
proof (cases "decrypt (cr_encrypted_hmac_secret cr)")
  case None
  then show ?thesis using assms(4) by (simp add: start_attempt_def Let_def)
next
  case (Some secret)
  have id: "d_id d = i" using find_delivery_in [OF assms(2)] by simp
  have "delivery_check (ready_row t now lease (cd_app x) cr d)"
    using find_delivery_check [OF assms(1,2)] delivery_check_rows by blast
  moreover have "ready_row t now lease (cd_app x) cr d = (\<lambda>y. y\<lparr>d_status := Dispatched, d_attempts := cd_attempt x + 1,
      d_callback_token := Some t, d_callback_expires_at := Some (postgresTime (now + lease)), d_callback_retry_at := None,
      d_callback_url := app_callback_url (cd_app x), d_callback_credential_version := Some (cr_version cr),
      d_callback_reason := None, d_updated_at := now\<rparr>) d" (is "_ = ?f d")
    using assms(3) by (simp add: ready_row_def)
  ultimately obtain s1 where s1: "update_deliveries (\<lambda>x. d_id x = i) ?f s = Some s1" "deliveries_ok s1"
    "\<And>j. find_delivery s1 j = (if j = i then Some (ready_row t now lease (cd_app x) cr d) else find_delivery s j)"
    using update_one [OF assms(1,2), of ?f] by auto
  have "delivery_attempts s1 = delivery_attempts s" by (rule update_deliveries_frame [OF s1(1)])
  then have "delivery_attempts (insert_attempt (started_row i (d_generation d) (d_attempts d + 1) t now) s1) =
      (if sql_exists (attempt_key i (d_generation d) (d_attempts d + 1)) (delivery_attempts s) then delivery_attempts s
       else delivery_attempts s @ [started_row i (d_generation d) (d_attempts d + 1) t now])"
    by (auto simp: insert_attempt_def attempt_key_def started_row_def)
  moreover obtain y evs where "r = Inr (y, CallbackDispatchReady)" "cd_attempt y = d_attempts d + 1" "cd_token y = t"
    "cd_lease_expires_at y = postgresTime (now + lease)" "cd_delivery_id y = cd_delivery_id x"
    "cd_generation y = cd_generation x" "cd_dlq_published y = cd_dlq_published x"
    "s' = add_lifecycle evs (insert_attempt (started_row i (d_generation d) (d_attempts d + 1) t now) s1)"
    using assms(3,4) Some s1(1) id by (auto simp: start_attempt_def Let_def started_row_def)
  ultimately show ?thesis using s1 by simp
qed

lemma callback_decide_cases:
  assumes "callback_decide decrypt s d e c x t now lease = (r, s')"
  obtains (same) "s' = s" "\<And>y. r \<noteq> Inr (y, CallbackDispatchReady)"
  | (dead) reason where "d_status d \<notin> {Acked, Delivered, DeadLetter}" "cd_token x = [] \<or> \<not> now < cd_lease_expires_at x"
      "(case callback_dead_letter (d_id d) reason now s of None \<Rightarrow> (Inl ErrDB, s)
        | Some s' \<Rightarrow> (Inr (x\<lparr>cd_reason := reason\<rparr>, CallbackDispatchDeadLetter), s')) = (r, s')"
  | (start) "d_status d \<notin> {Acked, Delivered, DeadLetter}" "cd_token x = [] \<or> \<not> now < cd_lease_expires_at x"
      "cd_attempt x < 6" "start_attempt decrypt s d x (the c) t now lease = (r, s')"
proof -
  consider "d_status d \<in> {Acked, Delivered, DeadLetter} \<or> cd_retry_at x \<noteq> zero_time \<and> now < cd_retry_at x \<or>
      cd_token x \<noteq> [] \<and> now < cd_lease_expires_at x"
    | "d_status d \<notin> {Acked, Delivered, DeadLetter}" "\<not> (cd_retry_at x \<noteq> zero_time \<and> now < cd_retry_at x)"
      "\<not> (cd_token x \<noteq> [] \<and> now < cd_lease_expires_at x)" by blast
  then show ?thesis
  proof cases
    case 1
    then show ?thesis using assms same by (auto simp: callback_decide_def split: if_splits)
  next
    case 2
    then show ?thesis
      using assms unfolding callback_decide_def Let_def if_not_P [OF 2(2)] if_not_P [OF 2(3)]
      by (cases "\<not> now < ev_expires_at e \<or> cd_attempt x \<ge> 6"; cases "eligible (cd_app x) c")
         (auto intro: dead start)
  qed
qed

text \<open>The three ways an attempt can begin.\<close>

lemma Begin_cases:
  assumes ok: "deliveries_ok s" and res: "BeginCallbackAttempt decrypt s i g t now0 lease = (r, s')"
  obtains (same) "s' = s" "\<And>x. r \<noteq> Inr (x, CallbackDispatchReady)"
  | (dead) d reason x where "find_delivery s i = Some d" "d_generation d = g"
      "d_status d \<notin> {Acked, Delivered, DeadLetter}" "\<not> live_callback d (postgresTime now0)"
      "r = Inr (x, CallbackDispatchDeadLetter)" "cd_dlq_published x = (d_callback_dlq_published_at d \<noteq> None)"
      "cd_delivery_id x = i" "cd_generation x = g" "deliveries_ok s'" "delivery_attempts s' = delivery_attempts s"
      "\<And>j. find_delivery s' j = (if j = i then Some (dead_row reason (postgresTime now0) d) else find_delivery s j)"
  | (ready) d a cr x where "find_delivery s i = Some d" "d_sink d = CallbackSink" "d_generation d = g"
      "d_status d \<notin> {Acked, Delivered, DeadLetter}" "d_attempts d < 6" "\<not> live_callback d (postgresTime now0)"
      "r = Inr (x, CallbackDispatchReady)" "cd_delivery_id x = i" "cd_generation x = g" "cd_token x = t"
      "cd_attempt x = d_attempts d + 1" "cd_dlq_published x = (d_callback_dlq_published_at d \<noteq> None)" "deliveries_ok s'"
      "\<And>j. find_delivery s' j =
         (if j = i then Some (ready_row t (postgresTime now0) lease a cr d) else find_delivery s j)"
      "cd_lease_expires_at x = postgresTime (postgresTime now0 + lease)"
      "delivery_attempts s' =
         (if sql_exists (attempt_key i g (d_attempts d + 1)) (delivery_attempts s) then delivery_attempts s
          else delivery_attempts s @ [started_row i g (d_attempts d + 1) t (postgresTime now0)])"
proof (cases "\<exists>d a e row c body ev. callback_join s i = Some (d, a, e, row, c) \<and> d_generation d = g \<and>
    callback_decide decrypt s d e c (loaded_dispatch d a body ev) t (postgresTime now0) lease = (r, s')")
  case False
  then show ?thesis
    using res same by (auto simp: BeginCallbackAttempt_def Let_def split: if_splits option.splits prod.splits)
next
  case True
  then obtain d a e row c body ev where j: "callback_join s i = Some (d, a, e, row, c)" and g: "d_generation d = g"
    and dec: "callback_decide decrypt s d e c (loaded_dispatch d a body ev) t (postgresTime now0) lease = (r, s')" by blast
  let ?x = "loaded_dispatch d a body ev" and ?now = "postgresTime now0"
  note f = callback_join_find [OF ok j]
  have id: "d_id d = i" using find_delivery_in [OF f(1)] by simp
  have x: "cd_attempt ?x = d_attempts d" "cd_delivery_id ?x = i" "cd_generation ?x = g"
    "cd_dlq_published ?x = (d_callback_dlq_published_at d \<noteq> None)"
    using id g by (simp_all add: loaded_dispatch_def)
  have "callback_lease_complete d" using find_delivery_check [OF ok f(1)] by (simp add: delivery_check_def)
  then have live: "\<not> live_callback d ?now" if "cd_token ?x = [] \<or> \<not> ?now < cd_lease_expires_at ?x"
    using that by (auto simp: live_callback_def loaded_dispatch_def callback_lease_complete_def)
  from dec show ?thesis
  proof (cases rule: callback_decide_cases)
    case same
    then show ?thesis using that(1) by blast
  next
    case (dead reason)
    from callback_dead_letter_row [OF ok f(1), of reason ?now] obtain s1
      where "callback_dead_letter i reason ?now s = Some s1" "deliveries_ok s1" "delivery_attempts s1 = delivery_attempts s"
        "\<And>j. find_delivery s1 j = (if j = i then Some (dead_row reason ?now d) else find_delivery s j)" by blast
    then show ?thesis
      using that(2) [OF f(1) g dead(1) live [OF dead(2)], of "?x\<lparr>cd_reason := reason\<rparr>" reason] dead(3) x id by simp
  next
    case start
    have n: "d_attempts d < 6" using start(3) x(1) by simp
    from start_attempt_row [OF ok f(1) x(1) start(4)] show ?thesis
    proof (elim disjE exE)
      fix y
      assume "r = Inr (y, CallbackDispatchReady) \<and> cd_attempt y = d_attempts d + 1 \<and> cd_token y = t \<and>
        cd_lease_expires_at y = postgresTime (?now + lease) \<and> cd_delivery_id y = cd_delivery_id ?x \<and>
        cd_generation y = cd_generation ?x \<and> cd_dlq_published y = cd_dlq_published ?x \<and> deliveries_ok s' \<and>
        (\<forall>j. find_delivery s' j = (if j = i then Some (ready_row t ?now lease (cd_app ?x) (the c) d) else find_delivery s j)) \<and>
        delivery_attempts s' =
          (if sql_exists (attempt_key i (d_generation d) (d_attempts d + 1)) (delivery_attempts s) then delivery_attempts s
           else delivery_attempts s @ [started_row i (d_generation d) (d_attempts d + 1) t ?now])"
      then show ?thesis
        using that(3) [OF f g start(1) n live [OF start(2)], of y "cd_app ?x" "the c"] x g by simp
    qed (use that(1) in simp)
  qed
qed

text \<open>An update whose condition names the row: it changes that row, or none.\<close>

lemma update_keyed:
  assumes ok: "deliveries_ok s" and key: "\<forall>x. P x \<longrightarrow> d_id x = i" and f: "\<And>x. d_id (f x) = d_id x"
    and check: "\<forall>x. delivery_check x \<longrightarrow> delivery_check (f x)"
  obtains (none) "sql_count P (deliveries s) = 0" "update_deliveries P f s = Some s"
      "\<And>d. find_delivery s i = Some d \<Longrightarrow> \<not> P d"
  | (one) d s1 where "sql_count P (deliveries s) = 1" "find_delivery s i = Some d" "P d"
      "update_deliveries P f s = Some s1" "deliveries_ok s1" "delivery_attempts s1 = delivery_attempts s"
      "\<And>j. find_delivery s1 j = (if j = i then Some (f d) else find_delivery s j)"
proof (cases "\<exists>d \<in> set (deliveries s). P d")
  case False
  moreover from this have "sql_update P f (deliveries s) = deliveries s"
    by (auto simp: sql_update_def intro: map_idI)
  ultimately show ?thesis
    using none find_delivery_in [of s i] by (auto simp: sql_count_def filter_empty_conv update_deliveries_Some)
next
  case True
  then obtain d where d: "d \<in> set (deliveries s)" "P d" by blast
  have find: "find_delivery s i = Some d"
    unfolding find_delivery_def using ok d key by (intro sql_row_key) (auto simp: deliveries_ok_def)
  have count: "sql_count P (deliveries s) = 1"
    using ok d key by (intro sql_count_key_1 [where k = d_id and r = d and key = i]) (auto simp: deliveries_ok_def)
  obtain s1 where s1: "update_deliveries P f s = Some s1"
    using ok check by (auto simp: update_deliveries_Some deliveries_ok_def list_all_iff)
  have "find_delivery s1 j = (if j = i then Some (f d) else find_delivery s j)" for j
  proof (cases "j = i")
    case True
    then show ?thesis using find_delivery_update [OF s1 f] find d(2) by simp
  next
    case False
    then have "\<not> P x" if "find_delivery s j = Some x" for x
      using key find_delivery_in [OF that] by blast
    then show ?thesis using find_delivery_update [OF s1 f] False by (cases "find_delivery s j") simp_all
  qed
  then show ?thesis
    using one [OF count find d(2) s1] deliveries_ok_update [OF s1 f ok] update_deliveries_frame [OF s1] by simp
qed

abbreviation rounded_retry :: "callback_transition \<Rightarrow> time" where
  "rounded_retry tr \<equiv> (if ct_retry_at tr = zero_time then zero_time else postgresTime (ct_retry_at tr))"

lemma Finish_cases:
  assumes ok: "deliveries_ok s" and res: "FinishCallbackAttempt s i g t n tr = (r, s')"
  obtains (failed) e where "s' = s" "r = Inl e"
  | (repeated) d where "s' = s" "r = Inr ()" "find_delivery s i = Some d" "d_generation d = g" "d_attempts d = n"
      "d_status d = finish_status (ct_status tr)"
  | (finished) d where "r = Inr ()" "find_delivery s i = Some d"
      "holds_callback i g t n (postgresTime (ct_now tr)) d" "deliveries_ok s'"
      "\<And>j. find_delivery s' j = (if j = i then Some (finish_row (finish_status (ct_status tr)) (rounded_retry tr)
          (ct_reason tr) (postgresTime (ct_now tr)) d) else find_delivery s j)"
      "delivery_attempts s' = sql_update (attempt_key i g n)
         (\<lambda>x. x\<lparr>da_outcome := status_text (finish_status (ct_status tr)), da_reason := Some (ct_reason tr),
                da_updated_at := postgresTime (ct_now tr)\<rparr>) (delivery_attempts s)"
proof -
  let ?now = "postgresTime (ct_now tr)" and ?st = "finish_status (ct_status tr)"
  let ?P = "holds_callback i g t n ?now" and ?f = "finish_row ?st (rounded_retry tr) (ct_reason tr) ?now"
  show ?thesis
  proof (cases "ct_status tr \<noteq> JobDelivered \<and> ct_status tr \<noteq> JobPending \<and> ct_status tr \<noteq> JobDeadLetter \<or>
      ct_status tr = JobPending \<and> ct_retry_at tr = zero_time")
    case True
    then show ?thesis using res failed by (auto simp: FinishCallbackAttempt_def split: if_splits)
  next
    case False
    have P: "\<forall>x. ?P x \<longrightarrow> d_id x = i" "\<And>x. d_id (?f x) = d_id x" "\<forall>x. delivery_check x \<longrightarrow> delivery_check (?f x)"
      by (simp_all add: holds_callback_def delivery_check_rows(3), simp add: finish_row_def)
    show ?thesis
    proof (cases rule: update_keyed [where P = ?P and i = i and f = ?f, OF ok P, case_names none one])
      case none
      show ?thesis
      proof (cases "\<exists>e. r = Inl e")
        case True
        then show ?thesis using res none False failed
          by (auto simp: FinishCallbackAttempt_def Let_def split: if_splits option.splits)
      next
        case ok': False
        then obtain d where d: "s' = s" "r = Inr ()"
          "sql_row (\<lambda>d. d_id d = i \<and> d_generation d = g \<and> d_attempts d = n) (deliveries s) = Some d" "d_status d = ?st"
          using res none False
          by (auto simp: FinishCallbackAttempt_def Let_def split: if_splits option.splits)
        from sql_row_Some [OF d(3)] have row: "d \<in> set (deliveries s)" "d_id d = i" "d_generation d = g" "d_attempts d = n"
          by auto
        have "find_delivery s i = Some d"
          unfolding find_delivery_def using ok row by (intro sql_row_key) (auto simp: deliveries_ok_def)
        then show ?thesis using repeated d row by blast
      qed
    next
      case (one d s1)
      then show ?thesis using res False failed finished [OF _ one(2,3)]
        by (auto simp: FinishCallbackAttempt_def Let_def find_delivery_def deliveries_ok_def split: if_splits)
    qed
  qed
qed

definition marked_row :: "time \<Rightarrow> delivery \<Rightarrow> delivery" where
  "marked_row now d = d\<lparr>d_callback_dlq_published_at := Some (coalesce (d_callback_dlq_published_at d) now),
     d_updated_at := max (d_updated_at d) now\<rparr>"

lemma Mark_cases:
  assumes ok: "deliveries_ok s" and res: "MarkCallbackDLQPublished s i g now0 = (r, s')"
  obtains (failed) e where "s' = s" "r = Inl e"
  | (marked) d where "r = Inr ()" "find_delivery s i = Some d" "d_generation d = g" "d_sink d = CallbackSink"
      "d_status d = DeadLetter" "deliveries_ok s'" "delivery_attempts s' = delivery_attempts s"
      "\<And>j. find_delivery s' j = (if j = i then Some (marked_row (postgresTime now0) d) else find_delivery s j)"
proof -
  let ?P = "\<lambda>d. d_id d = i \<and> d_generation d = g \<and> d_sink d = CallbackSink \<and> d_status d = DeadLetter"
  let ?f = "marked_row (postgresTime now0)"
  have f: "?f = (\<lambda>d. d\<lparr>d_callback_dlq_published_at := Some (coalesce (d_callback_dlq_published_at d) (postgresTime now0)),
      d_updated_at := max (d_updated_at d) (postgresTime now0)\<rparr>)" by (simp add: fun_eq_iff marked_row_def)
  have P: "\<forall>x. ?P x \<longrightarrow> d_id x = i" "\<And>x. d_id (?f x) = d_id x" "\<forall>x. delivery_check x \<longrightarrow> delivery_check (?f x)"
    by (auto simp: marked_row_def delivery_check_def assignment_complete_def callback_lease_complete_def)
  show ?thesis
  proof (cases rule: update_keyed [where P = ?P and i = i and f = ?f, OF ok P, case_names none one])
    case none
    then show ?thesis using res failed by (auto simp: MarkCallbackDLQPublished_def Let_def f)
  next
    case (one d s1)
    then show ?thesis using res marked [of d] by (auto simp: MarkCallbackDLQPublished_def Let_def f)
  qed
qed

section \<open>The contract the worker relies on\<close>

text \<open>
  What the worker needs of \<^verbatim>\<open>store.CallbackAttemptStore\<close>: \<open>settled s i g\<close> says that generation \<open>g\<close> of delivery
  \<open>i\<close> needs no further work.
\<close>

locale callback_store =
  fixes ops :: "'db callback_ops"
    and settled :: "'db \<Rightarrow> string \<Rightarrow> int \<Rightarrow> bool"
    and inv :: "'db \<Rightarrow> bool"
  assumes begin_inv: "inv s \<Longrightarrow> cb_begin ops s i g t now lease = (r, s') \<Longrightarrow> inv s'"
    and finish_inv: "inv s \<Longrightarrow> cb_finish ops s i g t n tr = (q, s') \<Longrightarrow> inv s'"
    and begin_key: "inv s \<Longrightarrow> cb_begin ops s i g t now lease = (Inr (d, disp), s') \<Longrightarrow>
      cd_delivery_id d = i \<and> cd_generation d = g"
    and begin_complete: "inv s \<Longrightarrow> cb_begin ops s i g t now lease = (Inr (d, CallbackDispatchComplete), s') \<Longrightarrow>
      settled s' i g"
    and begin_dead: "inv s \<Longrightarrow> cb_begin ops s i g t now lease = (Inr (d, CallbackDispatchDeadLetter), s') \<Longrightarrow>
      cd_dlq_published d \<Longrightarrow> settled s' i g"
    and begin_ready: "inv s \<Longrightarrow> cb_begin ops s i g t now lease = (Inr (d, CallbackDispatchReady), s') \<Longrightarrow>
      \<not> cd_dlq_published d"
    and finish_delivered: "inv s \<Longrightarrow> cb_finish ops s i g t n tr = (Inr (), s') \<Longrightarrow> ct_status tr = JobDelivered \<Longrightarrow>
      settled s' i g"
    and mark_settled: "inv s \<Longrightarrow> cb_mark ops s i g now = (Inr (), s') \<Longrightarrow> settled s' i g"
begin

lemma publishDLQ_ack:
  assumes "inv (wr_db run)" and "MsgAck \<notin> set (wr_actions run)"
    and "cd_dlq_published d \<Longrightarrow> settled (wr_db run) (cd_delivery_id d) (cd_generation d)"
    and "MsgAck \<in> set (wr_actions (publishDLQ ops env d run))"
  shows "settled (wr_db (publishDLQ ops env d run)) (cd_delivery_id d) (cd_generation d)"
  using assms by (auto simp: publishDLQ_def Let_def split: if_splits option.splits prod.splits sum.splits intro: mark_settled)

lemma attempt_ack:
  assumes "inv (wr_db run)" and "\<And>s. inv s \<Longrightarrow> inv (we_interfere env s)" and "MsgAck \<notin> set (wr_actions run)"
    and "\<not> cd_dlq_published d" and "MsgAck \<in> set (wr_actions (attempt_delivery ops env d run))"
  shows "settled (wr_db (attempt_delivery ops env d run)) (cd_delivery_id d) (cd_generation d)"
proof -
  define tr where "tr = transition_of (Classify (we_parse_http_time env) (we_deliver env d) (cd_attempt d)
    (we_now_finish env)) (we_now_finish env)"
  define s1 where "s1 = we_interfere env (wr_db run)"
  have s1: "inv s1" using assms(1,2) by (simp add: s1_def)
  obtain r s2 where fin: "cb_finish ops s1 (cd_delivery_id d) (cd_generation d) (cd_token d) (cd_attempt d) tr = (r, s2)"
    by fastforce
  have notc: "\<not> we_cancelled env" using assms(3,5) by (auto simp: attempt_delivery_def Let_def)
  have r: "r = Inr ()" using assms(3,5) notc fin unfolding s1_def tr_def
    by (cases r) (auto simp: attempt_delivery_def Let_def)
  let ?run1 = "run\<lparr>wr_actions := wr_actions run @ [MsgProgress], wr_observed := wr_observed run @ [job_status_text (ct_status tr)],
    wr_db := s2\<rparr>"
  have run: "attempt_delivery ops env d run =
    (if ct_status tr = JobDelivered then ?run1\<lparr>wr_actions := wr_actions ?run1 @ [MsgAck]\<rparr>
     else if ct_status tr = JobPending
     then ?run1\<lparr>wr_actions := wr_actions ?run1 @ [MsgNack (max 0 (ct_retry_at tr - we_now_finish env))]\<rparr>
     else publishDLQ ops env (d\<lparr>cd_reason := ct_reason tr\<rparr>) ?run1)"
    using notc fin r unfolding s1_def tr_def by (simp add: attempt_delivery_def Let_def)
  have "settled s2 (cd_delivery_id d) (cd_generation d)" if "ct_status tr = JobDelivered"
    using finish_delivered [OF s1 _ that] fin r by simp
  moreover have "inv s2" using finish_inv [OF s1 fin] .
  ultimately show ?thesis
    using assms(3,4,5) publishDLQ_ack [of ?run1 "d\<lparr>cd_reason := ct_reason tr\<rparr>" env] unfolding run by (auto split: if_splits)
qed

lemma process_ack:
  assumes inv: "inv s" and frame: "\<And>s. inv s \<Longrightarrow> inv (we_interfere env s)"
    and en: "unmarshal_envelope False data = Some en" "en_delivery_id en \<noteq> []" "e_id (en_event en) \<noteq> []"
    and g: "g = (if en_generation en = 0 then 1 else en_generation en)"
    and found: "fst (cb_begin ops s (en_delivery_id en) g (we_token env) (we_now_begin env) lease) \<notin> {Inl ErrNotFound, Inl ErrConflict}"
    and ack: "MsgAck \<in> set (wr_actions (process_message ops lease env data s))"
  shows "settled (wr_db (process_message ops lease env data s)) (en_delivery_id en) g"
proof -
  obtain r s' where b: "cb_begin ops s (en_delivery_id en) g (we_token env) (we_now_begin env) lease = (r, s')" by fastforce
  obtain d disp where r: "r = Inr (d, disp)"
    using ack en b found unfolding g by (cases r) (auto simp: process_message_def Let_def split: if_splits)
  have s': "inv s'" using begin_inv [OF inv b] .
  have key: "cd_delivery_id d = en_delivery_id en" "cd_generation d = g" using begin_key [OF inv b [unfolded r]] by auto
  let ?run = "\<lparr>wr_actions = [], wr_observed = [], wr_published = [], wr_db = s'\<rparr>"
  have run: "process_message ops lease env data s =
    (case disp of CallbackDispatchBusy \<Rightarrow> ?run\<lparr>wr_actions := [MsgNack (max 0 (cd_retry_at d - we_now_begin env))]\<rparr>
     | CallbackDispatchComplete \<Rightarrow> ?run\<lparr>wr_actions := [MsgAck]\<rparr>
     | CallbackDispatchDeadLetter \<Rightarrow> publishDLQ ops env d ?run
     | CallbackDispatchReady \<Rightarrow> attempt_delivery ops env d ?run)"
    using en b unfolding g r by (simp add: process_message_def Let_def split: callback_disposition.splits)
  show ?thesis
  proof (cases disp)
    case CallbackDispatchReady
    then show ?thesis
      using attempt_ack [of ?run env d] begin_ready [OF inv b [unfolded r CallbackDispatchReady]] frame s' ack key
      unfolding run by simp
  next
    case CallbackDispatchBusy
    then show ?thesis using ack unfolding run by simp
  next
    case CallbackDispatchComplete
    then show ?thesis using begin_complete [OF inv b [unfolded r CallbackDispatchComplete]] unfolding run by simp
  next
    case CallbackDispatchDeadLetter
    then show ?thesis
      using publishDLQ_ack [of ?run d env] begin_dead [OF inv b [unfolded r CallbackDispatchDeadLetter]] s' ack key
      unfolding run by simp
  qed
qed

end

text \<open>The store of the model under that contract.\<close>

definition pg_callback_ops :: "(string \<Rightarrow> string option) \<Rightarrow> db callback_ops" where
  "pg_callback_ops decrypt =
     \<lparr>cb_begin = BeginCallbackAttempt decrypt, cb_finish = FinishCallbackAttempt, cb_mark = MarkCallbackDLQPublished\<rparr>"

definition callback_row_ok :: "delivery \<Rightarrow> bool" where
  "callback_row_ok d \<longleftrightarrow>
     (d_status d = DeadLetter \<longrightarrow> d_callback_token d = None) \<and>
     (d_callback_dlq_published_at d \<noteq> None \<longrightarrow> d_status d = DeadLetter)"

definition callbacks_ok :: "db \<Rightarrow> bool" where
  "callbacks_ok s \<longleftrightarrow> deliveries_ok s \<and> list_all callback_row_ok (deliveries s)"

definition callback_settled :: "db \<Rightarrow> string \<Rightarrow> int \<Rightarrow> bool" where
  "callback_settled s i g =
     (case find_delivery s i of
        None \<Rightarrow> False
      | Some d \<Rightarrow> d_generation d = g \<and>
          (d_status d = Acked \<or> d_status d = Delivered \<or>
           d_status d = DeadLetter \<and> d_callback_dlq_published_at d \<noteq> None))"

lemma callbacks_ok_find: "callbacks_ok s \<Longrightarrow> find_delivery s i = Some d \<Longrightarrow> callback_row_ok d"
  using find_delivery_in [of s i d] by (auto simp: callbacks_ok_def list_all_iff)

lemma callbacks_okI:
  assumes "deliveries_ok s" and "\<And>i d. find_delivery s i = Some d \<Longrightarrow> callback_row_ok d"
  shows "callbacks_ok s"
proof -
  have "callback_row_ok d" if "d \<in> set (deliveries s)" for d
  proof -
    have "find_delivery s (d_id d) = Some d"
      unfolding find_delivery_def using assms(1) that by (intro sql_row_key) (auto simp: deliveries_ok_def)
    then show ?thesis by (rule assms(2))
  qed
  then show ?thesis using assms(1) by (simp add: callbacks_ok_def list_all_iff)
qed

lemma callbacks_ok_row:
  assumes "callbacks_ok s" and "deliveries_ok s'" and "callback_row_ok d'"
    and "\<And>j. find_delivery s' j = (if j = i then Some d' else find_delivery s j)"
  shows "callbacks_ok s'"
  using assms callbacks_ok_find [OF assms(1)] by (intro callbacks_okI) (auto split: if_splits)

lemma callback_row_ok_rows:
  "callback_row_ok (dead_row reason now d)"
  "d_callback_dlq_published_at d = None \<Longrightarrow> callback_row_ok (ready_row t now lease a cr d)"
  "d_callback_dlq_published_at d = None \<Longrightarrow> callback_row_ok (finish_row st retryAt reason now d)"
  "callback_row_ok d \<Longrightarrow> d_status d = DeadLetter \<Longrightarrow> callback_row_ok (marked_row now d)"
  by (simp_all add: callback_row_ok_def dead_row_def ready_row_def finish_row_def marked_row_def)

lemma Begin_ok:
  assumes "callbacks_ok s" and "BeginCallbackAttempt decrypt s i g t now lease = (r, s')"
  shows "callbacks_ok s'"
proof -
  have ok: "deliveries_ok s" using assms(1) by (simp add: callbacks_ok_def)
  show ?thesis
  proof (cases rule: Begin_cases [OF ok assms(2), case_names same dead ready])
    case same
    then show ?thesis using assms(1) by simp
  next
    case (dead d reason x)
    then show ?thesis by (intro callbacks_ok_row [OF assms(1) _ callback_row_ok_rows(1)]) simp_all
  next
    case (ready d a cr x)
    have "d_callback_dlq_published_at d = None"
      using callbacks_ok_find [OF assms(1) ready(1)] ready(4) by (auto simp: callback_row_ok_def)
    with ready show ?thesis by (intro callbacks_ok_row [OF assms(1) _ callback_row_ok_rows(2)]) simp_all
  qed
qed

lemma Finish_ok:
  assumes "callbacks_ok s" and "FinishCallbackAttempt s i g t n tr = (r, s')"
  shows "callbacks_ok s'"
proof -
  have ok: "deliveries_ok s" using assms(1) by (simp add: callbacks_ok_def)
  show ?thesis
  proof (cases rule: Finish_cases [OF ok assms(2), case_names failed repeated finished])
    case (finished d)
    have "d_callback_dlq_published_at d = None"
      using callbacks_ok_find [OF assms(1) finished(2)] finished(3) by (auto simp: callback_row_ok_def holds_callback_def)
    with finished show ?thesis by (intro callbacks_ok_row [OF assms(1) _ callback_row_ok_rows(3)]) simp_all
  qed (use assms(1) in simp_all)
qed

lemma Mark_ok:
  assumes "callbacks_ok s" and "MarkCallbackDLQPublished s i g now = (r, s')"
  shows "callbacks_ok s'"
proof -
  have ok: "deliveries_ok s" using assms(1) by (simp add: callbacks_ok_def)
  show ?thesis
  proof (cases rule: Mark_cases [OF ok assms(2), case_names failed marked])
    case (marked d)
    have "callback_row_ok (marked_row (postgresTime now) d)"
      using callback_row_ok_rows(4) callbacks_ok_find [OF assms(1) marked(2)] marked(5) by blast
    with marked show ?thesis by (intro callbacks_ok_row [OF assms(1)]) simp_all
  qed (use assms(1) in simp_all)
qed

text \<open>What a positive answer of \<^verbatim>\<open>BeginCallbackAttempt\<close> was decided on.\<close>

lemma Begin_loaded:
  assumes "BeginCallbackAttempt decrypt s i g t now0 lease = (Inr (x, disp), s')"
  obtains d a e row c body ev where "callback_join s i = Some (d, a, e, row, c)" "d_generation d = g"
    "callback_decide decrypt s d e c (loaded_dispatch d a body ev) t (postgresTime now0) lease = (Inr (x, disp), s')"
  using assms by (auto simp: BeginCallbackAttempt_def Let_def split: if_splits option.splits prod.splits)

lemma callback_decide_answer:
  assumes "callback_decide decrypt s d e c x t now lease = (Inr (y, disp), s')"
  shows "cd_delivery_id y = cd_delivery_id x" "cd_generation y = cd_generation x" "cd_dlq_published y = cd_dlq_published x"
    "disp = CallbackDispatchComplete \<Longrightarrow> s' = s \<and> d_status d \<in> {Acked, Delivered}"
    "disp = CallbackDispatchDeadLetter \<Longrightarrow> s' = s \<and> d_status d = DeadLetter \<or> d_status d \<noteq> DeadLetter"
    "disp = CallbackDispatchReady \<Longrightarrow> d_status d \<noteq> DeadLetter"
  using assms unfolding callback_decide_def start_attempt_def Let_def
  by (cases "d_status d"; auto split: if_splits option.splits)+

lemma Begin_complete:
  assumes "callbacks_ok s" and "BeginCallbackAttempt decrypt s i g t now lease = (Inr (x, CallbackDispatchComplete), s')"
  shows "callback_settled s' i g"
proof -
  have ok: "deliveries_ok s" using assms(1) by (simp add: callbacks_ok_def)
  from Begin_loaded [OF assms(2)] obtain d a e row c body ev where j: "callback_join s i = Some (d, a, e, row, c)"
    "d_generation d = g"
    and "callback_decide decrypt s d e c (loaded_dispatch d a body ev) t (postgresTime now) lease
      = (Inr (x, CallbackDispatchComplete), s')" .
  from callback_decide_answer(4) [OF this(3)] have "s' = s" "d_status d \<in> {Acked, Delivered}" by simp_all
  then show ?thesis using callback_join_find(1) [OF ok j(1)] j(2) by (auto simp: callback_settled_def)
qed

lemma Begin_answer:
  assumes "callbacks_ok s" and "BeginCallbackAttempt decrypt s i g t now lease = (Inr (x, disp), s')"
  shows "cd_delivery_id x = i" "cd_generation x = g"
    "disp = CallbackDispatchReady \<Longrightarrow> \<not> cd_dlq_published x"
    "disp = CallbackDispatchDeadLetter \<Longrightarrow> cd_dlq_published x \<Longrightarrow> callback_settled s' i g"
proof -
  have ok: "deliveries_ok s" using assms(1) by (simp add: callbacks_ok_def)
  from Begin_loaded [OF assms(2)] obtain d a e row c body ev where j: "callback_join s i = Some (d, a, e, row, c)"
    "d_generation d = g"
    and dec: "callback_decide decrypt s d e c (loaded_dispatch d a body ev) t (postgresTime now) lease = (Inr (x, disp), s')" .
  note f = callback_join_find [OF ok j(1)]
  have id: "d_id d = i" using find_delivery_in [OF f(1)] by simp
  note ans = callback_decide_answer [OF dec]
  show "cd_delivery_id x = i" "cd_generation x = g" using ans(1,2) id j(2) by (simp_all add: loaded_dispatch_def)
  have dlq: "cd_dlq_published x \<Longrightarrow> d_callback_dlq_published_at d \<noteq> None" using ans(3) by (simp add: loaded_dispatch_def)
  note row = callbacks_ok_find [OF assms(1) f(1), unfolded callback_row_ok_def]
  show "\<not> cd_dlq_published x" if "disp = CallbackDispatchReady" using ans(6) [OF that] dlq row by blast
  show "callback_settled s' i g" if "disp = CallbackDispatchDeadLetter" "cd_dlq_published x"
    using ans(5) [OF that(1)] dlq [OF that(2)] row f(1) j(2) by (auto simp: callback_settled_def)
qed

lemma Finish_delivered:
  assumes "callbacks_ok s" and "FinishCallbackAttempt s i g t n tr = (Inr (), s')" and "ct_status tr = JobDelivered"
  shows "callback_settled s' i g"
proof -
  have ok: "deliveries_ok s" using assms(1) by (simp add: callbacks_ok_def)
  show ?thesis
    by (cases rule: Finish_cases [OF ok assms(2), case_names failed repeated finished])
       (simp_all add: callback_settled_def assms(3) finish_status_def holds_callback_def finish_row_def)
qed

lemma Mark_settled:
  assumes "callbacks_ok s" and "MarkCallbackDLQPublished s i g now = (Inr (), s')"
  shows "callback_settled s' i g"
proof -
  have ok: "deliveries_ok s" using assms(1) by (simp add: callbacks_ok_def)
  show ?thesis
    by (cases rule: Mark_cases [OF ok assms(2), case_names failed marked])
       (simp_all add: callback_settled_def marked_row_def)
qed

lemma pg_callback_ops_simps [simp]:
  "cb_begin (pg_callback_ops decrypt) = BeginCallbackAttempt decrypt"
  "cb_finish (pg_callback_ops decrypt) = FinishCallbackAttempt"
  "cb_mark (pg_callback_ops decrypt) = MarkCallbackDLQPublished"
  by (simp_all add: pg_callback_ops_def)

interpretation pg_callbacks: callback_store "pg_callback_ops decrypt" callback_settled callbacks_ok
  by (unfold_locales; unfold pg_callback_ops_simps)
     (erule Begin_ok, assumption, erule Finish_ok, assumption, blast dest: Begin_answer(1,2), erule Begin_complete,
      assumption, blast dest: Begin_answer(4), blast dest: Begin_answer(3), erule Finish_delivered, assumption+,
      erule Mark_settled, assumption)

end
