(* ===== verification/CallbackRuns.thy ===== *)
theory CallbackRuns
  imports Callbacks
begin

text \<open>
  Sequences of calls to the callback store by any number of workers, and what they guarantee: a broker message
  is acknowledged only when its delivery is settled, a delivery gets a bounded number of attempts, and the
  worker that holds a lease can record its outcome, whatever the others do in the meantime.
\<close>

section \<open>Calls of several workers\<close>

datatype callback_cmd =
    BeginCmd string int string time duration
  | FinishCmd string int string int callback_transition
  | MarkCmd string int time

fun exec_cmd :: "(string \<Rightarrow> string option) \<Rightarrow> callback_cmd \<Rightarrow> db \<Rightarrow> db" where
  "exec_cmd decrypt (BeginCmd i g t now lease) s = snd (BeginCallbackAttempt decrypt s i g t now lease)"
| "exec_cmd decrypt (FinishCmd i g t n tr) s = snd (FinishCallbackAttempt s i g t n tr)"
| "exec_cmd decrypt (MarkCmd i g now) s = snd (MarkCallbackDLQPublished s i g now)"

definition exec_cmds :: "(string \<Rightarrow> string option) \<Rightarrow> callback_cmd list \<Rightarrow> db \<Rightarrow> db" where
  "exec_cmds decrypt cmds s = fold (exec_cmd decrypt) cmds s"

text \<open>Whether a call leases an attempt of delivery \<open>i\<close>, and how many of a sequence do.\<close>

fun grants :: "(string \<Rightarrow> string option) \<Rightarrow> string \<Rightarrow> callback_cmd \<Rightarrow> db \<Rightarrow> bool" where
  "grants decrypt i (BeginCmd j g t now lease) s =
     (j = i \<and> (case fst (BeginCallbackAttempt decrypt s j g t now lease) of
                 Inl _ \<Rightarrow> False | Inr (x, disp) \<Rightarrow> disp = CallbackDispatchReady))"
| "grants decrypt i _ s = False"

fun attempts_granted :: "(string \<Rightarrow> string option) \<Rightarrow> string \<Rightarrow> callback_cmd list \<Rightarrow> db \<Rightarrow> int" where
  "attempts_granted decrypt i [] s = 0"
| "attempts_granted decrypt i (c # cs) s =
     (if grants decrypt i c s then 1 else 0) + attempts_granted decrypt i cs (exec_cmd decrypt c s)"

lemma exec_cmd_ok: "callbacks_ok s \<Longrightarrow> callbacks_ok (exec_cmd decrypt c s)"
  by (cases c) (auto intro: Begin_ok [OF _ surjective_pairing] Finish_ok [OF _ surjective_pairing]
      Mark_ok [OF _ surjective_pairing])

lemma exec_cmd_attempts:
  assumes inv: "callbacks_ok s" and row: "find_delivery s i = Some d"
  shows "\<exists>d'. find_delivery (exec_cmd decrypt c s) i = Some d' \<and>
    (if grants decrypt i c s then d_attempts d < 6 \<and> d_attempts d' = d_attempts d + 1 else d_attempts d' = d_attempts d)"
proof -
  have ok: "deliveries_ok s" using inv by (simp add: callbacks_ok_def)
  show ?thesis
  proof (cases c)
    case (BeginCmd j g t now lease)
    obtain r s' where b: "BeginCallbackAttempt decrypt s j g t now lease = (r, s')" by fastforce
    show ?thesis
    proof (cases rule: Begin_cases [OF ok b, case_names same dead ready])
      case same
      then show ?thesis using BeginCmd b row by (auto split: sum.splits)
    next
      case (dead e reason x)
      then show ?thesis using BeginCmd b row by (auto simp: dead_row_def)
    next
      case (ready e a cr x)
      then show ?thesis using BeginCmd b row by (auto simp: ready_row_def)
    qed
  next
    case (FinishCmd j g t n tr)
    obtain r s' where f: "FinishCallbackAttempt s j g t n tr = (r, s')" by fastforce
    show ?thesis
      by (cases rule: Finish_cases [OF ok f, case_names failed repeated finished])
         (use FinishCmd f row in \<open>auto simp: finish_row_def\<close>)
  next
    case (MarkCmd j g now)
    obtain r s' where m: "MarkCallbackDLQPublished s j g now = (r, s')" by fastforce
    show ?thesis
      by (cases rule: Mark_cases [OF ok m, case_names failed marked]) (use MarkCmd m row in \<open>auto simp: marked_row_def\<close>)
  qed
qed

lemma attempts_granted_le:
  "callbacks_ok s \<Longrightarrow> find_delivery s i = Some d \<Longrightarrow> attempts_granted decrypt i cmds s \<le> max 0 (6 - d_attempts d)"
proof (induction cmds arbitrary: s d)
  case (Cons c cs)
  obtain d' where d': "find_delivery (exec_cmd decrypt c s) i = Some d'"
    "if grants decrypt i c s then d_attempts d < 6 \<and> d_attempts d' = d_attempts d + 1 else d_attempts d' = d_attempts d"
    using exec_cmd_attempts [OF Cons.prems] by blast
  from Cons.IH [OF exec_cmd_ok [OF Cons.prems(1)] d'(1)] d'(2) show ?case by (auto split: if_splits)
qed simp

section \<open>The holder of a lease\<close>

definition attempt_id :: "delivery_attempt \<Rightarrow> string \<times> int \<times> int" where
  "attempt_id a = (da_delivery_id a, da_generation a, da_attempt a)"

text \<open>The primary key of the attempts, and that no attempt is ahead of its delivery's counter.\<close>

definition attempts_ok :: "db \<Rightarrow> bool" where
  "attempts_ok s \<longleftrightarrow>
     distinct (map attempt_id (delivery_attempts s)) \<and>
     list_all (\<lambda>a. list_all (\<lambda>d. d_id d = da_delivery_id a \<and> d_generation d = da_generation a \<longrightarrow>
                                 da_attempt a \<le> d_attempts d) (deliveries s)) (delivery_attempts s)"

text \<open>Calls that do not act for the holder of token \<open>t\<close> on \<open>i\<close>, made before the lease ends.\<close>

fun foreign :: "string \<Rightarrow> string \<Rightarrow> time \<Rightarrow> callback_cmd \<Rightarrow> bool" where
  "foreign i t expires (BeginCmd j g u now lease) = (j = i \<longrightarrow> postgresTime now < expires)"
| "foreign i t expires (FinishCmd j g u n tr) = (j = i \<longrightarrow> u \<noteq> t)"
| "foreign i t expires (MarkCmd j g now) = True"

lemma attempt_key_id: "attempt_key i g n = (\<lambda>a. attempt_id a = (i, g, n))"
  by (simp add: attempt_key_def attempt_id_def fun_eq_iff)

text \<open>What the holder relies on: its row, with the lease, and its attempt.\<close>

definition leased_row :: "string \<Rightarrow> string \<Rightarrow> time \<Rightarrow> delivery \<Rightarrow> bool" where
  "leased_row i t expires d \<longleftrightarrow>
     d_id d = i \<and> d_status d = Dispatched \<and> d_callback_token d = Some t \<and> t \<noteq> [] \<and>
     d_callback_expires_at d = Some expires \<and> d_sink d = CallbackSink"

definition held :: "string \<Rightarrow> string \<Rightarrow> time \<Rightarrow> delivery \<Rightarrow> delivery_attempt \<Rightarrow> db \<Rightarrow> bool" where
  "held i t expires d a s \<longleftrightarrow>
     callbacks_ok s \<and> distinct (map attempt_id (delivery_attempts s)) \<and> find_delivery s i = Some d \<and>
     leased_row i t expires d \<and> a \<in> set (delivery_attempts s) \<and>
     attempt_id a = (i, d_generation d, d_attempts d) \<and> da_callback_token a = Some t"

lemma exec_foreign:
  assumes held: "held i t expires d a s" and cmd: "foreign i t expires c"
  shows "held i t expires d a (exec_cmd decrypt c s)"
proof -
  have inv: "callbacks_ok s" and find: "find_delivery s i = Some d" and row: "leased_row i t expires d"
    and dist: "distinct (map attempt_id (delivery_attempts s))" and a: "a \<in> set (delivery_attempts s)"
    "attempt_id a = (i, d_generation d, d_attempts d)" "da_callback_token a = Some t"
    using held by (simp_all add: held_def)
  have ok: "deliveries_ok s" using inv by (simp add: callbacks_ok_def)
  let ?s = "exec_cmd decrypt c s"
  have "find_delivery ?s i = Some d \<and> distinct (map attempt_id (delivery_attempts ?s)) \<and> a \<in> set (delivery_attempts ?s)"
  proof (cases c)
    case (BeginCmd j g u now lease)
    obtain r s' where b: "BeginCallbackAttempt decrypt s j g u now lease = (r, s')" by fastforce
    have live: "live_callback d (postgresTime now)" if "j = i"
      using that cmd row BeginCmd by (simp add: live_callback_def leased_row_def)
    show ?thesis
    proof (cases rule: Begin_cases [OF ok b, case_names same dead ready])
      case same
      then show ?thesis using BeginCmd b find dist a by simp
    next
      case (dead e reason x)
      then have "j \<noteq> i" using live find by auto
      then show ?thesis using dead BeginCmd b find dist a by simp
    next
      case (ready e a' cr x)
      then have "j \<noteq> i" using live find by auto
      moreover have "attempt_id (started_row j g (d_attempts e + 1) u (postgresTime now)) \<notin> attempt_id ` set (delivery_attempts s)"
        if "\<not> sql_exists (attempt_key j g (d_attempts e + 1)) (delivery_attempts s)"
        using that by (auto simp: attempt_key_id started_row_def attempt_id_def)
      ultimately show ?thesis using ready BeginCmd b find dist a by auto
    qed
  next
    case (FinishCmd j g u n tr)
    obtain r s' where f: "FinishCallbackAttempt s j g u n tr = (r, s')" by fastforce
    show ?thesis
    proof (cases rule: Finish_cases [OF ok f, case_names failed repeated finished])
      case (finished e)
      have "e = d" if "j = i" using that finished(2) find by simp
      then have ne: "j \<noteq> i"
        using finished(3) cmd row unfolding FinishCmd foreign.simps by (auto simp: holds_callback_def leased_row_def)
      have "map attempt_id (delivery_attempts s') = map attempt_id (delivery_attempts s)"
        unfolding finished(6) by (auto simp: sql_update_def attempt_id_def)
      moreover have "\<not> attempt_key j g n a" using a ne by (simp add: attempt_key_id)
      then have "a \<in> set (delivery_attempts s')"
        unfolding finished(6) using a(1) by (auto simp: sql_update_def intro: rev_image_eqI)
      moreover have "find_delivery s' i = Some d" using finished(5) [of i] ne find by simp
      ultimately show ?thesis using FinishCmd f dist by simp
    qed (use FinishCmd f find dist a in simp_all)
  next
    case (MarkCmd j g now)
    obtain r s' where m: "MarkCallbackDLQPublished s j g now = (r, s')" by fastforce
    show ?thesis
    proof (cases rule: Mark_cases [OF ok m, case_names failed marked])
      case (marked e)
      have "e = d" if "j = i" using that marked(2) find by simp
      then have "j \<noteq> i" using marked(5) row by (auto simp: leased_row_def)
      then show ?thesis using marked(7,8) MarkCmd m find dist a by simp
    qed (use MarkCmd m find dist a in simp_all)
  qed
  then show ?thesis using exec_cmd_ok [OF inv] held by (simp add: held_def)
qed

lemma exec_foreigns:
  "held i t expires d a s \<Longrightarrow> list_all (foreign i t expires) cmds \<Longrightarrow> held i t expires d a (exec_cmds decrypt cmds s)"
  by (induction cmds arbitrary: s) (auto simp: exec_cmds_def intro: exec_foreign)

lemma Begin_held:
  assumes inv: "callbacks_ok s" "attempts_ok s"
    and b: "BeginCallbackAttempt decrypt s i g t now lease = (Inr (x, CallbackDispatchReady), s1)"
  shows "\<exists>d a. held i t (cd_lease_expires_at x) d a s1 \<and> d_generation d = g \<and> d_attempts d = cd_attempt x"
proof -
  have ok: "deliveries_ok s" using inv(1) by (simp add: callbacks_ok_def)
  have t: "t \<noteq> []" using b by (auto simp: BeginCallbackAttempt_def split: if_splits)
  show ?thesis
  proof (cases rule: Begin_cases [OF ok b, case_names same dead ready])
    case (ready d app cr y)
    note in_d = find_delivery_in [OF ready(1)]
    let ?d = "ready_row t (postgresTime now) lease app cr d"
    let ?a = "started_row i g (d_attempts d + 1) t (postgresTime now)"
    have no: "\<not> sql_exists (attempt_key i g (d_attempts d + 1)) (delivery_attempts s)"
      using inv(2) in_d ready(3) by (force simp: attempts_ok_def attempt_key_def list_all_iff)
    then have "attempt_id ?a \<notin> attempt_id ` set (delivery_attempts s)"
      by (auto simp: attempt_key_id started_row_def attempt_id_def)
    then have "held i t (cd_lease_expires_at x) ?d ?a s1"
      using Begin_ok [OF inv(1) b] inv(2) ready no t in_d
      by (auto simp: held_def leased_row_def ready_row_def started_row_def attempt_id_def attempts_ok_def)
    moreover have "d_generation ?d = g" "d_attempts ?d = cd_attempt x" using ready by (auto simp: ready_row_def)
    ultimately show ?thesis by blast
  next
    case same
    then show ?thesis by blast
  qed simp
qed

lemma Finish_holder:
  assumes held: "held i t expires d a s" and now: "postgresTime (ct_now tr) < expires"
    and st: "ct_status tr \<in> {JobDelivered, JobPending, JobDeadLetter}" "ct_status tr = JobPending \<Longrightarrow> ct_retry_at tr \<noteq> zero_time"
  shows "\<exists>s'. FinishCallbackAttempt s i (d_generation d) t (d_attempts d) tr = (Inr (), s')"
proof -
  let ?now = "postgresTime (ct_now tr)" and ?g = "d_generation d" and ?n = "d_attempts d"
  let ?P = "holds_callback i ?g t ?n ?now"
  let ?f = "finish_row (finish_status (ct_status tr)) (rounded_retry tr) (ct_reason tr) ?now"
  have ok: "deliveries_ok s" and find: "find_delivery s i = Some d" and row: "leased_row i t expires d"
    and dist: "distinct (map attempt_id (delivery_attempts s))" and a: "a \<in> set (delivery_attempts s)"
    "attempt_id a = (i, ?g, ?n)"
    using held by (simp_all add: held_def callbacks_ok_def)
  have P: "\<forall>x. ?P x \<longrightarrow> d_id x = i" "\<And>x. d_id (?f x) = d_id x" "\<forall>x. delivery_check x \<longrightarrow> delivery_check (?f x)"
    by (simp_all add: holds_callback_def delivery_check_rows(3), simp add: finish_row_def)
  have count: "sql_count (attempt_key i ?g ?n) (delivery_attempts s) = 1"
    using dist a by (intro sql_count_key_1 [where k = attempt_id and r = a and key = "(i, ?g, ?n)"]) (simp_all add: attempt_key_id)
  show ?thesis
  proof (cases rule: update_keyed [where P = ?P and i = i and f = ?f, OF ok P, case_names none one])
    case none
    then have "\<not> ?P d" using find by blast
    then show ?thesis using row now by (simp add: holds_callback_def leased_row_def)
  next
    case (one e s1)
    then show ?thesis using st count by (auto simp: FinishCallbackAttempt_def Let_def)
  qed
qed

lemma postgresTime_idem [simp]: "postgresTime (postgresTime t) = postgresTime t"
proof -
  have "(t - t mod 1000) mod 1000 = 0" by (simp add: mod_diff_eq)
  then show ?thesis by (simp add: postgresTime_def truncate_us_def)
qed

lemma same_retry: "sameOptionalTime (nullableTime (rounded_retry tr)) (rounded_retry tr)"
  by (simp add: sameOptionalTime_def nullableTime_def)

lemma Finish_repeat:
  assumes held: "held i t expires d a s" and n: "n = d_attempts d" and g: "g = d_generation d"
    and fin: "FinishCallbackAttempt s i g t n tr = (Inr (), s')"
  shows "(\<exists>d'. find_delivery s' i = Some d' \<and> d_status d' = finish_status (ct_status tr)) \<and>
    FinishCallbackAttempt s' i g t n tr = (Inr (), s')"
proof -
  let ?st = "finish_status (ct_status tr)" and ?now = "postgresTime (ct_now tr)"
  have ok: "deliveries_ok s" and find: "find_delivery s i = Some d" and row: "leased_row i t expires d"
    and dist: "distinct (map attempt_id (delivery_attempts s))" and a: "a \<in> set (delivery_attempts s)"
    "attempt_id a = (i, g, n)" "da_callback_token a = Some t"
    using held n g by (simp_all add: held_def callbacks_ok_def)
  have guards: "\<not> (ct_status tr \<noteq> JobDelivered \<and> ct_status tr \<noteq> JobPending \<and> ct_status tr \<noteq> JobDeadLetter)"
    "\<not> (ct_status tr = JobPending \<and> ct_retry_at tr = zero_time)"
    using fin by (auto simp: FinishCallbackAttempt_def split: if_splits)
  show ?thesis
  proof (cases rule: Finish_cases [OF ok fin, case_names failed repeated finished])
    case (repeated e)
    then show ?thesis using find row by (auto simp: leased_row_def finish_status_def split: if_splits)
  next
    case (finished e)
    let ?d = "finish_row ?st (rounded_retry tr) (ct_reason tr) ?now d"
    let ?u = "\<lambda>x. x\<lparr>da_outcome := status_text ?st, da_reason := Some (ct_reason tr), da_updated_at := ?now\<rparr>"
    let ?P = "holds_callback i g t n ?now" and ?f = "finish_row ?st (rounded_retry tr) (ct_reason tr) ?now"
    have e: "e = d" using finished(2) find by simp
    have d': "find_delivery s' i = Some ?d" using finished(5) [of i] e by simp
    have key: "d_id ?d = i" "d_generation ?d = g" "d_attempts ?d = n" "d_callback_token ?d = None" "d_status ?d = ?st"
      "d_callback_retry_at ?d = nullableTime (rounded_retry tr)"
      using row n g by (simp_all add: finish_row_def leased_row_def)
    have P: "\<forall>x. ?P x \<longrightarrow> d_id x = i" "\<And>x. d_id (?f x) = d_id x" "\<forall>x. delivery_check x \<longrightarrow> delivery_check (?f x)"
      by (simp_all add: holds_callback_def delivery_check_rows(3), simp add: finish_row_def)
    have none: "sql_count ?P (deliveries s') = 0 \<and> update_deliveries ?P ?f s' = Some s'"
    proof (cases rule: update_keyed [where P = ?P and i = i and f = ?f, OF finished(4) P, case_names none one])
      case none
      then show ?thesis by blast
    next
      case (one e' s1)
      have "e' = ?d" using one(2) d' by (metis option.inject)
      then show ?thesis using one(3) key(4) unfolding holds_callback_def by (metis option.distinct(1))
    qed
    have "sql_row (\<lambda>x. (d_id x, d_generation x, d_attempts x) = (i, g, n)) (deliveries s') = Some ?d"
      using finished(4) find_delivery_in [OF d'] key
      by (intro sql_row_key [of "\<lambda>x. (d_id x, d_generation x, d_attempts x)"])
         (auto simp: deliveries_ok_def distinct_map inj_on_def)
    then have rd: "sql_row (\<lambda>x. d_id x = i \<and> d_generation x = g \<and> d_attempts x = n) (deliveries s') = Some ?d"
      by simp
    have ids: "map attempt_id (delivery_attempts s') = map attempt_id (delivery_attempts s)"
      unfolding finished(6) by (auto simp: sql_update_def attempt_id_def)
    have "?u a \<in> set (delivery_attempts s')"
      unfolding finished(6) using a by (auto simp: sql_update_def attempt_key_id intro: rev_image_eqI)
    moreover have "attempt_id (?u a) = (i, g, n)" using a(2) by (simp add: attempt_id_def)
    ultimately have ra: "sql_row (attempt_key i g n) (delivery_attempts s') = Some (?u a)"
      unfolding attempt_key_id using dist ids by (intro sql_row_key) simp_all
    have "FinishCallbackAttempt s' i g t n tr = (Inr (), s')"
      unfolding FinishCallbackAttempt_def if_not_P [OF guards(1)] if_not_P [OF guards(2)] Let_def
      by (simp add: none rd ra key a(3) stringValue_def coalesce_def same_retry)
    then show ?thesis using d' key by simp
  qed simp
qed

section \<open>A database for the witnesses\<close>

definition callback_message :: string where
  "callback_message = object_text [(''delivery_id'', json_quote ''d''), (''generation'', ''1''),
     (''event'', object_text [(''id'', json_quote ''e''), (''type'', json_quote ''t''),
        (''source_app_id'', json_quote ''a''), (''target_app_ids'', ''[]''), (''data'', ''{}''),
        (''created_at'', json_quote ''2024-01-01T00:00:00Z'')])]"

definition callback_delivery :: delivery where
  "callback_delivery =
     \<lparr>d_id = ''d'', d_public_job_id = ''j'', d_event_id = ''e'', d_source_app_id = ''a'', d_target_app_id = ''b'',
      d_sink = CallbackSink, d_status = Pending, d_attempts = 4, d_generation = 1, d_assigned_connection_id = None,
      d_assignment_token = None, d_assignment_started_at = None, d_assignment_expires_at = None,
      d_assignment_max_expires_at = None, d_callback_token = None, d_callback_expires_at = None,
      d_callback_retry_at = None, d_callback_url = None, d_callback_credential_version = None,
      d_callback_reason = None, d_callback_dlq_published_at = None, d_created_at = 0, d_updated_at = 0\<rparr>"

definition callback_db :: db where
  "callback_db = empty_db\<lparr>
     applications := [\<lparr>app_id = ''b'', app_name = ''B'', app_callback_url = Some ''https://b/hook'',
       app_delivery_mode = DeliveryCallback, app_enabled = True\<rparr>],
     credentials := [\<lparr>cr_app_id = ''b'', cr_version = 1, cr_encrypted_hmac_secret = ''s'', cr_revoked_at = None\<rparr>],
     events := [\<lparr>ev_id = ''e'', ev_type = ''t'', ev_source_app_id = ''a'', ev_target_app_ids = [''b''], ev_data = ''{}'',
       ev_created_at = 0, ev_expires_at = 3600 * second, ev_queue_available_at = None, ev_queue_ordering_key = None,
       ev_queue_priority = 0, ev_queue_metadata = []\<rparr>],
     deliveries := [callback_delivery],
     outbox := [\<lparr>ob_id = ''o'', ob_event_id = ''e'', ob_delivery_id = ''d'', ob_subject = ''x'', ob_payload = callback_message,
       ob_message_id = ''m'', ob_attempts = 1, ob_generation = 1, ob_available_at = 0, ob_claimed_at = None,
       ob_claim_token = None, ob_dispatched_at = None, ob_failed_at = None, ob_last_error = None, ob_created_at = 0,
       ob_updated_at = 0\<rparr>]\<rparr>"

text \<open>A worker whose receiver answers with the given status.\<close>

definition callback_env :: "int \<Rightarrow> db worker_env" where
  "callback_env status =
     \<lparr>we_now_begin = 10 * second, we_now_finish = 11 * second, we_now_mark = 12 * second, we_token = ''tok'',
      we_token_of = (\<lambda>x. x), we_publish = (\<lambda>sub pay m. True),
      we_deliver = (\<lambda>d. \<lparr>dr_status = status, dr_retry_after = [], dr_err = False\<rparr>),
      we_parse_http_time = (\<lambda>x. None), we_interfere = (\<lambda>x. x), we_cancelled = False\<rparr>"

section \<open>Properties\<close>



text \<open>
  C24.  At most six attempts.  Whatever calls any number of workers make in whatever order, a delivery is leased
  for an attempt at most as many times as its counter leaves of six.
\<close>

theorem callback_attempts_bounded:
  assumes "callbacks_ok s" and "find_delivery s i = Some d"
  shows "attempts_granted decrypt i cmds s \<le> max 0 (6 - d_attempts d)"
  using assms by (rule attempts_granted_le)

theorem callback_attempts_bounded_witness:
  "let b = (\<lambda>t now. BeginCmd ''d'' 1 t now (30 * second)); cmds = [b ''x'' 0, b ''y'' second, b ''y'' (40 * second), b ''z'' (80 * second)] in
   attempts_granted Some ''d'' cmds callback_db = 2 \<and> attempts_granted Some ''d'' cmds callback_db \<le> max 0 (6 - 4)"
proof -
  let ?b = "\<lambda>t now. BeginCmd ''d'' 1 t now (30 * second)"
  let ?cmds = "[?b ''x'' 0, ?b ''y'' second, ?b ''y'' (40 * second), ?b ''z'' (80 * second)]"
  have inv: "callbacks_ok callback_db" by code_simp
  have "find_delivery callback_db ''d'' = Some callback_delivery" by code_simp
  from callback_attempts_bounded [OF inv this, of Some ?cmds]
  have "attempts_granted Some ''d'' ?cmds callback_db \<le> max 0 (6 - 4)" by (simp add: callback_delivery_def)
  moreover have "attempts_granted Some ''d'' ?cmds callback_db = 2" by code_simp
  ultimately show ?thesis by (simp add: Let_def)
qed

text \<open>
  C25.  The worker that leased an attempt can record its outcome.  Whatever calls other workers interleave
  before the lease runs out, the holder's report is accepted while the lease lasts, the delivery takes the
  reported status, and sending the same report again is accepted and changes nothing.
\<close>

theorem lease_holder_finishes:
  assumes "callbacks_ok s" and "attempts_ok s"
    and "BeginCallbackAttempt decrypt s i g t now lease = (Inr (x, CallbackDispatchReady), s1)"
    and "list_all (foreign i t (cd_lease_expires_at x)) cmds"
    and "postgresTime (ct_now tr) < cd_lease_expires_at x"
    and "ct_status tr \<in> {JobDelivered, JobPending, JobDeadLetter}"
    and "ct_status tr = JobPending \<Longrightarrow> ct_retry_at tr \<noteq> zero_time"
  shows "\<exists>s3 d. FinishCallbackAttempt (exec_cmds decrypt cmds s1) i g t (cd_attempt x) tr = (Inr (), s3) \<and>
    find_delivery s3 i = Some d \<and> d_status d = finish_status (ct_status tr) \<and>
    FinishCallbackAttempt s3 i g t (cd_attempt x) tr = (Inr (), s3)"
proof -
  obtain d a where h: "held i t (cd_lease_expires_at x) d a s1" "d_generation d = g" "d_attempts d = cd_attempt x"
    using Begin_held [OF assms(1-3)] by blast
  have h2: "held i t (cd_lease_expires_at x) d a (exec_cmds decrypt cmds s1)" using h(1) assms(4) by (rule exec_foreigns)
  obtain s3 where s3: "FinishCallbackAttempt (exec_cmds decrypt cmds s1) i g t (cd_attempt x) tr = (Inr (), s3)"
    using Finish_holder [OF h2 assms(5-7)] h(2,3) by auto
  from Finish_repeat [OF h2 h(3) [symmetric] h(2) [symmetric] s3] s3 show ?thesis by blast
qed

definition delivered_transition :: callback_transition where
  "delivered_transition = \<lparr>ct_status = JobDelivered, ct_now = 20 * second, ct_retry_at = zero_time, ct_reason = ''http_success''\<rparr>"

theorem lease_holder_finishes_witness:
  "let s1 = snd (BeginCallbackAttempt Some callback_db ''d'' 1 ''tok'' 0 (30 * second));
       cmds = [BeginCmd ''d'' 1 ''other'' (10 * second) (30 * second), FinishCmd ''d'' 1 ''other'' 5 delivered_transition, MarkCmd ''d'' 1 0] in
   \<exists>s3 d. FinishCallbackAttempt (exec_cmds Some cmds s1) ''d'' 1 ''tok'' 5 delivered_transition = (Inr (), s3) \<and>
     find_delivery s3 ''d'' = Some d \<and> d_status d = Delivered"
proof -
  let ?b = "BeginCallbackAttempt Some callback_db ''d'' 1 ''tok'' 0 (30 * second)"
  let ?cmds = "[BeginCmd ''d'' 1 ''other'' (10 * second) (30 * second), FinishCmd ''d'' 1 ''other'' 5 delivered_transition, MarkCmd ''d'' 1 0]"
  have inv: "callbacks_ok callback_db" "attempts_ok callback_db" by code_simp+
  have "(case fst ?b of Inr (x, disp) \<Rightarrow> disp = CallbackDispatchReady \<and> cd_attempt x = 5 \<and> cd_lease_expires_at x = 30 * second
     | Inl _ \<Rightarrow> False)" by code_simp
  then obtain x where x: "?b = (Inr (x, CallbackDispatchReady), snd ?b)" "cd_attempt x = 5" "cd_lease_expires_at x = 30 * second"
    by (cases ?b) (auto split: sum.splits)
  have "list_all (foreign ''d'' ''tok'' (30 * second)) ?cmds" by code_simp
  then have "\<exists>s3 d. FinishCallbackAttempt (exec_cmds Some ?cmds (snd ?b)) ''d'' 1 ''tok'' (cd_attempt x) delivered_transition = (Inr (), s3) \<and>
     find_delivery s3 ''d'' = Some d \<and> d_status d = finish_status (ct_status delivered_transition) \<and>
     FinishCallbackAttempt s3 ''d'' 1 ''tok'' (cd_attempt x) delivered_transition = (Inr (), s3)"
    by (intro lease_holder_finishes [OF inv x(1)])
       (simp_all only: x(3), simp_all add: delivered_transition_def postgresTime_def truncate_us_def)
  then show ?thesis using x(2) by (auto simp: Let_def finish_status_def delivered_transition_def)
qed

text \<open>
  What an HTTP exchange leads to.  It counts as delivered exactly when there was no transport error and the
  status is 2xx; another attempt is asked for only before the sixth, only after a transport error or one of the
  statuses 408, 425, 429 and 5xx, and between zero and 300 seconds later, whatever the receiver wrote into
  \<^verbatim>\<open>Retry-After\<close>.
\<close>

theorem classify_bounds:
  "(oc_kind (Classify pht r n now) = OutcomeDelivered \<longleftrightarrow> \<not> dr_err r \<and> 200 \<le> dr_status r \<and> dr_status r < 300) \<and>
   (oc_kind (Classify pht r n now) = OutcomeRetry \<longleftrightarrow>
      n < 6 \<and> (dr_err r \<or> dr_status r \<in> {408, 425, 429} \<or> 500 \<le> dr_status r \<and> dr_status r \<le> 599)) \<and>
   (oc_kind (Classify pht r n now) = OutcomeRetry \<longrightarrow>
      now \<le> oc_retry_at (Classify pht r n now) \<and> oc_retry_at (Classify pht r n now) \<le> now + 300 * second)"
proof -
  have d: "0 \<le> retry_delays ! nat (max n 1 - 1)" "retry_delays ! nat (max n 1 - 1) \<le> 300 * second" if "n < 6"
  proof -
    have "nat (max n 1 - 1) \<in> {0, 1, 2, 3, 4}" using that by auto
    then show "0 \<le> retry_delays ! nat (max n 1 - 1)" "retry_delays ! nat (max n 1 - 1) \<le> 300 * second"
      by (auto simp: retry_delays_def)
  qed
  have "0 \<le> retry_after_delay pht h now w" "retry_after_delay pht h now w \<le> 300 * second"
    if "0 \<le> w" "w \<le> 300 * second" for h w
    using that by (auto simp: retry_after_delay_def Let_def split: option.splits)
  note ra = this [OF d]
  have "oc_kind (Classify pht r n now) = OutcomeRetry \<Longrightarrow>
      now \<le> oc_retry_at (Classify pht r n now) \<and> oc_retry_at (Classify pht r n now) \<le> now + 300 * second"
    using ra d by (auto simp: Classify_def Let_def MaxAttempts_def split: if_splits)
  then show ?thesis by (auto simp: Classify_def Let_def MaxAttempts_def split: if_splits)
qed

theorem classify_bounds_witness:
  "let o' = Classify (\<lambda>x. None) \<lparr>dr_status = 429, dr_retry_after = ''86400'', dr_err = False\<rparr> 5 (7 * second) in
   oc_kind o' = OutcomeRetry \<and> oc_retry_at o' \<le> 7 * second + 300 * second"
proof -
  let ?r = "\<lparr>dr_status = 429, dr_retry_after = ''86400'', dr_err = False\<rparr>"
  from classify_bounds [of "\<lambda>x. None" ?r 5 "7 * second"] show ?thesis by (simp add: Let_def)
qed

end
