(* ===== verification/Queue.thy ===== *)
theory Queue
  imports Auth
begin

text \<open>
  The pull queue in the store: \<^verbatim>\<open>store/postgres/queue_v2.go\<close>, the drain of
  \<^verbatim>\<open>store/postgres/queue_scheduler.go\<close> and the result callbacks of
  \<^verbatim>\<open>store/postgres/queue_callbacks.go\<close>.  A transaction that ends in an error leaves the database as it
  was.  SHA-256 and the database's \<^verbatim>\<open>md5\<close> are parameters; \<open>locked\<close> are the rows that concurrent
  transactions hold and \<^verbatim>\<open>SKIP LOCKED\<close> passes over.
\<close>

section \<open>Subscriptions\<close>

text \<open>The checks of migrations 015 and 018.\<close>

definition opt_check :: "('a \<Rightarrow> bool) \<Rightarrow> 'a option \<Rightarrow> bool" where
  "opt_check P v = (case v of None \<Rightarrow> True | Some x \<Rightarrow> P x)"

definition drain_order :: "queue_subscription \<Rightarrow> bool" where
  "drain_order q =
     (case (qs_draining_at q, qs_drain_deadline_at q) of
        (None, None) \<Rightarrow> qs_drained_at q = None
      | (Some a, Some b) \<Rightarrow> a \<le> b \<and> opt_check (\<lambda>c. a \<le> c) (qs_drained_at q)
      | _ \<Rightarrow> False)"

definition subscription_check :: "queue_subscription \<Rightarrow> bool" where
  "subscription_check q \<longleftrightarrow>
     1 \<le> qs_max_attempts q \<and> qs_max_attempts q \<le> 100 \<and>
     1 \<le> qs_default_visibility_seconds q \<and> qs_default_visibility_seconds q \<le> 900 \<and>
     qs_default_visibility_seconds q \<le> qs_max_visibility_seconds q \<and> qs_max_visibility_seconds q \<le> 3600 \<and>
     qs_max_visibility_seconds q \<le> qs_max_total_lease_seconds q \<and> qs_max_total_lease_seconds q \<le> 86400 \<and>
     60 \<le> qs_retention_seconds q \<and> qs_retention_seconds q \<le> 2592000 \<and>
     1 \<le> qs_max_in_flight q \<and> qs_max_in_flight q \<le> 10000 \<and>
     1 \<le> qs_max_batch_size q \<and> qs_max_batch_size q \<le> 100 \<and>
     0 \<le> qs_retry_delay_seconds q \<and> qs_retry_delay_seconds q \<le> 86400 \<and>
     (qs_ordering_mode q = ''none'' \<or> qs_ordering_mode q = ''key'') \<and>
     0 \<le> qs_deduplication_seconds q \<and> qs_deduplication_seconds q \<le> 86400 \<and>
     opt_check (\<lambda>r. 1 \<le> r \<and> r \<le> 100000) (qs_max_dispatch_rate q) \<and>
     0 < qs_policy_version q \<and> (qs_paused_at q = None \<or> qs_enabled q) \<and> drain_order q"

definition with_metadata :: "queue_subscription \<Rightarrow> queue_subscription" where
  "with_metadata q = (if qs_result_callback_metadata q = [] then q\<lparr>qs_result_callback_metadata := ''{}''\<rparr> else q)"

definition CreateQueueSubscription :: "db \<Rightarrow> queue_subscription \<Rightarrow> (store_error + unit) \<times> db" where
  "CreateQueueSubscription s item0 =
     (let item = with_metadata item0 in
      if \<not> subscription_check item then (Inl ErrDB, s)
      else if sql_exists (\<lambda>q. qs_id q = qs_id item \<or> qs_app_id q = qs_app_id item \<and> qs_name q = qs_name item)
                (queue_subscriptions s)
      then (Inl ErrConflict, s)
      else if \<not> sql_exists (\<lambda>a. app_id a = qs_app_id item) (applications s) then (Inl ErrDB, s)
      else (Inr (), s\<lparr>queue_subscriptions := queue_subscriptions s @ [item]\<rparr>))"

definition ListQueueSubscriptions :: "db \<Rightarrow> string \<Rightarrow> queue_subscription list" where
  "ListQueueSubscriptions s appID =
     sort_key (\<lambda>q. (qs_created_at q, qs_id q)) (filter (\<lambda>q. qs_app_id q = appID) (queue_subscriptions s))"

definition GetQueueSubscription :: "db \<Rightarrow> string \<Rightarrow> string \<Rightarrow> store_error + queue_subscription" where
  "GetQueueSubscription s appID i =
     (case sql_row (\<lambda>q. qs_app_id q = appID \<and> qs_id q = i) (queue_subscriptions s) of
        None \<Rightarrow> Inl ErrNotFound | Some q \<Rightarrow> Inr q)"

text \<open>The columns an update sets; identity, creation and drain stay.\<close>

definition updated_subscription :: "queue_subscription \<Rightarrow> queue_subscription \<Rightarrow> queue_subscription" where
  "updated_subscription item q =
     item\<lparr>qs_id := qs_id q, qs_app_id := qs_app_id q, qs_draining_at := qs_draining_at q,
          qs_drain_deadline_at := qs_drain_deadline_at q, qs_drained_at := qs_drained_at q,
          qs_policy_version := qs_policy_version q + 1, qs_created_at := qs_created_at q\<rparr>"

definition UpdateQueueSubscription ::
    "db \<Rightarrow> queue_subscription \<Rightarrow> int \<Rightarrow> (store_error + queue_subscription) \<times> db" where
  "UpdateQueueSubscription s item0 expectedVersion =
     (let item = with_metadata item0;
          P = (\<lambda>q. qs_app_id q = qs_app_id item \<and> qs_id q = qs_id item \<and> qs_policy_version q = expectedVersion) in
      case sql_row P (queue_subscriptions s) of
        None \<Rightarrow>
          (case GetQueueSubscription s (qs_app_id item) (qs_id item) of
             Inr _ \<Rightarrow> (Inl ErrConflict, s) | Inl _ \<Rightarrow> (Inl ErrNotFound, s))
      | Some q \<Rightarrow>
          let updated = updated_subscription item q in
          if \<not> subscription_check updated then (Inl ErrDB, s)
          else if sql_exists (\<lambda>x. qs_id x \<noteq> qs_id q \<and> qs_app_id x = qs_app_id updated \<and> qs_name x = qs_name updated)
                    (queue_subscriptions s)
          then (Inl ErrConflict, s)
          else (Inr updated,
                s\<lparr>queue_subscriptions := sql_update P (updated_subscription item) (queue_subscriptions s)\<rparr>))"

text \<open>Deleting a subscription deletes what refers to it (\<^verbatim>\<open>ON DELETE CASCADE\<close>).\<close>

definition DeleteQueueSubscription :: "db \<Rightarrow> string \<Rightarrow> string \<Rightarrow> (store_error + unit) \<times> db" where
  "DeleteQueueSubscription s appID i =
     (let P = (\<lambda>q. qs_app_id q = appID \<and> qs_id q = i);
          gone = (\<lambda>x. x \<in> set (map qs_id (filter P (queue_subscriptions s))));
          deliveryGone = (\<lambda>x. x \<in> set (map qd_id (filter (\<lambda>d. gone (qd_subscription_id d)) (queue_deliveries s))));
          scheduleGone = (\<lambda>x. x \<in> set (map sc_id (filter (\<lambda>c. gone (sc_subscription_id c)) (queue_schedules s))));
          callbackGone = (\<lambda>x. x \<in> set (map rc_id (filter (\<lambda>c. gone (rc_subscription_id c)) (result_callbacks s)))) in
      if \<not> sql_exists P (queue_subscriptions s) then (Inl ErrNotFound, s)
      else (Inr (), s\<lparr>queue_subscriptions := filter (\<lambda>q. \<not> P q) (queue_subscriptions s),
                      queue_dedup_keys := filter (\<lambda>k. \<not> gone (dk_subscription_id k)) (queue_dedup_keys s),
                      queue_deliveries := filter (\<lambda>d. \<not> gone (qd_subscription_id d)) (queue_deliveries s),
                      queue_attempts := filter (\<lambda>a. \<not> deliveryGone (qa_delivery_id a)) (queue_attempts s),
                      queue_schedules := filter (\<lambda>c. \<not> gone (sc_subscription_id c)) (queue_schedules s),
                      queue_occurrences := filter (\<lambda>o'. \<not> scheduleGone (oc_schedule_id o')) (queue_occurrences s),
                      result_callbacks := filter (\<lambda>c. \<not> gone (rc_subscription_id c)) (result_callbacks s),
                      result_callback_attempts :=
                        filter (\<lambda>a. \<not> callbackGone (ra_callback_id a)) (result_callback_attempts s)\<rparr>))"

section \<open>Result callbacks and attempts of a delivery\<close>

definition nullif_empty :: "string \<Rightarrow> string option" where
  "nullif_empty t = (if t = [] then None else Some t)"

definition attempt_exists :: "queue_attempt \<Rightarrow> queue_attempt list \<Rightarrow> bool" where
  "attempt_exists a rows =
     sql_exists (\<lambda>x. qa_delivery_id x = qa_delivery_id a \<and> qa_generation x = qa_generation a \<and>
                     qa_attempt x = qa_attempt a \<and> qa_outcome x = qa_outcome a) rows"

text \<open>With and without \<^verbatim>\<open>ON CONFLICT DO NOTHING\<close>.\<close>

definition insert_queue_attempt_ignore :: "queue_attempt \<Rightarrow> db \<Rightarrow> db" where
  "insert_queue_attempt_ignore a s =
     (if attempt_exists a (queue_attempts s) then s else s\<lparr>queue_attempts := queue_attempts s @ [a]\<rparr>)"

definition insert_queue_attempt :: "queue_attempt \<Rightarrow> db \<Rightarrow> db option" where
  "insert_queue_attempt a s =
     (if attempt_exists a (queue_attempts s) then None else Some (s\<lparr>queue_attempts := queue_attempts s @ [a]\<rparr>))"

definition new_result_callback ::
    "string \<Rightarrow> string \<Rightarrow> string \<Rightarrow> string \<Rightarrow> string \<Rightarrow> int \<Rightarrow> string \<Rightarrow> string \<Rightarrow> string \<Rightarrow> time \<Rightarrow> result_callback" where
  "new_result_callback i appID subscriptionID deliveryID eventID generation outcome url payload now =
     \<lparr>rc_id = i, rc_app_id = appID, rc_subscription_id = subscriptionID, rc_delivery_id = deliveryID,
      rc_event_id = eventID, rc_generation = generation, rc_outcome = outcome, rc_url = url, rc_payload = payload,
      rc_status = CbPending, rc_attempts = 0, rc_available_at = now, rc_claim_token = None,
      rc_claim_expires_at = None, rc_claim_generation = 0, rc_last_reason = None, rc_created_at = now,
      rc_updated_at = now\<rparr>"

text \<open>\<^verbatim>\<open>ON CONFLICT(delivery_id,generation,outcome) DO NOTHING\<close>; a clash of the primary key is an error.\<close>

definition insert_result_callback_row :: "result_callback \<Rightarrow> db \<Rightarrow> db option" where
  "insert_result_callback_row c s =
     (if sql_exists (\<lambda>x. rc_delivery_id x = rc_delivery_id c \<and> rc_generation x = rc_generation c \<and>
                         rc_outcome x = rc_outcome c) (result_callbacks s) then Some s
      else if sql_exists (\<lambda>x. rc_id x = rc_id c) (result_callbacks s) then None
      else Some (s\<lparr>result_callbacks := result_callbacks s @ [c]\<rparr>))"

text \<open>\<^verbatim>\<open>time.Unix(generation, 0).UTC().String()\<close>.\<close>

definition unix_string :: "int \<Rightarrow> string" where
  "unix_string secs =
     (let day = secs div 86400; sod = secs mod 86400 in
      case civil_from_days day of (y, m, d) \<Rightarrow>
        (if y \<le> 9999 then pad4 y else show_int y) @ CHR ''-'' # pad2 m @ CHR ''-'' # pad2 d @ CHR '' '' # pad2 (sod div 3600) @
        CHR '':'' # pad2 (sod mod 3600 div 60) @ CHR '':'' # pad2 (sod mod 60) @ '' +0000 UTC'')"

definition insertQueueResultCallback ::
    "(string \<Rightarrow> string) \<Rightarrow> queue_subscription \<Rightarrow> string \<Rightarrow> string \<Rightarrow> int \<Rightarrow> int \<Rightarrow> queue_status \<Rightarrow> time \<Rightarrow> db \<Rightarrow> db option" where
  "insertQueueResultCallback sha q deliveryID eventID generation attempts status now s =
     (let (outcome, callbackURL) =
        (if status = QDeadLetter then (''failure'', qs_failure_callback_url q) else (''success'', qs_success_callback_url q)) in
      case callbackURL of
        None \<Rightarrow> Some s
      | Some url \<Rightarrow>
          (case raw_message_text (qs_result_callback_metadata q) of
             None \<Rightarrow> None
           | Some meta \<Rightarrow>
               let payload = object_text
                     [(''app_id'', json_quote (qs_app_id q)), (''attempt_count'', show_int attempts),
                      (''delivery_id'', json_quote deliveryID), (''event_id'', json_quote eventID),
                      (''generation'', show_int generation), (''metadata'', meta),
                      (''outcome'', json_quote outcome), (''subscription_id'', json_quote (qs_id q))];
                   digest = sha (deliveryID @ CHR 0x00 # outcome @ CHR 0x00 # unix_string generation) in
               insert_result_callback_row
                 (new_result_callback (''qcb_'' @ hex_encode (take 16 digest)) (qs_app_id q) (qs_id q) deliveryID
                    eventID generation outcome url payload now) s))"

section \<open>Pulling\<close>

record queue_pull_request =
  pq_app_id :: string
  pq_subscription_id :: string
  pq_limit :: int
  pq_visibility :: duration
  pq_now :: time
  pq_receipts :: "string list"

record queue_message =
  qm_id :: string
  qm_subscription_id :: string
  qm_event :: event
  qm_receipt :: string
  qm_attempt :: int
  qm_generation :: int
  qm_lease_expires_at :: time
  qm_ordering_key :: string
  qm_priority :: int
  qm_metadata :: string

definition queueReceiptHash :: "(string \<Rightarrow> string) \<Rightarrow> string \<Rightarrow> string" where
  "queueReceiptHash sha receipt = hex_encode (sha receipt)"

definition queueStringValue :: "string option \<Rightarrow> string" where
  "queueStringValue v = coalesce v []"

definition unleased :: "queue_delivery \<Rightarrow> queue_delivery" where
  "unleased d = d\<lparr>qd_receipt_hash := None, qd_lease_started_at := None, qd_lease_expires_at := None,
                  qd_lease_max_expires_at := None\<rparr>"

text \<open>An expired lease ends: the delivery becomes available after the retry delay, or dead after its last
  attempt.\<close>

definition expired_lease :: "string \<Rightarrow> time \<Rightarrow> queue_delivery \<Rightarrow> bool" where
  "expired_lease subscriptionID now d \<longleftrightarrow>
     qd_subscription_id d = subscriptionID \<and> qd_status d = QInFlight \<and> upto_opt (qd_lease_expires_at d) now"

definition reclaimed_row :: "queue_subscription \<Rightarrow> time \<Rightarrow> queue_delivery \<Rightarrow> queue_delivery" where
  "reclaimed_row q now d =
     (if qd_attempts d \<ge> qs_max_attempts q
      then (unleased d)\<lparr>qd_status := QDeadLetter, qd_last_reason := Some ''max_attempts_exhausted'', qd_updated_at := now\<rparr>
      else (unleased d)\<lparr>qd_status := QAvailable,
             qd_available_at := coalesce (qd_lease_expires_at d) 0 + qs_retry_delay_seconds q * second,
             qd_last_reason := Some ''visibility_timeout'', qd_updated_at := now\<rparr>)"

definition reclaimed_attempt :: "time \<Rightarrow> queue_delivery \<Rightarrow> queue_attempt" where
  "reclaimed_attempt now d =
     \<lparr>qa_delivery_id = qd_id d, qa_generation = qd_generation d, qa_attempt = qd_attempts d,
      qa_outcome = (if qd_status d = QDeadLetter then ''dead_letter'' else ''visibility_timeout''),
      qa_reason = qd_last_reason d, qa_occurred_at = now\<rparr>"

definition reclaim :: "queue_subscription \<Rightarrow> time \<Rightarrow> db \<Rightarrow> db" where
  "reclaim q now s =
     (let P = expired_lease (qs_id q) now;
          changed = map (reclaimed_row q now) (filter P (queue_deliveries s)) in
      fold (\<lambda>d. insert_queue_attempt_ignore (reclaimed_attempt now d)) changed
        (s\<lparr>queue_deliveries := sql_update P (reclaimed_row q now) (queue_deliveries s)\<rparr>))"

text \<open>The failure callbacks of the deliveries that just ran out of attempts.\<close>

definition failure_payload :: "queue_subscription \<Rightarrow> queue_delivery \<Rightarrow> string" where
  "failure_payload q d =
     object_text
       [(''app_id'', json_quote (qd_app_id d)), (''subscription_id'', json_quote (qd_subscription_id d)),
        (''delivery_id'', json_quote (qd_id d)), (''event_id'', json_quote (qd_event_id d)),
        (''generation'', show_int (qd_generation d)), (''outcome'', json_quote ''failure''),
        (''attempt_count'', show_int (qd_attempts d)), (''metadata'', qs_result_callback_metadata q)]"

definition failure_callback :: "(string \<Rightarrow> string) \<Rightarrow> queue_subscription \<Rightarrow> string \<Rightarrow> time \<Rightarrow> queue_delivery \<Rightarrow> result_callback" where
  "failure_callback md5 q url now d =
     new_result_callback
       (''qcb_'' @ md5 (qd_id d @ CHR '':'' # show_int (qd_generation d) @ '':failure''))
       (qd_app_id d) (qd_subscription_id d) (qd_id d) (qd_event_id d) (qd_generation d) ''failure'' url
       (failure_payload q d) now"

definition failure_callbacks :: "(string \<Rightarrow> string) \<Rightarrow> queue_subscription \<Rightarrow> time \<Rightarrow> db \<Rightarrow> db option" where
  "failure_callbacks md5 q now s =
     (case qs_failure_callback_url q of
        None \<Rightarrow> Some s
      | Some url \<Rightarrow>
          fold (\<lambda>d r. Option.bind r (insert_result_callback_row (failure_callback md5 q url now d)))
            (filter (\<lambda>d. qd_subscription_id d = qs_id q \<and> qd_status d = QDeadLetter \<and> qd_updated_at d = now \<and>
                         qd_last_reason d = Some ''max_attempts_exhausted'') (queue_deliveries s))
            (Some s))"

definition expire_retention :: "queue_subscription \<Rightarrow> time \<Rightarrow> db \<Rightarrow> db" where
  "expire_retention q now s =
     s\<lparr>queue_deliveries :=
         sql_update (\<lambda>d. qd_subscription_id d = qs_id q \<and> qd_status d = QAvailable \<and> qd_expires_at d \<le> now)
           (\<lambda>d. d\<lparr>qd_status := QDeadLetter, qd_last_reason := Some ''retention_expired'', qd_updated_at := now\<rparr>)
           (queue_deliveries s)\<rparr>"

definition in_flight :: "string \<Rightarrow> queue_delivery \<Rightarrow> bool" where
  "in_flight subscriptionID d \<longleftrightarrow> qd_subscription_id d = subscriptionID \<and> qd_status d = QInFlight"

definition recently_dispatched :: "string \<Rightarrow> time \<Rightarrow> db \<Rightarrow> nat" where
  "recently_dispatched subscriptionID now s =
     sql_count (\<lambda>a. qa_outcome a = ''leased'' \<and> qa_occurred_at a > now - second \<and>
                    sql_exists (\<lambda>d. qd_id d = qa_delivery_id a \<and> qd_subscription_id d = subscriptionID) (queue_deliveries s))
       (queue_attempts s)"

definition before_in_key :: "queue_delivery \<Rightarrow> queue_delivery \<Rightarrow> bool" where
  "before_in_key e d \<longleftrightarrow>
     qd_subscription_id e = qd_subscription_id d \<and> qd_ordering_key e = qd_ordering_key d \<and>
     (qd_status e = QAvailable \<or> qd_status e = QInFlight) \<and>
     (qd_created_at e, qd_id e) < (qd_created_at d, qd_id d)"

definition pullable :: "queue_subscription \<Rightarrow> time \<Rightarrow> queue_delivery list \<Rightarrow> queue_delivery \<Rightarrow> bool" where
  "pullable q now rows d \<longleftrightarrow>
     qd_subscription_id d = qs_id q \<and> qd_status d = QAvailable \<and> qd_available_at d \<le> now \<and> now < qd_expires_at d \<and>
     (qs_ordering_mode q = ''none'' \<or> qd_ordering_key d = None \<or> \<not> sql_exists (\<lambda>e. before_in_key e d) rows)"

definition effective_priority :: "time \<Rightarrow> queue_delivery \<Rightarrow> int" where
  "effective_priority now d = min 10 (qd_priority d + (now - qd_available_at d) div minute)"

definition pull_order :: "time \<Rightarrow> queue_delivery \<Rightarrow> int \<times> time \<times> time \<times> string" where
  "pull_order now d = (- effective_priority now d, qd_available_at d, qd_created_at d, qd_id d)"

definition pull_candidates ::
    "string set \<Rightarrow> queue_subscription \<Rightarrow> time \<Rightarrow> int \<Rightarrow> db \<Rightarrow> (queue_delivery \<times> event_row) list" where
  "pull_candidates locked q now limit s =
     take (nat limit)
       (List.map_filter
          (\<lambda>d. map_option (\<lambda>e. (d, e)) (sql_row (\<lambda>e. ev_id e = qd_event_id d) (events s)))
          (sort_key (pull_order now)
             (filter (\<lambda>d. pullable q now (queue_deliveries s) d \<and> qd_id d \<notin> locked) (queue_deliveries s))))"

definition leased_row_of :: "string \<Rightarrow> time \<Rightarrow> time \<Rightarrow> time \<Rightarrow> int \<Rightarrow> queue_delivery \<Rightarrow> queue_delivery" where
  "leased_row_of hash now leaseExpires leaseMax attempt d =
     d\<lparr>qd_status := QInFlight, qd_attempts := attempt, qd_receipt_hash := Some hash,
       qd_lease_started_at := Some now, qd_lease_expires_at := Some leaseExpires,
       qd_lease_max_expires_at := Some leaseMax, qd_updated_at := now\<rparr>"

definition leased_message :: "string \<Rightarrow> string \<Rightarrow> int \<Rightarrow> time \<Rightarrow> queue_delivery \<Rightarrow> event_row \<Rightarrow> queue_message" where
  "leased_message subscriptionID receipt attempt leaseExpires d e =
     \<lparr>qm_id = qd_id d, qm_subscription_id = subscriptionID,
      qm_event = \<lparr>e_id = qd_event_id d, e_type = ev_type e, e_source_app_id = ev_source_app_id e,
                  e_target_app_ids = ev_target_app_ids e, e_data = ev_data e,
                  e_created_at = (ev_created_at e, 0), e_queue = None\<rparr>,
      qm_receipt = receipt, qm_attempt = attempt, qm_generation = qd_generation d,
      qm_lease_expires_at = leaseExpires, qm_ordering_key = queueStringValue (qd_ordering_key d),
      qm_priority = qd_priority d, qm_metadata = qd_metadata d\<rparr>"

fun lease_all ::
    "(string \<Rightarrow> string) \<Rightarrow> queue_subscription \<Rightarrow> duration \<Rightarrow> time \<Rightarrow> (queue_delivery \<times> event_row) list \<Rightarrow> string list
     \<Rightarrow> db \<Rightarrow> store_error + queue_message list \<times> db" where
  "lease_all sha q visibility now [] receipts s = Inr ([], s)"
| "lease_all sha q visibility now (_ # _) [] s = Inl ErrConflict"
| "lease_all sha q visibility now ((d, e) # rest) (receipt # receipts) s =
     (let hash = queueReceiptHash sha receipt;
          leaseExpires = now + visibility;
          leaseMax = now + qs_max_total_lease_seconds q * second;
          attempt = qd_attempts d + 1;
          s1 = s\<lparr>queue_deliveries := sql_update (\<lambda>x. qd_id x = qd_id d)
                  (leased_row_of hash now leaseExpires leaseMax attempt) (queue_deliveries s)\<rparr> in
      case insert_queue_attempt
             \<lparr>qa_delivery_id = qd_id d, qa_generation = qd_generation d, qa_attempt = attempt,
              qa_outcome = ''leased'', qa_reason = None, qa_occurred_at = now\<rparr> s1 of
        None \<Rightarrow> Inl ErrDB
      | Some s2 \<Rightarrow>
          (case lease_all sha q visibility now rest receipts s2 of
             Inl e' \<Rightarrow> Inl e'
           | Inr (ms, s3) \<Rightarrow> Inr (leased_message (qs_id q) receipt attempt leaseExpires d e # ms, s3)))"

definition pull_visibility :: "queue_subscription \<Rightarrow> duration \<Rightarrow> duration" where
  "pull_visibility q requested =
     min (if requested \<le> 0 then qs_default_visibility_seconds q * second else requested)
       (qs_max_visibility_seconds q * second)"

text \<open>What is left of the request's limit after the batch size, the deliveries in flight and the dispatch
  rate; \<open>None\<close> when there is no capacity.\<close>

definition pull_limit :: "queue_subscription \<Rightarrow> int \<Rightarrow> time \<Rightarrow> db \<Rightarrow> int option" where
  "pull_limit q requested now s =
     (let limit = min requested (qs_max_batch_size q);
          capacity = qs_max_in_flight q - int (sql_count (in_flight (qs_id q)) (queue_deliveries s)) in
      if capacity \<le> 0 then None
      else
        let limit = min limit capacity in
        case qs_max_dispatch_rate q of
          None \<Rightarrow> Some limit
        | Some rate \<Rightarrow>
            let rateCapacity = rate - int (recently_dispatched (qs_id q) now s) in
            if rateCapacity \<le> 0 then None else Some (min limit rateCapacity))"

definition PullQueueDeliveries ::
    "(string \<Rightarrow> string) \<Rightarrow> (string \<Rightarrow> string) \<Rightarrow> string set \<Rightarrow> db \<Rightarrow> queue_pull_request
     \<Rightarrow> (store_error + queue_message list) \<times> db" where
  "PullQueueDeliveries sha md5 locked s req =
     (case GetQueueSubscription s (pq_app_id req) (pq_subscription_id req) of
        Inl e \<Rightarrow> (Inl e, s)
      | Inr q \<Rightarrow>
          if qs_draining_at q \<noteq> None then (Inr [], s)
          else if \<not> qs_enabled q \<or> qs_paused_at q \<noteq> None then (Inl ErrConflict, s)
          else
            let now = pq_now req; visibility = pull_visibility q (pq_visibility req) in
            case failure_callbacks md5 q now (reclaim q now s) of
              None \<Rightarrow> (Inl ErrDB, s)
            | Some s1 \<Rightarrow>
                let s2 = expire_retention q now s1 in
                (case pull_limit q (pq_limit req) now s2 of
                   None \<Rightarrow> (Inr [], s2)
                 | Some limit \<Rightarrow>
                     if limit < 0 then (Inl ErrDB, s)
                     else
                       (case lease_all sha q visibility now (pull_candidates locked q now limit s2) (pq_receipts req) s2 of
                          Inl e \<Rightarrow> (Inl e, s)
                        | Inr (ms, s3) \<Rightarrow> (Inr ms, s3))))"

section \<open>Settling and extending\<close>

record queue_settlement =
  ql_receipt :: string
  ql_disposition :: string
  ql_delay :: duration
  ql_reason :: string

record settlement_result =
  sr_receipt :: string
  sr_status :: string

record lease_extension =
  lx_receipt :: string
  lx_extension :: duration

definition queue_status_text :: "queue_status \<Rightarrow> string" where
  "queue_status_text st =
     (case st of QAvailable \<Rightarrow> ''available'' | QInFlight \<Rightarrow> ''in_flight'' | QAcked \<Rightarrow> ''acked'' | QDeadLetter \<Rightarrow> ''dead_letter'')"

definition holds_receipt :: "string \<Rightarrow> string \<Rightarrow> string \<Rightarrow> time \<Rightarrow> queue_delivery \<Rightarrow> bool" where
  "holds_receipt subscriptionID appID hash now d \<longleftrightarrow>
     qd_subscription_id d = subscriptionID \<and> qd_app_id d = appID \<and> qd_receipt_hash d = Some hash \<and>
     qd_status d = QInFlight \<and> after_opt (qd_lease_expires_at d) now"

definition next_status :: "queue_settlement \<Rightarrow> time \<Rightarrow> (queue_status \<times> time) option" where
  "next_status x now =
     (if ql_disposition x = ''retry'' then Some (QAvailable, now + ql_delay x)
      else if ql_disposition x = ''dead_letter'' then Some (QDeadLetter, now)
      else if ql_disposition x = ''ack'' then Some (QAcked, now)
      else None)"

definition settled_row :: "queue_subscription \<Rightarrow> queue_status \<Rightarrow> time \<Rightarrow> string \<Rightarrow> time \<Rightarrow> queue_delivery \<Rightarrow> queue_delivery" where
  "settled_row q st availableAt reason now d =
     (let exhausted = (st = QAvailable \<and> qd_attempts d \<ge> qs_max_attempts q) in
      (unleased d)\<lparr>qd_status := (if exhausted then QDeadLetter else st), qd_available_at := availableAt,
        qd_last_reason := (if exhausted then Some ''max_attempts_exhausted'' else nullif_empty reason),
        qd_updated_at := now\<rparr>)"

definition settle_one ::
    "(string \<Rightarrow> string) \<Rightarrow> queue_subscription \<Rightarrow> string \<Rightarrow> string \<Rightarrow> time \<Rightarrow> queue_settlement \<Rightarrow> db
     \<Rightarrow> (settlement_result \<times> db) option" where
  "settle_one sha q appID subscriptionID now x s =
     (let invalid = \<lparr>sr_receipt = ql_receipt x, sr_status = ''invalid_receipt''\<rparr> in
      case next_status x now of
        None \<Rightarrow> Some (invalid, s)
      | Some (st, availableAt) \<Rightarrow>
          let P = holds_receipt subscriptionID appID (queueReceiptHash sha (ql_receipt x)) now;
              f = settled_row q st availableAt (ql_reason x) now in
          (case sql_row P (queue_deliveries s) of
             None \<Rightarrow> Some (invalid, s)
           | Some d0 \<Rightarrow>
               let d = f d0;
                   turned = (qd_status d = QDeadLetter \<and> ql_disposition x = ''retry'');
                   outcome = (if turned then ''dead_letter'' else ql_disposition x);
                   reason = (if turned then ''max_attempts_exhausted'' else ql_reason x);
                   s1 = s\<lparr>queue_deliveries := sql_update P f (queue_deliveries s)\<rparr> in
               Option.bind
                 (insert_queue_attempt
                    \<lparr>qa_delivery_id = qd_id d, qa_generation = qd_generation d, qa_attempt = qd_attempts d,
                     qa_outcome = outcome, qa_reason = nullif_empty reason, qa_occurred_at = now\<rparr> s1)
                 (\<lambda>s2. map_option (\<lambda>s3. (\<lparr>sr_receipt = ql_receipt x, sr_status = queue_status_text (qd_status d)\<rparr>, s3))
                   (if qd_status d = QAcked \<or> qd_status d = QDeadLetter
                    then insertQueueResultCallback sha q (qd_id d) (qd_event_id d) (qd_generation d) (qd_attempts d)
                           (qd_status d) now s2
                    else Some s2))))"

fun settle_all ::
    "(string \<Rightarrow> string) \<Rightarrow> queue_subscription \<Rightarrow> string \<Rightarrow> string \<Rightarrow> time \<Rightarrow> queue_settlement list \<Rightarrow> db
     \<Rightarrow> (settlement_result list \<times> db) option" where
  "settle_all sha q appID subscriptionID now [] s = Some ([], s)"
| "settle_all sha q appID subscriptionID now (x # xs) s =
     Option.bind (settle_one sha q appID subscriptionID now x s) (\<lambda>(r, s').
       map_option (\<lambda>(rs, s''). (r # rs, s'')) (settle_all sha q appID subscriptionID now xs s'))"

definition SettleQueueDeliveries ::
    "(string \<Rightarrow> string) \<Rightarrow> db \<Rightarrow> string \<Rightarrow> string \<Rightarrow> queue_settlement list \<Rightarrow> time
     \<Rightarrow> (store_error + settlement_result list) \<times> db" where
  "SettleQueueDeliveries sha s appID subscriptionID settlements now =
     (case GetQueueSubscription s appID subscriptionID of
        Inl e \<Rightarrow> (Inl e, s)
      | Inr q \<Rightarrow>
          (case settle_all sha q appID subscriptionID now settlements s of
             None \<Rightarrow> (Inl ErrDB, s) | Some (rs, s') \<Rightarrow> (Inr rs, s')))"

definition extended_row :: "duration \<Rightarrow> time \<Rightarrow> queue_delivery \<Rightarrow> queue_delivery" where
  "extended_row extension now d =
     d\<lparr>qd_lease_expires_at :=
         (case (qd_lease_expires_at d, qd_lease_max_expires_at d) of
            (Some t, Some m) \<Rightarrow> Some (min (t + extension div 1000 * 1000) m)
          | (Some t, None) \<Rightarrow> Some (t + extension div 1000 * 1000)
          | (None, m) \<Rightarrow> m),
       qd_updated_at := now\<rparr>"

fun extend_all ::
    "(string \<Rightarrow> string) \<Rightarrow> string \<Rightarrow> string \<Rightarrow> time \<Rightarrow> lease_extension list \<Rightarrow> db \<Rightarrow> settlement_result list \<times> db" where
  "extend_all sha appID subscriptionID now [] s = ([], s)"
| "extend_all sha appID subscriptionID now (x # xs) s =
     (let P = holds_receipt subscriptionID appID (queueReceiptHash sha (lx_receipt x)) now;
          n = sql_count P (queue_deliveries s);
          s1 = s\<lparr>queue_deliveries := sql_update P (extended_row (lx_extension x) now) (queue_deliveries s)\<rparr>;
          (rs, s') = extend_all sha appID subscriptionID now xs s1 in
      (\<lparr>sr_receipt = lx_receipt x, sr_status = (if n = 1 then ''extended'' else ''invalid_receipt'')\<rparr> # rs, s'))"

definition ExtendQueueLeases ::
    "(string \<Rightarrow> string) \<Rightarrow> db \<Rightarrow> string \<Rightarrow> string \<Rightarrow> lease_extension list \<Rightarrow> time
     \<Rightarrow> (store_error + settlement_result list) \<times> db" where
  "ExtendQueueLeases sha s appID subscriptionID extensions now =
     (case GetQueueSubscription s appID subscriptionID of
        Inl e \<Rightarrow> (Inl e, s)
      | Inr q \<Rightarrow> (let (rs, s') = extend_all sha appID subscriptionID now extensions s in (Inr rs, s')))"

section \<open>Depth, dead letters and drains\<close>

record queue_depth =
  dp_available :: nat
  dp_in_flight :: nat
  dp_acknowledged :: nat
  dp_dead_letter :: nat
  dp_oldest_available :: "time option"

definition QueueDepth :: "db \<Rightarrow> string \<Rightarrow> string \<Rightarrow> time \<Rightarrow> queue_depth" where
  "QueueDepth s appID subscriptionID now =
     (let rows = filter (\<lambda>d. qd_subscription_id d = subscriptionID \<and>
                  sql_exists (\<lambda>q. qs_app_id q = appID \<and> qs_id q = subscriptionID) (queue_subscriptions s)) (queue_deliveries s);
          ready = filter (\<lambda>d. qd_status d = QAvailable \<and> qd_available_at d \<le> now) rows in
      \<lparr>dp_available = length ready, dp_in_flight = sql_count (\<lambda>d. qd_status d = QInFlight) rows,
       dp_acknowledged = sql_count (\<lambda>d. qd_status d = QAcked) rows,
       dp_dead_letter = sql_count (\<lambda>d. qd_status d = QDeadLetter) rows,
       dp_oldest_available = (if ready = [] then None else Some (Min (set (map qd_available_at ready))))\<rparr>)"

record queue_dead_letter =
  dx_delivery_id :: string
  dx_subscription_id :: string
  dx_event_id :: string
  dx_attempts :: int
  dx_generation :: int
  dx_reason :: string
  dx_updated_at :: time

definition queue_owned :: "db \<Rightarrow> string \<Rightarrow> string \<Rightarrow> queue_delivery \<Rightarrow> bool" where
  "queue_owned s appID subscriptionID d \<longleftrightarrow>
     qd_subscription_id d = subscriptionID \<and> qd_status d = QDeadLetter \<and>
     sql_exists (\<lambda>q. qs_app_id q = appID \<and> qs_id q = subscriptionID) (queue_subscriptions s)"

definition ListQueueDeadLetters :: "db \<Rightarrow> string \<Rightarrow> string \<Rightarrow> string \<Rightarrow> nat \<Rightarrow> queue_dead_letter list" where
  "ListQueueDeadLetters s appID subscriptionID cursor limit =
     map (\<lambda>d. \<lparr>dx_delivery_id = qd_id d, dx_subscription_id = qd_subscription_id d, dx_event_id = qd_event_id d,
               dx_attempts = qd_attempts d, dx_generation = qd_generation d, dx_reason = coalesce (qd_last_reason d) [],
               dx_updated_at = qd_updated_at d\<rparr>)
       (take limit (sort_key qd_id
          (filter (\<lambda>d. queue_owned s appID subscriptionID d \<and> (cursor = [] \<or> cursor < qd_id d)) (queue_deliveries s))))"

definition replayed_row :: "time \<Rightarrow> queue_delivery \<Rightarrow> queue_delivery" where
  "replayed_row now d =
     (unleased d)\<lparr>qd_status := QAvailable, qd_generation := qd_generation d + 1, qd_attempts := 0,
                  qd_available_at := now, qd_last_reason := None, qd_updated_at := now\<rparr>"

definition ReplayQueueDeadLetters :: "db \<Rightarrow> string \<Rightarrow> string \<Rightarrow> string list \<Rightarrow> time \<Rightarrow> nat \<times> db" where
  "ReplayQueueDeadLetters s appID subscriptionID ids now =
     (let P = (\<lambda>d. queue_owned s appID subscriptionID d \<and> qd_id d \<in> set ids) in
      (sql_count P (queue_deliveries s),
       s\<lparr>queue_deliveries := sql_update P (replayed_row now) (queue_deliveries s)\<rparr>))"

text \<open>Attempts of a deleted delivery are deleted with it.\<close>

definition DeleteQueueDeadLetters :: "db \<Rightarrow> string \<Rightarrow> string \<Rightarrow> string list \<Rightarrow> nat \<times> db" where
  "DeleteQueueDeadLetters s appID subscriptionID ids =
     (let P = (\<lambda>d. queue_owned s appID subscriptionID d \<and> qd_id d \<in> set ids);
          gone = set (map qd_id (filter P (queue_deliveries s))) in
      (sql_count P (queue_deliveries s),
       s\<lparr>queue_deliveries := filter (\<lambda>d. \<not> P d) (queue_deliveries s),
         queue_attempts := filter (\<lambda>a. qa_delivery_id a \<notin> gone) (queue_attempts s)\<rparr>))"

record queue_drain =
  dn_subscription_id :: string
  dn_status :: string
  dn_in_flight :: nat
  dn_started_at :: "time option"
  dn_deadline_at :: "time option"
  dn_completed_at :: "time option"

definition GetQueueDrain :: "db \<Rightarrow> string \<Rightarrow> string \<Rightarrow> time \<Rightarrow> (store_error + queue_drain) \<times> db" where
  "GetQueueDrain s appID subscriptionID now =
     (case GetQueueSubscription s appID subscriptionID of
        Inl e \<Rightarrow> (Inl e, s)
      | Inr q \<Rightarrow>
          let n = sql_count (in_flight (qs_id q)) (queue_deliveries s);
              drain = \<lparr>dn_subscription_id = subscriptionID, dn_status = ''active'', dn_in_flight = n,
                       dn_started_at = qs_draining_at q, dn_deadline_at = qs_drain_deadline_at q,
                       dn_completed_at = qs_drained_at q\<rparr> in
          if qs_draining_at q = None then (Inr drain, s)
          else if n = 0 then
            (if qs_drained_at q = None then
               let P = (\<lambda>x. qs_app_id x = appID \<and> qs_id x = subscriptionID \<and> qs_draining_at x \<noteq> None \<and> qs_drained_at x = None);
                   f = (\<lambda>x. x\<lparr>qs_drained_at := Some now, qs_updated_at := now\<rparr>) in
               (case sql_update_checked subscription_check P f (queue_subscriptions s) of
                  None \<Rightarrow> (Inl ErrDB, s)
                | Some rows \<Rightarrow>
                    (Inr (drain\<lparr>dn_completed_at := Some now, dn_status := ''drained''\<rparr>), s\<lparr>queue_subscriptions := rows\<rparr>))
             else (Inr (drain\<lparr>dn_status := ''drained''\<rparr>), s))
          else if upto_opt (qs_drain_deadline_at q) now then (Inr (drain\<lparr>dn_status := ''timed_out''\<rparr>), s)
          else (Inr (drain\<lparr>dn_status := ''draining''\<rparr>), s))"

definition draining_row :: "time \<Rightarrow> time \<Rightarrow> queue_subscription \<Rightarrow> queue_subscription" where
  "draining_row startedAt deadlineAt q =
     q\<lparr>qs_draining_at := Some (coalesce (qs_draining_at q) startedAt),
       qs_drain_deadline_at := Some (coalesce (qs_drain_deadline_at q) deadlineAt),
       qs_policy_version := (if qs_draining_at q = None then qs_policy_version q + 1 else qs_policy_version q),
       qs_updated_at := startedAt\<rparr>"

definition BeginQueueDrain :: "db \<Rightarrow> string \<Rightarrow> string \<Rightarrow> time \<Rightarrow> time \<Rightarrow> (store_error + queue_drain) \<times> db" where
  "BeginQueueDrain s appID subscriptionID startedAt deadlineAt =
     (let P = (\<lambda>q. qs_app_id q = appID \<and> qs_id q = subscriptionID) in
      case sql_update_checked subscription_check P (draining_row startedAt deadlineAt) (queue_subscriptions s) of
        None \<Rightarrow> (Inl ErrDB, s)
      | Some rows \<Rightarrow>
          if \<not> sql_exists P (queue_subscriptions s) then (Inl ErrNotFound, s)
          else GetQueueDrain (s\<lparr>queue_subscriptions := rows\<rparr>) appID subscriptionID startedAt)"

section \<open>Claiming and finishing result callbacks\<close>

record claimed_callback =
  cc_row :: result_callback
  cc_body :: string
  cc_secret :: string

definition claimable_callback :: "time \<Rightarrow> result_callback \<Rightarrow> bool" where
  "claimable_callback now c \<longleftrightarrow>
     rc_status c = CbPending \<and> rc_attempts c < 6 \<and> rc_available_at c \<le> now \<and>
     (rc_claim_expires_at c = None \<or> upto_opt (rc_claim_expires_at c) now)"

definition claimed_row :: "time \<Rightarrow> time \<Rightarrow> string \<Rightarrow> result_callback \<Rightarrow> result_callback" where
  "claimed_row now claimUntil token c =
     c\<lparr>rc_claim_token := Some token, rc_claim_expires_at := Some claimUntil,
       rc_claim_generation := rc_claim_generation c + 1, rc_attempts := rc_attempts c + 1, rc_updated_at := now\<rparr>"

text \<open>The candidate is joined with the credential in force after it has been chosen: without one the claim
  finds nothing and is rolled back.\<close>

definition ClaimQueueResultCallback ::
    "(string \<Rightarrow> string option) \<Rightarrow> string set \<Rightarrow> db \<Rightarrow> time \<Rightarrow> time \<Rightarrow> string \<Rightarrow> (store_error + claimed_callback) \<times> db" where
  "ClaimQueueResultCallback decrypt locked s now claimUntil token =
     (case take 1 (sort_key (\<lambda>c. (rc_available_at c, rc_id c))
             (filter (\<lambda>c. claimable_callback now c \<and> rc_id c \<notin> locked) (result_callbacks s))) of
        [] \<Rightarrow> (Inl ErrNotFound, s)
      | c0 # _ \<Rightarrow>
          let c = claimed_row now claimUntil token c0 in
          (case sql_row (\<lambda>k. cr_app_id k = rc_app_id c \<and> cr_revoked_at k = None) (credentials s) of
             None \<Rightarrow> (Inl ErrNotFound, s)
           | Some k \<Rightarrow>
               (case decrypt (cr_encrypted_hmac_secret k) of
                  None \<Rightarrow> (Inl ErrDB, s)
                | Some secret \<Rightarrow>
                    if sql_exists (\<lambda>a. ra_callback_id a = rc_id c \<and> ra_attempt a = rc_attempts c) (result_callback_attempts s)
                    then (Inl ErrDB, s)
                    else
                      (Inr \<lparr>cc_row = c, cc_body = rc_payload c, cc_secret = secret\<rparr>,
                       s\<lparr>result_callbacks := sql_update (\<lambda>x. rc_id x = rc_id c) (claimed_row now claimUntil token) (result_callbacks s),
                         result_callback_attempts := result_callback_attempts s @
                           [\<lparr>ra_callback_id = rc_id c, ra_attempt = rc_attempts c, ra_claim_generation = rc_claim_generation c,
                             ra_outcome = ''claimed'', ra_reason = None, ra_occurred_at = now\<rparr>]\<rparr>))))"

record callback_finish =
  cf_callback_id :: string
  cf_attempt :: int
  cf_claim_token :: string
  cf_claim_generation :: int
  cf_status :: callback_status
  cf_reason :: string
  cf_retry_at :: time
  cf_now :: time

definition callback_status_text :: "callback_status \<Rightarrow> string" where
  "callback_status_text st = (case st of CbPending \<Rightarrow> ''pending'' | CbDelivered \<Rightarrow> ''delivered'' | CbFailed \<Rightarrow> ''failed'')"

definition finished_row :: "callback_finish \<Rightarrow> result_callback \<Rightarrow> result_callback" where
  "finished_row t c =
     c\<lparr>rc_status := cf_status t,
       rc_available_at := (if cf_status t = CbPending then cf_retry_at t else rc_available_at c),
       rc_claim_token := None, rc_claim_expires_at := None, rc_last_reason := nullif_empty (cf_reason t),
       rc_updated_at := cf_now t\<rparr>"

definition FinishQueueResultCallback :: "db \<Rightarrow> callback_finish \<Rightarrow> (store_error + unit) \<times> db" where
  "FinishQueueResultCallback s t =
     (let P = (\<lambda>c. rc_id c = cf_callback_id t \<and> rc_attempts c = cf_attempt t \<and> rc_claim_token c = Some (cf_claim_token t) \<and>
                   rc_claim_generation c = cf_claim_generation t \<and> rc_status c = CbPending) in
      if sql_count P (result_callbacks s) \<noteq> 1 then (Inl ErrConflict, s)
      else (Inr (), s\<lparr>result_callbacks := sql_update P (finished_row t) (result_callbacks s),
                      result_callback_attempts :=
                        sql_update (\<lambda>a. ra_callback_id a = cf_callback_id t \<and> ra_attempt a = cf_attempt t)
                          (\<lambda>a. a\<lparr>ra_outcome := callback_status_text (cf_status t), ra_reason := nullif_empty (cf_reason t)\<rparr>)
                          (result_callback_attempts s)\<rparr>))"

definition ListQueueResultCallbacks :: "db \<Rightarrow> string \<Rightarrow> string \<Rightarrow> nat \<Rightarrow> result_callback list" where
  "ListQueueResultCallbacks s appID subscriptionID limit =
     take limit (rev (sort_key (\<lambda>c. (rc_created_at c, rc_id c))
       (filter (\<lambda>c. rc_app_id c = appID \<and> rc_subscription_id c = subscriptionID) (result_callbacks s))))"

end
