(* ===== verification/QueueRuns.thy ===== *)
theory QueueRuns
  imports Queue
begin

text \<open>
  The pull queue as a transition system.  Every statement of the store that changes the delivery table is one
  labelled update of the table; each of pulling, settling and extending is shown to be a sequence of such
  updates, and the invariants and the guarantees to the holder of a receipt are proved once on the updates.
\<close>

section \<open>Updates of the delivery table\<close>

datatype queue_label =
    ReclaimAt time | RetentionAt time | LeaseAt string string time time | SettleAt string time | ExtendAt string time

inductive queue_update :: "queue_subscription \<Rightarrow> queue_label \<Rightarrow> queue_delivery list \<Rightarrow> queue_delivery list \<Rightarrow> bool" for q where
  reclaim: "queue_update q (ReclaimAt now) rows (sql_update (expired_lease (qs_id q) now) (reclaimed_row q now) rows)"
| retention: "queue_update q (RetentionAt now) rows
    (sql_update (\<lambda>d. qd_subscription_id d = qs_id q \<and> qd_status d = QAvailable \<and> qd_expires_at d \<le> now)
      (\<lambda>d. d\<lparr>qd_status := QDeadLetter, qd_last_reason := Some ''retention_expired'', qd_updated_at := now\<rparr>) rows)"
| lease: "d \<in> set rows \<Longrightarrow> pullable q now rows d \<Longrightarrow> now < e \<Longrightarrow> e \<le> m \<Longrightarrow>
    queue_update q (LeaseAt (qd_id d) hash now e) rows
      (sql_update (\<lambda>x. qd_id x = qd_id d) (leased_row_of hash now e m (qd_attempts d + 1)) rows)"
| settle: "st \<noteq> QInFlight \<Longrightarrow>
    queue_update q (SettleAt hash now) rows
      (sql_update (holds_receipt (qs_id q) app hash now) (settled_row q st at reason now) rows)"
| extend: "queue_update q (ExtendAt hash now) rows (sql_update (holds_receipt (qs_id q) app hash now) (extended_row x now) rows)"

inductive queue_trace :: "queue_subscription \<Rightarrow> queue_label list \<Rightarrow> queue_delivery list \<Rightarrow> queue_delivery list \<Rightarrow> bool" for q where
  nil: "queue_trace q [] rows rows"
| cons: "queue_update q l rows rows' \<Longrightarrow> queue_trace q ls rows' rows'' \<Longrightarrow> queue_trace q (l # ls) rows rows''"

inductive_simps queue_trace_Nil [simp]: "queue_trace q [] rows rows'"
inductive_simps queue_trace_Cons: "queue_trace q (l # ls) rows rows'"

lemma queue_trace_append:
  "queue_trace q ls a b \<Longrightarrow> queue_trace q ls' b c \<Longrightarrow> queue_trace q (ls @ ls') a c"
  by (induction rule: queue_trace.induct) (auto intro: queue_trace.intros)

lemma queue_trace_single: "queue_update q l a b \<Longrightarrow> queue_trace q [l] a b"
  by (auto intro: queue_trace.intros)

text \<open>A property of the table that every update keeps is kept by a trace.\<close>

lemma queue_trace_inv:
  assumes "queue_trace q ls rows rows'" and "I rows" and "list_all L ls"
    and "\<And>l a b. queue_update q l a b \<Longrightarrow> L l \<Longrightarrow> I a \<Longrightarrow> I b"
  shows "I rows'"
  using assms(1-3) by (induction rule: queue_trace.induct) (auto intro: assms(4))

section \<open>The operations are such updates\<close>

lemma queue_attempt_frame [simp]:
  "queue_deliveries (insert_queue_attempt_ignore a s) = queue_deliveries s"
  "queue_subscriptions (insert_queue_attempt_ignore a s) = queue_subscriptions s"
  by (simp_all add: insert_queue_attempt_ignore_def)

lemma insert_queue_attempt_frame:
  "insert_queue_attempt a s = Some s' \<Longrightarrow> queue_deliveries s' = queue_deliveries s \<and> queue_subscriptions s' = queue_subscriptions s"
  by (auto simp: insert_queue_attempt_def split: if_splits)

lemma insert_result_callback_frame:
  "insert_result_callback_row c s = Some s' \<Longrightarrow> queue_deliveries s' = queue_deliveries s \<and> queue_subscriptions s' = queue_subscriptions s \<and>
     queue_attempts s' = queue_attempts s"
  by (auto simp: insert_result_callback_row_def split: if_splits)

lemma fold_attempts_frame [simp]:
  "queue_deliveries (fold (\<lambda>d. insert_queue_attempt_ignore (f d)) ds s) = queue_deliveries s"
  "queue_subscriptions (fold (\<lambda>d. insert_queue_attempt_ignore (f d)) ds s) = queue_subscriptions s"
  by (induction ds arbitrary: s) simp_all

lemma reclaim_frame [simp]:
  "queue_deliveries (reclaim q now s) = sql_update (expired_lease (qs_id q) now) (reclaimed_row q now) (queue_deliveries s)"
  "queue_subscriptions (reclaim q now s) = queue_subscriptions s"
  by (simp_all add: reclaim_def Let_def)

lemma fold_callbacks_None: "fold (\<lambda>d r. Option.bind r (f d)) ds None = None"
  by (induction ds) simp_all

lemma fold_callbacks_frame:
  "fold (\<lambda>d r. Option.bind r (insert_result_callback_row (f d))) ds (Some s) = Some s' \<Longrightarrow>
   queue_deliveries s' = queue_deliveries s \<and> queue_subscriptions s' = queue_subscriptions s \<and> queue_attempts s' = queue_attempts s"
proof (induction ds arbitrary: s)
  case (Cons d ds)
  then show ?case
    by (cases "insert_result_callback_row (f d) s")
       (auto simp: fold_callbacks_None dest: insert_result_callback_frame)
qed simp

lemma failure_callbacks_frame:
  "failure_callbacks md5 q now s = Some s' \<Longrightarrow>
   queue_deliveries s' = queue_deliveries s \<and> queue_subscriptions s' = queue_subscriptions s \<and> queue_attempts s' = queue_attempts s"
  by (auto simp: failure_callbacks_def split: option.splits dest: fold_callbacks_frame)

lemma insertQueueResultCallback_frame:
  "insertQueueResultCallback sha q i e g n st now s = Some s' \<Longrightarrow>
   queue_deliveries s' = queue_deliveries s \<and> queue_subscriptions s' = queue_subscriptions s \<and> queue_attempts s' = queue_attempts s"
  by (auto simp: insertQueueResultCallback_def Let_def split: option.splits prod.splits if_splits
      dest: insert_result_callback_frame)

lemma sql_exists_update: "sql_exists P (sql_update Q f rows) = sql_exists (\<lambda>x. P (if Q x then f x else x)) rows"
  by (induction rows) (simp_all add: sql_exists_def sql_update_def)

lemma sql_exists_cong: "(\<And>x. x \<in> set rows \<Longrightarrow> P x = Q x) \<Longrightarrow> sql_exists P rows = sql_exists Q rows"
  by (simp add: sql_exists_def list_ex_iff)

lemma before_in_key_lease:
  assumes "qd_status x = QAvailable" "x' = leased_row_of h now e m n x"
  shows "before_in_key x' d = before_in_key x d"
  using assms by (simp add: before_in_key_def leased_row_of_def)

text \<open>Leasing one row leaves the others as pullable as they were.\<close>

lemma pullable_after_lease:
  assumes "distinct (map qd_id rows)" and "c \<in> set rows" and "qd_status c = QAvailable" and "pullable q now rows d"
    and "rows' = sql_update (\<lambda>x. qd_id x = qd_id c) (leased_row_of h now e m n) rows"
  shows "pullable q now rows' d"
proof -
  have "x = c" if "x \<in> set rows" "qd_id x = qd_id c" for x
    using distinct_key_unique [OF assms(1) that(1) assms(2) that(2)] .
  then have "before_in_key (if qd_id x = qd_id c then leased_row_of h now e m n x else x) d = before_in_key x d"
    if "x \<in> set rows" for x
    using that before_in_key_lease [OF assms(3) refl] by (metis (full_types))
  then have "sql_exists (\<lambda>x. before_in_key x d) rows' = sql_exists (\<lambda>x. before_in_key x d) rows"
    unfolding assms(5) sql_exists_update by (rule sql_exists_cong)
  then show ?thesis using assms(4) by (simp add: pullable_def)
qed

lemma lease_all_trace:
  assumes "lease_all sha q vis now cs receipts s = Inr (ms, s')" and "distinct (map qd_id (queue_deliveries s))"
    and "distinct (map (qd_id \<circ> fst) cs)" and "\<And>d e. (d, e) \<in> set cs \<Longrightarrow> d \<in> set (queue_deliveries s) \<and> pullable q now (queue_deliveries s) d"
    and "0 < vis" and "vis \<le> qs_max_total_lease_seconds q * second"
  shows "\<exists>ls. queue_trace q ls (queue_deliveries s) (queue_deliveries s') \<and>
     ls = map (\<lambda>m. LeaseAt (qm_id m) (queueReceiptHash sha (qm_receipt m)) now (now + vis)) ms \<and>
     queue_subscriptions s' = queue_subscriptions s \<and> length ms = length cs \<and> map qm_id ms = map (qd_id \<circ> fst) cs"
  using assms
proof (induction cs receipts arbitrary: s ms s' rule: list_induct2')
  case 1
  then show ?case by (auto intro: queue_trace.nil)
next
  case (2 c cs)
  then show ?case by (auto intro: queue_trace.nil)
next
  case (3 r rs)
  then show ?case by (auto intro: queue_trace.nil)
next
  case (4 c cs r rs)
  obtain d e where c: "c = (d, e)" by fastforce
  let ?hash = "queueReceiptHash sha r" and ?m = "now + qs_max_total_lease_seconds q * second"
  let ?f = "leased_row_of ?hash now (now + vis) ?m (qd_attempts d + 1)"
  define s1 where "s1 = s\<lparr>queue_deliveries := sql_update (\<lambda>x. qd_id x = qd_id d) ?f (queue_deliveries s)\<rparr>"
  obtain s2 ms' where s2: "insert_queue_attempt \<lparr>qa_delivery_id = qd_id d, qa_generation = qd_generation d,
      qa_attempt = qd_attempts d + 1, qa_outcome = ''leased'', qa_reason = None, qa_occurred_at = now\<rparr> s1 = Some s2"
    and rec: "lease_all sha q vis now cs rs s2 = Inr (ms', s')"
    and ms: "ms = leased_message (qs_id q) r (qd_attempts d + 1) (now + vis) d e # ms'"
    using "4.prems"(1) unfolding c s1_def by (auto simp: Let_def split: option.splits sum.splits)
  note fr = insert_queue_attempt_frame [OF s2]
  have d: "d \<in> set (queue_deliveries s)" "pullable q now (queue_deliveries s) d" using "4.prems"(4) c by auto
  then have avail: "qd_status d = QAvailable" by (simp add: pullable_def)
  have rows: "queue_deliveries s2 = sql_update (\<lambda>x. qd_id x = qd_id d) ?f (queue_deliveries s)" using fr by (simp add: s1_def)
  have ids: "map qd_id (queue_deliveries s2) = map qd_id (queue_deliveries s)"
    unfolding rows by (rule map_key_sql_update) (simp add: leased_row_of_def)
  have cand: "x \<in> set (queue_deliveries s2) \<and> pullable q now (queue_deliveries s2) x" if "(x, y) \<in> set cs" for x y
  proof -
    have x: "x \<in> set (queue_deliveries s)" "pullable q now (queue_deliveries s) x" using "4.prems"(4) that by auto
    have "qd_id x \<noteq> qd_id d" using "4.prems"(3) that c by force
    then have "x \<in> set (queue_deliveries s2)" unfolding rows using x(1) by (auto simp: set_sql_update)
    then show ?thesis using pullable_after_lease [OF "4.prems"(2) d(1) avail x(2) rows] by blast
  qed
  have "queue_trace q (map (\<lambda>m. LeaseAt (qm_id m) (queueReceiptHash sha (qm_receipt m)) now (now + vis)) ms')
      (queue_deliveries s2) (queue_deliveries s') \<and> queue_subscriptions s' = queue_subscriptions s2 \<and>
      length ms' = length cs \<and> map qm_id ms' = map (qd_id \<circ> fst) cs"
    using "4.IH" [OF rec _ _ cand "4.prems"(5,6)] "4.prems"(2,3) ids by simp
  moreover have "queue_update q (LeaseAt (qd_id d) ?hash now (now + vis)) (queue_deliveries s) (queue_deliveries s2)"
    unfolding rows using d "4.prems"(5,6) by (intro queue_update.lease) simp_all
  ultimately show ?case
    using fr by (auto simp: ms leased_message_def c s1_def intro: queue_trace.cons)
qed

lemma pull_visibility_bounds:
  assumes "subscription_check q"
  shows "0 < pull_visibility q v" "pull_visibility q v \<le> qs_max_total_lease_seconds q * second"
    "pull_visibility q v \<le> qs_max_visibility_seconds q * second"
  using assms by (auto simp: pull_visibility_def subscription_check_def)

lemma map_filter_pairs:
  "map fst (List.map_filter (\<lambda>d. map_option (\<lambda>e. (d, e)) (g d)) xs) = filter (\<lambda>d. g d \<noteq> None) xs"
  by (induction xs) (auto simp: List.map_filter_def split: option.splits)

lemma pull_candidates_rows:
  assumes "distinct (map qd_id (queue_deliveries s))"
  shows "\<And>d e. (d, e) \<in> set (pull_candidates locked q now n s) \<Longrightarrow>
      d \<in> set (queue_deliveries s) \<and> pullable q now (queue_deliveries s) d"
    and "distinct (map (qd_id \<circ> fst) (pull_candidates locked q now n s))"
    and "length (pull_candidates locked q now n s) \<le> nat n"
proof -
  define ds where "ds = sort_key (pull_order now)
    (filter (\<lambda>d. pullable q now (queue_deliveries s) d \<and> qd_id d \<notin> locked) (queue_deliveries s))"
  define g where "g d = sql_row (\<lambda>e. ev_id e = qd_event_id d) (events s)" for d :: queue_delivery
  define cs where "cs = List.map_filter (\<lambda>d. map_option (\<lambda>e. (d, e)) (g d)) ds"
  have pc: "pull_candidates locked q now n s = take (nat n) cs"
    by (simp add: pull_candidates_def cs_def ds_def g_def)
  have fst_cs: "map fst cs = filter (\<lambda>d. g d \<noteq> None) ds" unfolding cs_def by (rule map_filter_pairs)
  have ds: "d \<in> set (queue_deliveries s) \<and> pullable q now (queue_deliveries s) d" if "d \<in> set ds" for d
    using that by (auto simp: ds_def)
  show "length (pull_candidates locked q now n s) \<le> nat n" by (simp add: pc)
  show "d \<in> set (queue_deliveries s) \<and> pullable q now (queue_deliveries s) d"
    if "(d, e) \<in> set (pull_candidates locked q now n s)" for d e
  proof -
    have "(d, e) \<in> set cs" using that unfolding pc by (rule in_set_takeD)
    then have "d \<in> set (map fst cs)" by force
    then show ?thesis unfolding fst_cs using ds by simp
  qed
  have "distinct ds" using assms by (simp add: ds_def distinct_map)
  moreover have "inj_on qd_id (set ds)" using assms by (auto simp: ds_def distinct_map intro: inj_on_subset)
  ultimately have "distinct (map qd_id ds)" by (simp add: distinct_map)
  then have "distinct (map qd_id (map fst cs))" unfolding fst_cs by (rule distinct_map_filter)
  then show "distinct (map (qd_id \<circ> fst) (pull_candidates locked q now n s))"
    by (simp add: pc take_map [symmetric] distinct_take)
qed

lemma GetQueueSubscription_row:
  "GetQueueSubscription s appID i = Inr q \<Longrightarrow> q \<in> set (queue_subscriptions s) \<and> qs_id q = i \<and> qs_app_id q = appID"
  by (auto simp: GetQueueSubscription_def split: option.splits dest: sql_row_Some)

text \<open>The delivery table and the subscriptions satisfy their constraints.\<close>

definition queue_row_check :: "queue_delivery \<Rightarrow> bool" where
  "queue_row_check d \<longleftrightarrow>
     0 < qd_generation d \<and> 0 \<le> qd_attempts d \<and>
     (qd_status d = QInFlight \<longleftrightarrow> qd_receipt_hash d \<noteq> None) \<and>
     (qd_receipt_hash d = None \<longleftrightarrow> qd_lease_started_at d = None) \<and>
     (qd_receipt_hash d = None \<longleftrightarrow> qd_lease_expires_at d = None) \<and>
     (qd_receipt_hash d = None \<longleftrightarrow> qd_lease_max_expires_at d = None)"

definition queue_ok :: "db \<Rightarrow> bool" where
  "queue_ok s \<longleftrightarrow>
     distinct (map qd_id (queue_deliveries s)) \<and> distinct (map qs_id (queue_subscriptions s)) \<and>
     list_all queue_row_check (queue_deliveries s) \<and> list_all subscription_check (queue_subscriptions s)"

lemma queue_ok_subscription: "queue_ok s \<Longrightarrow> GetQueueSubscription s a i = Inr q \<Longrightarrow> subscription_check q"
  using GetQueueSubscription_row [of s a i q] by (auto simp: queue_ok_def list_all_iff)

lemma lease_all_attempts:
  "lease_all sha q vis now cs receipts s = Inr (ms, s') \<Longrightarrow>
   \<exists>new. queue_attempts s' = queue_attempts s @ new \<and> length new = length ms"
proof (induction cs receipts arbitrary: s ms s' rule: list_induct2')
  case (4 c cs r rs)
  then show ?case
    by (cases c) (fastforce simp: Let_def insert_queue_attempt_def split: option.splits sum.splits if_splits)
qed auto

lemma Pull_trace:
  assumes ok: "queue_ok s" and pull: "PullQueueDeliveries sha md5 locked s req = (r, s')"
  obtains (none) "s' = s" "r = Inr [] \<or> (\<exists>e. r = Inl e)"
  | (pulled) q s2 ms where "GetQueueSubscription s (pq_app_id req) (pq_subscription_id req) = Inr q"
      "qs_draining_at q = None" "r = Inr ms"
      "queue_trace q [ReclaimAt (pq_now req), RetentionAt (pq_now req)] (queue_deliveries s) (queue_deliveries s2)"
      "queue_trace q (map (\<lambda>m. LeaseAt (qm_id m) (queueReceiptHash sha (qm_receipt m)) (pq_now req)
          (pq_now req + pull_visibility q (pq_visibility req))) ms) (queue_deliveries s2) (queue_deliveries s')"
      "queue_subscriptions s' = queue_subscriptions s" "distinct (map qm_id ms)"
      "ms \<noteq> [] \<Longrightarrow> \<exists>n. pull_limit q (pq_limit req) (pq_now req) s2 = Some n \<and> length ms \<le> nat n"
      "ms = [] \<Longrightarrow> queue_deliveries s' = queue_deliveries s2"
      "\<exists>new. queue_attempts s' = queue_attempts s2 @ new \<and> length new = length ms"
proof (cases "GetQueueSubscription s (pq_app_id req) (pq_subscription_id req)")
  case (Inl e)
  then show ?thesis using pull none by (auto simp: PullQueueDeliveries_def)
next
  case (Inr q)
  let ?now = "pq_now req" and ?v = "pull_visibility q (pq_visibility req)"
  show ?thesis
  proof (cases "qs_draining_at q \<noteq> None \<or> \<not> qs_enabled q \<or> qs_paused_at q \<noteq> None \<or> failure_callbacks md5 q ?now (reclaim q ?now s) = None")
    case True
    then show ?thesis using pull none Inr by (auto simp: PullQueueDeliveries_def Let_def split: if_splits)
  next
    case False
    then obtain s1 where s1: "failure_callbacks md5 q ?now (reclaim q ?now s) = Some s1" by auto
    define s2 where "s2 = expire_retention q ?now s1"
    note fr = failure_callbacks_frame [OF s1]
    have subs: "queue_subscriptions s2 = queue_subscriptions s" using fr by (simp add: s2_def expire_retention_def)
    have rows2: "queue_trace q [ReclaimAt ?now, RetentionAt ?now] (queue_deliveries s) (queue_deliveries s2)"
      using fr by (auto simp: s2_def expire_retention_def intro: queue_trace.intros queue_update.reclaim queue_update.retention)
    have ids: "map qd_id (queue_deliveries s2) = map qd_id (queue_deliveries s)"
      using fr by (simp add: s2_def expire_retention_def map_key_sql_update reclaimed_row_def unleased_def)
    then have dist: "distinct (map qd_id (queue_deliveries s2))" using ok by (simp add: queue_ok_def)
    have pull2: "(case pull_limit q (pq_limit req) ?now s2 of None \<Rightarrow> (Inr [], s2)
        | Some limit \<Rightarrow> if limit < 0 then (Inl ErrDB, s)
          else (case lease_all sha q ?v ?now (pull_candidates locked q ?now limit s2) (pq_receipts req) s2 of
                  Inl e \<Rightarrow> (Inl e, s) | Inr (ms, s3) \<Rightarrow> (Inr ms, s3))) = (r, s')"
      using pull False s1 Inr by (simp add: PullQueueDeliveries_def Let_def flip: s2_def)
    show ?thesis
    proof (cases "pull_limit q (pq_limit req) ?now s2")
      case None
      then have "r = Inr []" "s' = s2" using pull2 by simp_all
      then show ?thesis using pulled [OF Inr, of "[]" s2] False rows2 subs by (auto intro: queue_trace.nil)
    next
      case (Some n)
      show ?thesis
      proof (cases "n < 0 \<or> (\<exists>e. lease_all sha q ?v ?now (pull_candidates locked q ?now n s2) (pq_receipts req) s2 = Inl e)")
        case True
        then show ?thesis using pull2 Some none by (auto split: if_splits)
      next
        case noerr: False
        then obtain ms where ms: "lease_all sha q ?v ?now (pull_candidates locked q ?now n s2) (pq_receipts req) s2 = Inr (ms, s')"
          "r = Inr ms"
          using pull2 Some by (auto split: sum.splits)
        note v = pull_visibility_bounds [OF queue_ok_subscription [OF ok Inr]]
        note cand = pull_candidates_rows [OF dist, where locked = locked and q = q and now = ?now and n = n]
        have tr: "queue_trace q (map (\<lambda>m. LeaseAt (qm_id m) (queueReceiptHash sha (qm_receipt m)) ?now (?now + ?v)) ms)
            (queue_deliveries s2) (queue_deliveries s')" "queue_subscriptions s' = queue_subscriptions s2"
          "length ms = length (pull_candidates locked q ?now n s2)"
          "map qm_id ms = map (qd_id \<circ> fst) (pull_candidates locked q ?now n s2)"
          using lease_all_trace [OF ms(1) dist cand(2) _ v(1,2)] cand(1) by blast+
        then have "ms = [] \<Longrightarrow> queue_deliveries s' = queue_deliveries s2" by simp
        then show ?thesis
          using pulled [OF Inr _ ms(2) rows2 tr(1)] tr(2-4) False subs cand(2,3) Some lease_all_attempts [OF ms(1)] by simp
      qed
    qed
  qed
qed

lemma settle_one_trace:
  assumes "settle_one sha q appID (qs_id q) now x s = Some (r, s')"
  shows "queue_subscriptions s' = queue_subscriptions s \<and>
    (\<exists>ls. queue_trace q ls (queue_deliveries s) (queue_deliveries s') \<and>
      set ls \<subseteq> {SettleAt (queueReceiptHash sha (ql_receipt x)) now})"
proof (cases "next_status x now")
  case None
  then show ?thesis using assms by (auto simp: settle_one_def intro: exI [of _ "[]"])
next
  case (Some p)
  obtain st at where p: "p = (st, at)" by fastforce
  have st: "st \<noteq> QInFlight" using Some p by (auto simp: next_status_def split: if_splits)
  let ?h = "queueReceiptHash sha (ql_receipt x)"
  let ?P = "holds_receipt (qs_id q) appID ?h now" and ?f = "settled_row q st at (ql_reason x) now"
  show ?thesis
  proof (cases "sql_row ?P (queue_deliveries s)")
    case None
    then show ?thesis using assms Some p by (auto simp: settle_one_def Let_def intro: exI [of _ "[]"])
  next
    case (Some d)
    then have "queue_deliveries s' = sql_update ?P ?f (queue_deliveries s) \<and> queue_subscriptions s' = queue_subscriptions s"
      using assms \<open>next_status x now = Some p\<close> p
      by (auto simp: settle_one_def Let_def bind_eq_Some_conv split: if_splits
          dest!: insert_queue_attempt_frame insertQueueResultCallback_frame)
    then show ?thesis using queue_trace_single [OF queue_update.settle [OF st, of q ?h now "queue_deliveries s" appID at "ql_reason x"]]
      by fastforce
  qed
qed

lemma settle_all_trace:
  assumes "settle_all sha q appID (qs_id q) now xs s = Some (rs, s')"
  shows "queue_subscriptions s' = queue_subscriptions s \<and>
    (\<exists>ls. queue_trace q ls (queue_deliveries s) (queue_deliveries s') \<and>
      set ls \<subseteq> (\<lambda>x. SettleAt (queueReceiptHash sha (ql_receipt x)) now) ` set xs)"
  using assms
proof (induction xs arbitrary: s rs s')
  case Nil
  then show ?case by (auto intro: exI [of _ "[]"])
next
  case (Cons x xs)
  from Cons.prems obtain r s1 rs1 where one: "settle_one sha q appID (qs_id q) now x s = Some (r, s1)"
    and all: "settle_all sha q appID (qs_id q) now xs s1 = Some (rs1, s')"
    by (auto simp: bind_eq_Some_conv)
  from settle_one_trace [OF one] Cons.IH [OF all] show ?case
    using queue_trace_append by (fastforce simp: image_iff)
qed

lemma extend_all_trace:
  assumes "extend_all sha appID (qs_id q) now xs s = (rs, s')"
  shows "queue_subscriptions s' = queue_subscriptions s \<and>
    (\<exists>ls. queue_trace q ls (queue_deliveries s) (queue_deliveries s') \<and>
      set ls \<subseteq> (\<lambda>x. ExtendAt (queueReceiptHash sha (lx_receipt x)) now) ` set xs)"
  using assms
proof (induction xs arbitrary: s rs s')
  case Nil
  then show ?case by (auto intro: exI [of _ "[]"])
next
  case (Cons x xs)
  let ?h = "queueReceiptHash sha (lx_receipt x)"
  let ?s1 = "s\<lparr>queue_deliveries := sql_update (holds_receipt (qs_id q) appID ?h now) (extended_row (lx_extension x) now) (queue_deliveries s)\<rparr>"
  from Cons.prems obtain rs1 where "extend_all sha appID (qs_id q) now xs ?s1 = (rs1, s')"
    by (auto simp: Let_def split: prod.splits)
  from Cons.IH [OF this] obtain ls where "queue_subscriptions s' = queue_subscriptions s"
    "queue_trace q ls (queue_deliveries ?s1) (queue_deliveries s')"
    "set ls \<subseteq> (\<lambda>x. ExtendAt (queueReceiptHash sha (lx_receipt x)) now) ` set xs" by auto
  moreover have "queue_update q (ExtendAt ?h now) (queue_deliveries s) (queue_deliveries ?s1)"
    using queue_update.extend [of q ?h now "queue_deliveries s" appID "lx_extension x"] by simp
  ultimately show ?case by (auto intro!: exI [of _ "ExtendAt ?h now # ls"] intro: queue_trace.cons)
qed

section \<open>Calls\<close>

datatype queue_cmd =
    PullCmd "string set" queue_pull_request
  | SettleCmd string string "queue_settlement list" time
  | ExtendCmd string string "lease_extension list" time

fun exec_queue :: "(string \<Rightarrow> string) \<Rightarrow> (string \<Rightarrow> string) \<Rightarrow> queue_cmd \<Rightarrow> db \<Rightarrow> db" where
  "exec_queue sha md5 (PullCmd locked req) s = snd (PullQueueDeliveries sha md5 locked s req)"
| "exec_queue sha md5 (SettleCmd app sub xs now) s = snd (SettleQueueDeliveries sha s app sub xs now)"
| "exec_queue sha md5 (ExtendCmd app sub xs now) s = snd (ExtendQueueLeases sha s app sub xs now)"

definition exec_queues :: "(string \<Rightarrow> string) \<Rightarrow> (string \<Rightarrow> string) \<Rightarrow> queue_cmd list \<Rightarrow> db \<Rightarrow> db" where
  "exec_queues sha md5 cmds s = fold (exec_queue sha md5) cmds s"

text \<open>The labels a call may give.\<close>

fun cmd_label :: "(string \<Rightarrow> string) \<Rightarrow> queue_cmd \<Rightarrow> queue_label \<Rightarrow> bool" where
  "cmd_label sha (PullCmd locked req) l =
     (l = ReclaimAt (pq_now req) \<or> l = RetentionAt (pq_now req) \<or> (\<exists>i h e. l = LeaseAt i h (pq_now req) e))"
| "cmd_label sha (SettleCmd app sub xs now) l = (l \<in> (\<lambda>x. SettleAt (queueReceiptHash sha (ql_receipt x)) now) ` set xs)"
| "cmd_label sha (ExtendCmd app sub xs now) l = (l \<in> (\<lambda>x. ExtendAt (queueReceiptHash sha (lx_receipt x)) now) ` set xs)"

lemma exec_queue_trace:
  assumes "queue_ok s"
  shows "queue_subscriptions (exec_queue sha md5 c s) = queue_subscriptions s \<and>
    (queue_deliveries (exec_queue sha md5 c s) = queue_deliveries s \<or>
     (\<exists>q ls. q \<in> set (queue_subscriptions s) \<and> list_all (cmd_label sha c) ls \<and>
       queue_trace q ls (queue_deliveries s) (queue_deliveries (exec_queue sha md5 c s))))"
proof (cases c)
  case (PullCmd locked req)
  obtain r s' where p: "PullQueueDeliveries sha md5 locked s req = (r, s')" by fastforce
  show ?thesis
  proof (cases rule: Pull_trace [OF assms p, case_names none pulled])
    case none
    then show ?thesis using PullCmd p by simp
  next
    case (pulled q s2 ms)
    let ?ls = "[ReclaimAt (pq_now req), RetentionAt (pq_now req)] @ map (\<lambda>m. LeaseAt (qm_id m)
      (queueReceiptHash sha (qm_receipt m)) (pq_now req) (pq_now req + pull_visibility q (pq_visibility req))) ms"
    have "list_all (cmd_label sha c) ?ls" using PullCmd by (auto simp: list_all_iff)
    then show ?thesis
      using PullCmd p GetQueueSubscription_row [OF pulled(1)] pulled(6) queue_trace_append [OF pulled(4,5)] by auto
  qed
next
  case (SettleCmd app sub xs now)
  show ?thesis
  proof (cases "\<exists>q rs s'. GetQueueSubscription s app sub = Inr q \<and> settle_all sha q app sub now xs s = Some (rs, s')")
    case True
    then obtain q rs s' where q: "GetQueueSubscription s app sub = Inr q" "settle_all sha q app sub now xs s = Some (rs, s')" by blast
    note row = GetQueueSubscription_row [OF q(1)]
    obtain ls where ls: "queue_subscriptions s' = queue_subscriptions s" "queue_trace q ls (queue_deliveries s) (queue_deliveries s')"
      "set ls \<subseteq> (\<lambda>x. SettleAt (queueReceiptHash sha (ql_receipt x)) now) ` set xs"
      using settle_all_trace [of sha q app now xs s rs s'] q row by auto
    then have "list_all (cmd_label sha c) ls" using SettleCmd by (auto simp: list_all_iff)
    moreover have "exec_queue sha md5 c s = s'" using SettleCmd q by (simp add: SettleQueueDeliveries_def)
    ultimately show ?thesis using ls row by metis
  next
    case False
    then show ?thesis using SettleCmd by (auto simp: SettleQueueDeliveries_def split: sum.splits option.splits)
  qed
next
  case (ExtendCmd app sub xs now)
  show ?thesis
  proof (cases "GetQueueSubscription s app sub")
    case (Inl e)
    then show ?thesis using ExtendCmd by (simp add: ExtendQueueLeases_def)
  next
    case (Inr q)
    note row = GetQueueSubscription_row [OF Inr]
    obtain rs s' where e: "extend_all sha app sub now xs s = (rs, s')" by fastforce
    obtain ls where ls: "queue_subscriptions s' = queue_subscriptions s" "queue_trace q ls (queue_deliveries s) (queue_deliveries s')"
      "set ls \<subseteq> (\<lambda>x. ExtendAt (queueReceiptHash sha (lx_receipt x)) now) ` set xs"
      using extend_all_trace [of sha app q now xs s rs s'] e row by auto
    then have "list_all (cmd_label sha c) ls" using ExtendCmd by (auto simp: list_all_iff)
    moreover have "exec_queue sha md5 c s = s'" using ExtendCmd Inr e by (simp add: ExtendQueueLeases_def)
    ultimately show ?thesis using ls row by metis
  qed
qed

section \<open>Invariants\<close>

text \<open>Of a row: its constraints, and that a lease never outlives its bound.\<close>

definition queue_row_wf :: "queue_delivery \<Rightarrow> bool" where
  "queue_row_wf d \<longleftrightarrow>
     queue_row_check d \<and>
     (case (qd_lease_expires_at d, qd_lease_max_expires_at d) of (Some e, Some m) \<Rightarrow> e \<le> m | _ \<Rightarrow> True)"

lemma queue_row_wf_rows:
  assumes "queue_row_wf d"
  shows "queue_row_wf (reclaimed_row q now d)"
    "qd_status d = QAvailable \<Longrightarrow> queue_row_wf (d\<lparr>qd_status := QDeadLetter, qd_last_reason := r, qd_updated_at := now\<rparr>)"
    "e \<le> m \<Longrightarrow> 0 \<le> n \<Longrightarrow> queue_row_wf (leased_row_of h now e m n d)"
    "st \<noteq> QInFlight \<Longrightarrow> queue_row_wf (settled_row q st at reason now d)"
    "qd_status d = QInFlight \<Longrightarrow> queue_row_wf (extended_row x now d)"
  using assms
  by (auto simp: queue_row_wf_def queue_row_check_def reclaimed_row_def unleased_def leased_row_of_def settled_row_def
      extended_row_def Let_def)

lemma list_all_sql_update:
  "list_all I rows \<Longrightarrow> (\<And>x. x \<in> set rows \<Longrightarrow> P x \<Longrightarrow> I x \<Longrightarrow> I (f x)) \<Longrightarrow> list_all I (sql_update P f rows)"
  by (auto simp: list_all_iff sql_update_def)

lemma queue_update_ids: "queue_update q l rows rows' \<Longrightarrow> map qd_id rows' = map qd_id rows"
  by (erule queue_update.cases)
     (auto simp: sql_update_def reclaimed_row_def unleased_def leased_row_of_def settled_row_def extended_row_def Let_def)

lemma queue_update_wf: "queue_update q l rows rows' \<Longrightarrow> list_all queue_row_wf rows \<Longrightarrow> list_all queue_row_wf rows'"
proof (induction rule: queue_update.induct)
  case (lease d rows now e m hash)
  then have "0 \<le> qd_attempts d" by (auto simp: list_all_iff queue_row_wf_def queue_row_check_def)
  then show ?case using lease by (intro list_all_sql_update queue_row_wf_rows) auto
qed (intro list_all_sql_update queue_row_wf_rows; simp add: holds_receipt_def)+

text \<open>
  Attempts: a delivery that can be leased has attempts left.  Order: a delivery with an ordering key that is in
  flight is the first of its key among those that are not settled.
\<close>

definition attempts_bounded :: "queue_subscription list \<Rightarrow> queue_delivery \<Rightarrow> bool" where
  "attempts_bounded subs d \<longleftrightarrow>
     list_all (\<lambda>q. qs_id q = qd_subscription_id d \<longrightarrow>
       qd_attempts d \<le> qs_max_attempts q \<and> (qd_status d = QAvailable \<longrightarrow> qd_attempts d < qs_max_attempts q)) subs"

lemma queue_update_bounded:
  assumes "queue_update q l rows rows'" and "q \<in> set subs" and "distinct (map qs_id subs)"
    and "distinct (map qd_id rows)" and "list_all (attempts_bounded subs) rows"
  shows "list_all (attempts_bounded subs) rows'"
proof -
  have sub: "x = q" if "x \<in> set subs" "qs_id x = qs_id q" for x
    using distinct_key_unique [OF assms(3) that(1) assms(2) that(2)] .
  from assms(1) show ?thesis
  proof cases
    case (lease d now e m hash)
    have one: "x = d" if "x \<in> set rows" "qd_id x = qd_id d" for x
      using distinct_key_unique [OF assms(4) that(1) lease(3) that(2)] .
    have "qd_status d = QAvailable" using lease(4) by (simp add: pullable_def)
    then have "attempts_bounded subs (leased_row_of hash now e m (qd_attempts d + 1) d)"
      using assms(5) lease(3) by (auto simp: attempts_bounded_def leased_row_of_def list_all_iff add1_zle_eq)
    then show ?thesis unfolding lease(2) using assms(5) one by (intro list_all_sql_update) auto
  next
    case (reclaim now)
    show ?thesis unfolding reclaim(2) using assms(5)
      by (rule list_all_sql_update)
         (auto simp: attempts_bounded_def reclaimed_row_def unleased_def expired_lease_def list_all_iff dest!: sub)
  next
    case (settle st hash now app at reason)
    show ?thesis unfolding settle(2) using assms(5)
      by (rule list_all_sql_update)
         (auto simp: attempts_bounded_def settled_row_def unleased_def holds_receipt_def Let_def list_all_iff dest!: sub)
  next
    case (extend hash now app x)
    show ?thesis unfolding extend(2) using assms(5)
      by (rule list_all_sql_update) (auto simp: attempts_bounded_def extended_row_def holds_receipt_def)
  next
    case (retention now)
    show ?thesis unfolding retention(2) using assms(5)
      by (rule list_all_sql_update) (auto simp: attempts_bounded_def list_all_iff)
  qed
qed

definition keyed :: "queue_subscription list \<Rightarrow> queue_delivery \<Rightarrow> bool" where
  "keyed subs d \<longleftrightarrow>
     qd_ordering_key d \<noteq> None \<and> sql_exists (\<lambda>q. qs_id q = qd_subscription_id d \<and> qs_ordering_mode q \<noteq> ''none'') subs"

definition heads :: "queue_subscription list \<Rightarrow> queue_delivery list \<Rightarrow> bool" where
  "heads subs rows \<longleftrightarrow>
     list_all (\<lambda>d. keyed subs d \<and> qd_status d = QInFlight \<longrightarrow> \<not> sql_exists (\<lambda>e. before_in_key e d) rows) rows"

text \<open>An update that activates no row keeps the heads, whatever else it does to the status.\<close>

lemma heads_deactivate:
  assumes "heads subs rows"
    and "\<And>x. x \<in> set rows \<Longrightarrow> P x \<Longrightarrow> qd_status (f x) \<in> {QAvailable, QInFlight} \<Longrightarrow> qd_status x \<in> {QAvailable, QInFlight}"
    and "\<And>x. x \<in> set rows \<Longrightarrow> P x \<Longrightarrow> qd_status (f x) = QInFlight \<Longrightarrow> qd_status x = QInFlight"
    and "\<And>x. qd_id (f x) = qd_id x \<and> qd_subscription_id (f x) = qd_subscription_id x \<and>
      qd_ordering_key (f x) = qd_ordering_key x \<and> qd_created_at (f x) = qd_created_at x"
  shows "heads subs (sql_update P f rows)"
proof -
  define g where "g x = (if P x then f x else x)" for x
  have rows: "sql_update P f rows = map g rows" by (simp add: sql_update_def g_def)
  have same: "qd_id (g x) = qd_id x" "qd_subscription_id (g x) = qd_subscription_id x"
    "qd_ordering_key (g x) = qd_ordering_key x" "qd_created_at (g x) = qd_created_at x" for x
    using assms(4) by (simp_all add: g_def)
  have "\<not> before_in_key (g e) (g d)" if "d \<in> set rows" "e \<in> set rows" "keyed subs (g d)" "qd_status (g d) = QInFlight" for d e
  proof -
    have "qd_status d = QInFlight" using that(1,4) assms(3) [of d] by (auto simp: g_def split: if_splits)
    moreover have "keyed subs d" using that(3) same by (simp add: keyed_def)
    ultimately have "\<not> before_in_key e d" using assms(1) that(1,2) by (auto simp: heads_def list_all_iff)
    moreover have "before_in_key e d" if "before_in_key (g e) (g d)"
      using that assms(2) [of e] \<open>e \<in> set rows\<close> same by (auto simp: before_in_key_def g_def split: if_splits)
    ultimately show ?thesis by blast
  qed
  then show ?thesis unfolding rows by (auto simp: heads_def list_all_iff)
qed

lemma queue_update_heads:
  assumes "queue_update q l rows rows'" and "q \<in> set subs" and "distinct (map qs_id subs)"
    and "distinct (map qd_id rows)" and "heads subs rows"
  shows "heads subs rows'"
  using assms(1)
proof cases
  case (lease d now e m hash)
  have one: "x = d" if "x \<in> set rows" "qd_id x = qd_id d" for x
    using distinct_key_unique [OF assms(4) that(1) lease(3) that(2)] .
  have d: "qd_status d = QAvailable" "qd_subscription_id d = qs_id q" using lease(4) by (simp_all add: pullable_def)
  define g where "g x = (if qd_id x = qd_id d then leased_row_of hash now e m (qd_attempts d + 1) x else x)" for x
  have rows: "rows' = map g rows" unfolding lease(2) by (simp add: sql_update_def g_def)
  have bik: "before_in_key (g x) (g y) = before_in_key x y" if "x \<in> set rows" for x y
    using one [OF that] d(1) by (auto simp: g_def before_in_key_def leased_row_of_def)
  have "\<not> before_in_key x y" if "y \<in> set rows" "x \<in> set rows" "keyed subs (g y)" "qd_status (g y) = QInFlight" for x y
  proof (cases "y = d")
    case True
    have "keyed subs d" using that(3) True by (simp add: keyed_def g_def leased_row_of_def)
    then obtain q' where "q' \<in> set subs" "qs_id q' = qs_id q" "qs_ordering_mode q' \<noteq> ''none''" "qd_ordering_key d \<noteq> None"
      using d(2) by (auto simp: keyed_def)
    then have "qs_ordering_mode q \<noteq> ''none''" using distinct_key_unique [OF assms(3) _ assms(2)] by blast
    then show ?thesis using lease(4) \<open>qd_ordering_key d \<noteq> None\<close> that(2) True by (auto simp: pullable_def)
  next
    case False
    then have "g y = y" using one that(1) by (auto simp: g_def)
    then show ?thesis using assms(5) that by (auto simp: heads_def list_all_iff)
  qed
  then show ?thesis unfolding rows using bik by (auto simp: heads_def list_all_iff)
next
  case (reclaim now)
  show ?thesis unfolding reclaim(2) using assms(5)
    by (rule heads_deactivate) (auto simp: reclaimed_row_def unleased_def expired_lease_def split: if_splits)
next
  case (settle st hash now app at reason)
  then show ?thesis unfolding settle(2) using assms(5)
    by (intro heads_deactivate) (auto simp: settled_row_def unleased_def holds_receipt_def Let_def split: if_splits)
next
  case (extend hash now app x)
  show ?thesis unfolding extend(2) using assms(5)
    by (rule heads_deactivate) (auto simp: extended_row_def holds_receipt_def)
next
  case (retention now)
  show ?thesis unfolding retention(2) using assms(5)
    by (rule heads_deactivate) auto
qed

end
