(* ===== verification/QueueProperties.thy ===== *)
theory QueueProperties
  imports QueueRuns
begin

text \<open>
  What the pull queue guarantees over any interleaving of calls: constraints and order, the limits of a
  subscription, the attempts of a delivery and the lease of the holder of a receipt; and two ways in which
  it falls short.
\<close>

section \<open>Runs\<close>

definition queue_inv :: "db \<Rightarrow> bool" where
  "queue_inv s \<longleftrightarrow>
     queue_ok s \<and> list_all queue_row_wf (queue_deliveries s) \<and>
     list_all (attempts_bounded (queue_subscriptions s)) (queue_deliveries s) \<and>
     heads (queue_subscriptions s) (queue_deliveries s)"

definition table_inv :: "queue_subscription list \<Rightarrow> queue_delivery list \<Rightarrow> bool" where
  "table_inv subs rows \<longleftrightarrow>
     distinct (map qd_id rows) \<and> list_all queue_row_wf rows \<and> list_all (attempts_bounded subs) rows \<and> heads subs rows"

lemma queue_inv_table:
  "queue_inv s \<longleftrightarrow>
     distinct (map qs_id (queue_subscriptions s)) \<and> list_all subscription_check (queue_subscriptions s) \<and>
     table_inv (queue_subscriptions s) (queue_deliveries s)"
  by (auto simp: queue_inv_def queue_ok_def table_inv_def list_all_iff queue_row_wf_def)

lemma table_inv_update:
  assumes "queue_update q l rows rows'" and "q \<in> set subs" and "distinct (map qs_id subs)" and "table_inv subs rows"
  shows "table_inv subs rows'"
  using assms queue_update_ids [OF assms(1)] queue_update_wf [OF assms(1)] queue_update_bounded [OF assms(1-3)]
    queue_update_heads [OF assms(1-3)]
  by (simp add: table_inv_def)

lemma exec_queue_inv: "queue_inv s \<Longrightarrow> queue_inv (exec_queue sha md5 c s)"
proof -
  assume inv: "queue_inv s"
  then have dist: "distinct (map qs_id (queue_subscriptions s))"
    and tab: "table_inv (queue_subscriptions s) (queue_deliveries s)"
    by (simp_all add: queue_inv_table)
  have ok: "queue_ok s" using inv by (simp add: queue_inv_def)
  note tr = exec_queue_trace [OF ok, of sha md5 c]
  have "table_inv (queue_subscriptions s) (queue_deliveries (exec_queue sha md5 c s))"
  proof (cases "queue_deliveries (exec_queue sha md5 c s) = queue_deliveries s")
    case True
    then show ?thesis using tab by simp
  next
    case False
    then obtain q ls where q: "q \<in> set (queue_subscriptions s)"
      "queue_trace q ls (queue_deliveries s) (queue_deliveries (exec_queue sha md5 c s))" using tr by blast
    show ?thesis
      by (rule queue_trace_inv [where I = "table_inv (queue_subscriptions s)" and L = "\<lambda>_. True", OF q(2) tab])
         (auto simp: list_all_iff intro: table_inv_update [OF _ q(1) dist])
  qed
  then show ?thesis using tr inv by (simp add: queue_inv_table)
qed

inductive queue_step :: "(string \<Rightarrow> string) \<Rightarrow> (string \<Rightarrow> string) \<Rightarrow> db \<Rightarrow> db \<Rightarrow> bool" for sha md5 where
  call: "queue_step sha md5 s (exec_queue sha md5 c s)"

interpretation queue_calls: invariant_system "queue_step sha md5" queue_inv
  by unfold_locales (auto elim: queue_step.cases intro: exec_queue_inv)

lemma exec_queues_steps: "(queue_step sha md5)\<^sup>*\<^sup>* s (exec_queues sha md5 cmds s)"
proof (induction cmds arbitrary: s)
  case Nil
  then show ?case by (simp add: exec_queues_def)
next
  case (Cons c cs)
  have "(queue_step sha md5)\<^sup>*\<^sup>* (exec_queue sha md5 c s) (exec_queues sha md5 (c # cs) s)"
    using Cons.IH [of "exec_queue sha md5 c s"] by (simp add: exec_queues_def)
  with queue_step.call show ?case by (rule converse_rtranclp_into_rtranclp)
qed

lemma exec_queues_subscriptions: "queue_inv s \<Longrightarrow> queue_subscriptions (exec_queues sha md5 cmds s) = queue_subscriptions s"
proof (induction cmds arbitrary: s)
  case (Cons c cs)
  have "queue_ok s" using Cons.prems by (simp add: queue_inv_def)
  then show ?case
    using Cons.IH [OF exec_queue_inv [OF Cons.prems, of sha md5 c]] exec_queue_trace [of s sha md5 c] by (simp add: exec_queues_def)
qed (simp add: exec_queues_def)

section \<open>One delivery\<close>

definition find_queue :: "queue_delivery list \<Rightarrow> string \<Rightarrow> queue_delivery option" where
  "find_queue rows i = sql_row (\<lambda>d. qd_id d = i) rows"

lemma find_queue_in: "find_queue rows i = Some d \<Longrightarrow> d \<in> set rows \<and> qd_id d = i"
  by (auto simp: find_queue_def dest: sql_row_Some)

lemma find_queueI: "distinct (map qd_id rows) \<Longrightarrow> d \<in> set rows \<Longrightarrow> qd_id d = i \<Longrightarrow> find_queue rows i = Some d"
  unfolding find_queue_def by (rule sql_row_key)

lemma find_queue_update:
  "(\<And>x. qd_id (f x) = qd_id x) \<Longrightarrow> find_queue (sql_update P f rows) i = map_option (\<lambda>d. if P d then f d else d) (find_queue rows i)"
  using sql_row_sql_update_key [of P qd_id f i rows] by (simp add: find_queue_def)

text \<open>A settled delivery is left alone by every update.\<close>

lemma queue_update_settled:
  assumes "queue_update q l rows rows'" and "distinct (map qd_id rows)" and "find_queue rows i = Some d"
    and "qd_status d = QAcked \<or> qd_status d = QDeadLetter"
  shows "find_queue rows' i = Some d"
  using assms(1)
proof cases
  case (lease c now e m hash)
  have "qd_id c \<noteq> i"
    using distinct_key_unique [OF assms(2) lease(3), of d] find_queue_in [OF assms(3)] lease(4) assms(4)
    by (auto simp: pullable_def)
  then show ?thesis unfolding lease(2) using assms(3) find_queue_in [OF assms(3)]
    by (subst find_queue_update) (auto simp: leased_row_of_def)
next
  case (reclaim now)
  show ?thesis unfolding reclaim(2) using assms(3,4)
    by (subst find_queue_update) (auto simp: reclaimed_row_def unleased_def expired_lease_def)
next
  case (settle st hash now app at reason)
  show ?thesis unfolding settle(2) using assms(3,4)
    by (subst find_queue_update) (auto simp: settled_row_def unleased_def holds_receipt_def Let_def)
next
  case (extend hash now app x)
  show ?thesis unfolding extend(2) using assms(3,4)
    by (subst find_queue_update) (auto simp: extended_row_def holds_receipt_def)
next
  case (retention now)
  show ?thesis unfolding retention(2) using assms(3,4) by (subst find_queue_update) auto
qed

text \<open>Only a lease changes the number of attempts, and it adds one.\<close>

definition lease_label :: "string \<Rightarrow> queue_label \<Rightarrow> bool" where
  "lease_label i l = (case l of LeaseAt j _ _ _ \<Rightarrow> j = i | _ \<Rightarrow> False)"

lemma queue_update_attempts:
  assumes "queue_update q l rows rows'" and "distinct (map qd_id rows)" and "find_queue rows i = Some d"
  shows "\<exists>d'. find_queue rows' i = Some d' \<and> qd_subscription_id d' = qd_subscription_id d \<and>
    qd_attempts d' = qd_attempts d + (if lease_label i l then 1 else 0)"
  using assms(1)
proof cases
  case (lease c now e m hash)
  have "qd_id c = i \<Longrightarrow> c = d"
    using distinct_key_unique [OF assms(2) lease(3), of d] find_queue_in [OF assms(3)] by simp
  then show ?thesis unfolding lease(1,2) using assms(3) find_queue_in [OF assms(3)]
    by (subst find_queue_update) (auto simp: leased_row_of_def lease_label_def)
next
  case (reclaim now)
  show ?thesis unfolding reclaim(1,2) using assms(3)
    by (subst find_queue_update) (auto simp: reclaimed_row_def unleased_def lease_label_def)
next
  case (settle st hash now app at reason)
  show ?thesis unfolding settle(1,2) using assms(3)
    by (subst find_queue_update) (auto simp: settled_row_def unleased_def Let_def lease_label_def)
next
  case (extend hash now app x)
  show ?thesis unfolding extend(1,2) using assms(3)
    by (subst find_queue_update) (auto simp: extended_row_def lease_label_def)
next
  case (retention now)
  show ?thesis unfolding retention(1,2) using assms(3) by (subst find_queue_update) (auto simp: lease_label_def)
qed

lemma queue_trace_attempts:
  assumes "queue_trace q ls rows rows'" and "distinct (map qd_id rows)" and "find_queue rows i = Some d"
  shows "\<exists>d'. find_queue rows' i = Some d' \<and> qd_subscription_id d' = qd_subscription_id d \<and>
    qd_attempts d' = qd_attempts d + int (length (filter (lease_label i) ls))"
  using assms
proof (induction arbitrary: d rule: queue_trace.induct)
  case (nil rows)
  then show ?case by simp
next
  case (cons l rows rows' ls rows'')
  obtain d1 where "find_queue rows' i = Some d1" "qd_subscription_id d1 = qd_subscription_id d"
    "qd_attempts d1 = qd_attempts d + (if lease_label i l then 1 else 0)"
    using queue_update_attempts [OF cons.hyps(1) cons.prems] by blast
  moreover have "distinct (map qd_id rows')" using queue_update_ids [OF cons.hyps(1)] cons.prems(1) by simp
  ultimately show ?case using cons.IH [of d1] by auto
qed

text \<open>How often a sequence of calls leases a delivery.\<close>

fun leases_in :: "(string \<Rightarrow> string) \<Rightarrow> (string \<Rightarrow> string) \<Rightarrow> string \<Rightarrow> queue_cmd \<Rightarrow> db \<Rightarrow> int" where
  "leases_in sha md5 i (PullCmd locked req) s =
     (case fst (PullQueueDeliveries sha md5 locked s req) of
        Inl _ \<Rightarrow> 0 | Inr ms \<Rightarrow> int (length (filter (\<lambda>m. qm_id m = i) ms)))"
| "leases_in sha md5 i _ s = 0"

fun leases_granted :: "(string \<Rightarrow> string) \<Rightarrow> (string \<Rightarrow> string) \<Rightarrow> string \<Rightarrow> queue_cmd list \<Rightarrow> db \<Rightarrow> int" where
  "leases_granted sha md5 i [] s = 0"
| "leases_granted sha md5 i (c # cs) s = leases_in sha md5 i c s + leases_granted sha md5 i cs (exec_queue sha md5 c s)"

lemma exec_queue_attempts:
  assumes "queue_inv s" and row: "find_queue (queue_deliveries s) i = Some d"
  shows "\<exists>d'. find_queue (queue_deliveries (exec_queue sha md5 c s)) i = Some d' \<and>
    qd_subscription_id d' = qd_subscription_id d \<and> qd_attempts d' = qd_attempts d + leases_in sha md5 i c s"
proof -
  have ok: "queue_ok s" and dist: "distinct (map qd_id (queue_deliveries s))"
    using assms(1) by (simp_all add: queue_inv_def queue_ok_def)
  have other: ?thesis if "\<And>l. cmd_label sha c l \<Longrightarrow> \<not> lease_label i l" "leases_in sha md5 i c s = 0"
  proof (cases "queue_deliveries (exec_queue sha md5 c s) = queue_deliveries s")
    case True
    then show ?thesis using row that(2) by simp
  next
    case False
    then obtain q ls where "list_all (cmd_label sha c) ls"
      and tr: "queue_trace q ls (queue_deliveries s) (queue_deliveries (exec_queue sha md5 c s))"
      using exec_queue_trace [OF ok, of sha md5 c] by blast
    then have "filter (lease_label i) ls = []" using that(1) by (auto simp: filter_empty_conv list_all_iff)
    then show ?thesis using queue_trace_attempts [OF tr dist row] that(2) by simp
  qed
  show ?thesis
  proof (cases c)
    case (PullCmd locked req)
    obtain r s' where p: "PullQueueDeliveries sha md5 locked s req = (r, s')" by fastforce
    show ?thesis
    proof (cases rule: Pull_trace [OF ok p, case_names none pulled])
      case none
      then show ?thesis using PullCmd p row by auto
    next
      case (pulled q s2 ms)
      let ?g = "\<lambda>m. LeaseAt (qm_id m) (queueReceiptHash sha (qm_receipt m)) (pq_now req)
        (pq_now req + pull_visibility q (pq_visibility req))"
      have "filter (lease_label i) ([ReclaimAt (pq_now req), RetentionAt (pq_now req)] @ map ?g ms) =
          map ?g (filter (\<lambda>m. qm_id m = i) ms)"
        by (simp add: lease_label_def filter_map o_def)
      then show ?thesis
        using queue_trace_attempts [OF queue_trace_append [OF pulled(4,5)] dist row] PullCmd p pulled(3) by simp
    qed
  next
    case (SettleCmd app sub xs now)
    then show ?thesis by (intro other) (auto simp: lease_label_def)
  next
    case (ExtendCmd app sub xs now)
    then show ?thesis by (intro other) (auto simp: lease_label_def)
  qed
qed

lemma leases_granted_attempts:
  assumes "queue_inv s" and "find_queue (queue_deliveries s) i = Some d"
  shows "\<exists>d'. find_queue (queue_deliveries (exec_queues sha md5 cmds s)) i = Some d' \<and>
    qd_subscription_id d' = qd_subscription_id d \<and> qd_attempts d' = qd_attempts d + leases_granted sha md5 i cmds s"
  using assms
proof (induction cmds arbitrary: s d)
  case Nil
  then show ?case by (simp add: exec_queues_def)
next
  case (Cons c cs)
  obtain d1 where "find_queue (queue_deliveries (exec_queue sha md5 c s)) i = Some d1"
    "qd_subscription_id d1 = qd_subscription_id d" "qd_attempts d1 = qd_attempts d + leases_in sha md5 i c s"
    using exec_queue_attempts [OF Cons.prems] by blast
  then show ?case
    using Cons.IH [OF exec_queue_inv [OF Cons.prems(1), of sha md5 c], of d1] by (auto simp: exec_queues_def)
qed

section \<open>The holder of a receipt\<close>

text \<open>Calls that do not present a receipt with the given hash, and come before the lease ends.\<close>

fun foreign_call :: "(string \<Rightarrow> string) \<Rightarrow> string \<Rightarrow> time \<Rightarrow> queue_cmd \<Rightarrow> bool" where
  "foreign_call sha h expires (PullCmd locked req) =
     (pq_now req < expires \<and> list_all (\<lambda>r. queueReceiptHash sha r \<noteq> h) (pq_receipts req))"
| "foreign_call sha h expires (SettleCmd app sub xs now) = list_all (\<lambda>x. queueReceiptHash sha (ql_receipt x) \<noteq> h) xs"
| "foreign_call sha h expires (ExtendCmd app sub xs now) = list_all (\<lambda>x. queueReceiptHash sha (lx_receipt x) \<noteq> h) xs"

definition foreign_label :: "string \<Rightarrow> time \<Rightarrow> queue_label \<Rightarrow> bool" where
  "foreign_label h expires l =
     (case l of ReclaimAt now \<Rightarrow> now < expires | RetentionAt now \<Rightarrow> True | LeaseAt _ g _ _ \<Rightarrow> g \<noteq> h
      | SettleAt g _ \<Rightarrow> g \<noteq> h | ExtendAt g _ \<Rightarrow> g \<noteq> h)"

text \<open>The row is leased under the hash, and no other row is.\<close>

definition held_receipt :: "string \<Rightarrow> time \<Rightarrow> queue_delivery \<Rightarrow> queue_delivery list \<Rightarrow> bool" where
  "held_receipt h expires d rows \<longleftrightarrow>
     distinct (map qd_id rows) \<and> d \<in> set rows \<and> qd_status d = QInFlight \<and> qd_receipt_hash d = Some h \<and>
     qd_lease_expires_at d = Some expires \<and> list_all (\<lambda>x. qd_receipt_hash x = Some h \<longrightarrow> x = d) rows"

lemma held_sql_update:
  assumes "held_receipt h expires d rows" and "\<not> P d" and "\<And>x. qd_id (f x) = qd_id x"
    and "\<And>x. x \<in> set rows \<Longrightarrow> P x \<Longrightarrow> qd_receipt_hash (f x) \<noteq> Some h"
  shows "held_receipt h expires d (sql_update P f rows)"
proof -
  have "map qd_id (sql_update P f rows) = map qd_id rows" using assms(3) by (intro map_key_sql_update)
  then show ?thesis using assms by (auto simp: held_receipt_def list_all_iff set_sql_update)
qed

lemma held_update:
  assumes "queue_update q l rows rows'" and "foreign_label h expires l" and held: "held_receipt h expires d rows"
  shows "held_receipt h expires d rows'"
proof -
  have d: "d \<in> set rows" "qd_status d = QInFlight" "qd_receipt_hash d = Some h" "qd_lease_expires_at d = Some expires"
    and dist: "distinct (map qd_id rows)" and uniq: "\<And>x. x \<in> set rows \<Longrightarrow> qd_receipt_hash x = Some h \<Longrightarrow> x = d"
    using held by (auto simp: held_receipt_def list_all_iff)
  from assms(1) show ?thesis
  proof cases
    case (lease c now e m hash)
    have "qd_id d \<noteq> qd_id c"
      using distinct_key_unique [OF dist d(1) lease(3)] lease(4) d(2) by (auto simp: pullable_def)
    then show ?thesis unfolding lease(2) using assms(2) lease(1)
      by (intro held_sql_update [OF held]) (auto simp: leased_row_of_def foreign_label_def)
  next
    case (reclaim now)
    show ?thesis unfolding reclaim(2) using assms(2) reclaim(1) d
      by (intro held_sql_update [OF held]) (auto simp: reclaimed_row_def unleased_def expired_lease_def foreign_label_def)
  next
    case (settle st hash now app at reason)
    show ?thesis unfolding settle(2) using assms(2) settle(1) d
      by (intro held_sql_update [OF held]) (auto simp: settled_row_def unleased_def holds_receipt_def foreign_label_def Let_def)
  next
    case (extend hash now app x)
    show ?thesis unfolding extend(2) using assms(2) extend(1) d
      by (intro held_sql_update [OF held]) (auto simp: extended_row_def holds_receipt_def foreign_label_def)
  next
    case (retention now)
    show ?thesis unfolding retention(2) using d
      by (intro held_sql_update [OF held]) (auto dest: uniq)
  qed
qed

lemma lease_all_receipts:
  "lease_all sha q vis now cs receipts s = Inr (ms, s') \<Longrightarrow> map qm_receipt ms = take (length ms) receipts"
proof (induction cs receipts arbitrary: s ms s' rule: list_induct2')
  case (4 c cs r rs)
  then show ?case
    by (cases c) (auto simp: Let_def leased_message_def split: option.splits sum.splits)
qed simp_all

lemma Pull_receipts:
  "PullQueueDeliveries sha md5 locked s req = (Inr ms, s') \<Longrightarrow> map qm_receipt ms = take (length ms) (pq_receipts req)"
  by (auto simp: PullQueueDeliveries_def Let_def split: sum.splits if_splits option.splits prod.splits
      dest!: lease_all_receipts)

lemma held_exec:
  assumes ok: "queue_ok s" and held: "held_receipt h expires d (queue_deliveries s)" and c: "foreign_call sha h expires c"
  shows "held_receipt h expires d (queue_deliveries (exec_queue sha md5 c s))"
proof -
  have trace: "held_receipt h expires d rows'"
    if "queue_trace q ls (queue_deliveries s) rows'" "list_all (foreign_label h expires) ls" for q ls rows'
    by (rule queue_trace_inv [where I = "held_receipt h expires d" and L = "foreign_label h expires", OF that(1) held that(2)])
       (auto intro: held_update)
  show ?thesis
  proof (cases c)
    case (PullCmd locked req)
    obtain r s' where p: "PullQueueDeliveries sha md5 locked s req = (r, s')" by fastforce
    show ?thesis
    proof (cases rule: Pull_trace [OF ok p, case_names none pulled])
      case none
      then show ?thesis using PullCmd p held by simp
    next
      case (pulled q s2 ms)
      have "set (map qm_receipt ms) \<subseteq> set (pq_receipts req)"
        using Pull_receipts [of sha md5 locked s req ms s'] p pulled(3) set_take_subset by metis
      then have "list_all (foreign_label h expires) ([ReclaimAt (pq_now req), RetentionAt (pq_now req)] @
          map (\<lambda>m. LeaseAt (qm_id m) (queueReceiptHash sha (qm_receipt m)) (pq_now req)
             (pq_now req + pull_visibility q (pq_visibility req))) ms)"
        using c PullCmd by (auto simp: foreign_label_def list_all_iff)
      then show ?thesis using trace [OF queue_trace_append [OF pulled(4,5)]] PullCmd p by simp
    qed
  next
    case (SettleCmd app sub xs now)
    then have "cmd_label sha c l \<Longrightarrow> foreign_label h expires l" for l
      using c by (auto simp: foreign_label_def list_all_iff)
    then show ?thesis using exec_queue_trace [OF ok, of sha md5 c] trace held by (metis list_all_iff)
  next
    case (ExtendCmd app sub xs now)
    then have "cmd_label sha c l \<Longrightarrow> foreign_label h expires l" for l
      using c by (auto simp: foreign_label_def list_all_iff)
    then show ?thesis using exec_queue_trace [OF ok, of sha md5 c] trace held by (metis list_all_iff)
  qed
qed

lemma held_execs:
  assumes "queue_inv s" and "held_receipt h expires d (queue_deliveries s)" and "list_all (foreign_call sha h expires) cmds"
  shows "held_receipt h expires d (queue_deliveries (exec_queues sha md5 cmds s)) \<and>
    queue_subscriptions (exec_queues sha md5 cmds s) = queue_subscriptions s"
  using assms
proof (induction cmds arbitrary: s)
  case Nil
  then show ?case by (simp add: exec_queues_def)
next
  case (Cons c cs)
  have ok: "queue_ok s" using Cons.prems(1) by (simp add: queue_inv_def)
  have "queue_subscriptions (exec_queue sha md5 c s) = queue_subscriptions s" using exec_queue_trace [OF ok] by blast
  then show ?case
    using Cons.IH [OF exec_queue_inv [OF Cons.prems(1), of sha md5 c] held_exec [OF ok Cons.prems(2), of sha c md5]] Cons.prems(3)
    by (simp add: exec_queues_def)
qed

text \<open>A lease that a call has granted.\<close>

lemma lease_trace_held:
  assumes "queue_trace q (map (\<lambda>m. LeaseAt (qm_id m) (queueReceiptHash sha (qm_receipt m)) now e) ms) rows rows'"
    and "distinct (map qd_id rows)" and "m \<in> set ms" and "distinct (map (\<lambda>m. queueReceiptHash sha (qm_receipt m)) ms)"
    and "\<And>x. x \<in> set rows \<Longrightarrow> qd_receipt_hash x \<noteq> Some (queueReceiptHash sha (qm_receipt m))"
  shows "\<exists>d. held_receipt (queueReceiptHash sha (qm_receipt m)) e d rows' \<and> qd_id d = qm_id m \<and>
    qd_subscription_id d = qs_id q"
  using assms
proof (induction ms arbitrary: rows)
  case (Cons x ms)
  let ?h = "queueReceiptHash sha (qm_receipt m)"
  from Cons.prems(1) obtain rows1 where u: "queue_update q (LeaseAt (qm_id x) (queueReceiptHash sha (qm_receipt x)) now e) rows rows1"
    and t: "queue_trace q (map (\<lambda>m. LeaseAt (qm_id m) (queueReceiptHash sha (qm_receipt m)) now e) ms) rows1 rows'"
    by (auto simp: queue_trace_Cons)
  have dist1: "distinct (map qd_id rows1)" using queue_update_ids [OF u] Cons.prems(2) by simp
  from u obtain c mx where c: "c \<in> set rows" "pullable q now rows c" "qd_id c = qm_id x"
    and rows1: "rows1 = sql_update (\<lambda>y. qd_id y = qd_id c) (leased_row_of (queueReceiptHash sha (qm_receipt x)) now e mx (qd_attempts c + 1)) rows"
    by (auto elim: queue_update.cases)
  show ?case
  proof (cases "m = x")
    case True
    define d where "d = leased_row_of ?h now e mx (qd_attempts c + 1) c"
    have d: "qd_status d = QInFlight" "qd_receipt_hash d = Some ?h" "qd_lease_expires_at d = Some e"
      "qd_id d = qm_id m" "qd_subscription_id d = qs_id q"
      using c True by (simp_all add: d_def leased_row_of_def pullable_def)
    have one: "y = c" if "y \<in> set rows" "qd_id y = qd_id c" for y
      using distinct_key_unique [OF Cons.prems(2) that(1) c(1) that(2)] .
    have "\<forall>y \<in> set rows1. qd_receipt_hash y = Some ?h \<longrightarrow> y = d"
      using one Cons.prems(5) unfolding rows1 True d_def by (auto simp: set_sql_update)
    moreover have "d \<in> set rows1" using c(1) unfolding rows1 True d_def by (auto simp: set_sql_update)
    ultimately have h1: "held_receipt ?h e d rows1"
      unfolding held_receipt_def list_all_iff using dist1 d(1-3) by blast
    have "list_all (foreign_label ?h e) (map (\<lambda>m. LeaseAt (qm_id m) (queueReceiptHash sha (qm_receipt m)) now e) ms)"
      using Cons.prems(4) True by (auto simp: list_all_iff foreign_label_def image_iff)
    then have "held_receipt ?h e d rows'"
      by (rule queue_trace_inv [where I = "held_receipt ?h e d" and L = "foreign_label ?h e", OF t h1]) (rule held_update)
    then show ?thesis using d by blast
  next
    case False
    then have m: "m \<in> set ms" using Cons.prems(3) by simp
    then have "queueReceiptHash sha (qm_receipt x) \<noteq> ?h" using Cons.prems(4) by (auto simp: image_iff)
    then have "qd_receipt_hash y \<noteq> Some ?h" if "y \<in> set rows1" for y
      using that Cons.prems(5) unfolding rows1 by (auto simp: set_sql_update leased_row_of_def)
    from Cons.IH [OF t dist1 m _ this] Cons.prems(4) show ?thesis by simp
  qed
qed simp

lemma lease_all_expires: "lease_all sha q vis now cs receipts s = Inr (ms, s') \<Longrightarrow> m \<in> set ms \<Longrightarrow> qm_lease_expires_at m = now + vis"
proof (induction cs receipts arbitrary: s ms s' rule: list_induct2')
  case (4 c cs r rs)
  then show ?case
    by (cases c) (auto simp: Let_def leased_message_def split: option.splits sum.splits)
qed simp_all

lemma Pull_expires:
  "PullQueueDeliveries sha md5 locked s req = (Inr ms, s') \<Longrightarrow>
   GetQueueSubscription s (pq_app_id req) (pq_subscription_id req) = Inr q \<Longrightarrow> m \<in> set ms \<Longrightarrow>
   qm_lease_expires_at m = pq_now req + pull_visibility q (pq_visibility req)"
  by (auto simp: PullQueueDeliveries_def Let_def split: if_splits option.splits sum.splits prod.splits
      dest: lease_all_expires)

text \<open>Reclaiming and the retention give no row a receipt, and no update changes whose row it is.\<close>

lemma queue_update_owner:
  "queue_update q l rows rows' \<Longrightarrow> map (\<lambda>d. (qd_subscription_id d, qd_app_id d)) rows' = map (\<lambda>d. (qd_subscription_id d, qd_app_id d)) rows"
  by (erule queue_update.cases)
     (auto simp: sql_update_def reclaimed_row_def unleased_def leased_row_of_def settled_row_def extended_row_def Let_def)

lemma queue_trace_owner:
  "queue_trace q ls rows rows' \<Longrightarrow> map (\<lambda>d. (qd_subscription_id d, qd_app_id d)) rows' = map (\<lambda>d. (qd_subscription_id d, qd_app_id d)) rows"
  by (induction rule: queue_trace.induct) (auto dest: queue_update_owner)

lemma sweep_receipts:
  assumes "queue_trace q [ReclaimAt now, RetentionAt now] rows rows'" and "\<forall>x \<in> set rows. qd_receipt_hash x \<noteq> Some h"
  shows "\<forall>x \<in> set rows'. qd_receipt_hash x \<noteq> Some h"
  using assms by (auto simp: queue_trace_Cons set_sql_update reclaimed_row_def unleased_def elim!: queue_update.cases)

lemma Pull_held:
  assumes "queue_ok s" and "PullQueueDeliveries sha md5 locked s req = (Inr ms, s')" and "m \<in> set ms"
    and "distinct (map (\<lambda>m. queueReceiptHash sha (qm_receipt m)) ms)"
    and "list_all (\<lambda>d. qd_receipt_hash d \<noteq> Some (queueReceiptHash sha (qm_receipt m))) (queue_deliveries s)"
    and "list_all (\<lambda>d. qd_subscription_id d = pq_subscription_id req \<longrightarrow> qd_app_id d = pq_app_id req) (queue_deliveries s)"
  shows "\<exists>q d. GetQueueSubscription s (pq_app_id req) (pq_subscription_id req) = Inr q \<and>
    queue_subscriptions s' = queue_subscriptions s \<and>
    held_receipt (queueReceiptHash sha (qm_receipt m)) (qm_lease_expires_at m) d (queue_deliveries s') \<and>
    qd_id d = qm_id m \<and> qd_subscription_id d = qs_id q \<and> qd_app_id d = pq_app_id req"
proof (cases rule: Pull_trace [OF assms(1,2), case_names none pulled])
  case none
  then show ?thesis using assms(3) by auto
next
  case (pulled q s2 ms')
  have ms: "ms' = ms" using pulled(3) by simp
  have e: "qm_lease_expires_at m = pq_now req + pull_visibility q (pq_visibility req)"
    using Pull_expires [OF assms(2) pulled(1) assms(3)] .
  have dist: "distinct (map qd_id (queue_deliveries s2))"
    using pulled(4) assms(1) queue_update_ids by (auto simp: queue_trace_Cons queue_ok_def)
  have "\<forall>x \<in> set (queue_deliveries s2). qd_receipt_hash x \<noteq> Some (queueReceiptHash sha (qm_receipt m))"
    using sweep_receipts [OF pulled(4)] assms(5) by (simp add: list_all_iff)
  then obtain d where d: "held_receipt (queueReceiptHash sha (qm_receipt m)) (qm_lease_expires_at m) d (queue_deliveries s')"
    "qd_id d = qm_id m" "qd_subscription_id d = qs_id q"
    using lease_trace_held [OF pulled(5) [unfolded ms] dist assms(3,4)] e by auto
  have "(qd_subscription_id d, qd_app_id d) \<in> set (map (\<lambda>d. (qd_subscription_id d, qd_app_id d)) (queue_deliveries s'))"
    using d(1) by (auto simp: held_receipt_def)
  then have "(qd_subscription_id d, qd_app_id d) \<in> set (map (\<lambda>d. (qd_subscription_id d, qd_app_id d)) (queue_deliveries s))"
    using queue_trace_owner [OF queue_trace_append [OF pulled(4,5)]] by simp
  then have "qd_app_id d = pq_app_id req"
    using assms(6) d(3) GetQueueSubscription_row [OF pulled(1)] by (auto simp: list_all_iff)
  then show ?thesis using pulled(1,6) d by blast
qed

section \<open>Limits of a pull\<close>

lemma queue_update_in_flight:
  assumes "queue_update q (LeaseAt i h now e) rows rows'" and "distinct (map qd_id rows)"
  shows "sql_count (in_flight j) rows' \<le> sql_count (in_flight j) rows + 1"
  using assms(1)
proof cases
  case (lease d m)
  let ?f = "leased_row_of h now e m (qd_attempts d + 1)"
  have "sql_count (in_flight j) rows' \<le> sql_count (\<lambda>x. in_flight j x \<or> qd_id x = qd_id d) rows"
    unfolding lease(2) sql_count_def sql_update_def by (induction rows) (auto simp: in_flight_def leased_row_of_def)
  also have "\<dots> \<le> sql_count (in_flight j) rows + sql_count (\<lambda>x. qd_id x = qd_id d) rows"
    unfolding sql_count_def by (induction rows) auto
  also have "sql_count (\<lambda>x. qd_id x = qd_id d) rows \<le> 1" using assms(2) by (rule sql_count_key_le1) simp
  finally show ?thesis by simp
qed

lemma lease_trace_in_flight:
  assumes "queue_trace q (map (\<lambda>m. LeaseAt (f m) (g m) now e) ms) rows rows'" and "distinct (map qd_id rows)"
  shows "sql_count (in_flight j) rows' \<le> sql_count (in_flight j) rows + length ms \<and>
    map (\<lambda>d. (qd_id d, qd_subscription_id d)) rows' = map (\<lambda>d. (qd_id d, qd_subscription_id d)) rows"
  using assms
proof (induction ms arbitrary: rows)
  case (Cons m ms)
  from Cons.prems(1) obtain rows1 where u: "queue_update q (LeaseAt (f m) (g m) now e) rows rows1"
    and t: "queue_trace q (map (\<lambda>m. LeaseAt (f m) (g m) now e) ms) rows1 rows'" by (auto simp: queue_trace_Cons)
  have "map (\<lambda>d. (qd_id d, qd_subscription_id d)) rows1 = map (\<lambda>d. (qd_id d, qd_subscription_id d)) rows"
    using u by (auto elim!: queue_update.cases simp: sql_update_def leased_row_of_def)
  moreover have "distinct (map qd_id rows1)" using queue_update_ids [OF u] Cons.prems(2) by simp
  ultimately show ?case using Cons.IH [OF t] queue_update_in_flight [OF u Cons.prems(2), of j] by simp
qed simp

lemma recently_dispatched_le:
  assumes "queue_attempts s' = queue_attempts s @ new"
    and "map (\<lambda>d. (qd_id d, qd_subscription_id d)) (queue_deliveries s') = map (\<lambda>d. (qd_id d, qd_subscription_id d)) (queue_deliveries s)"
  shows "recently_dispatched i now s' \<le> recently_dispatched i now s + length new"
proof -
  have E: "sql_exists (\<lambda>d. qd_id d = a \<and> qd_subscription_id d = i) (queue_deliveries x) \<longleftrightarrow>
      (a, i) \<in> set (map (\<lambda>d. (qd_id d, qd_subscription_id d)) (queue_deliveries x))" for a x
    by (auto simp: image_iff)
  have P: "(\<lambda>a. qa_outcome a = ''leased'' \<and> qa_occurred_at a > now - second \<and>
        sql_exists (\<lambda>d. qd_id d = qa_delivery_id a \<and> qd_subscription_id d = i) (queue_deliveries s')) =
      (\<lambda>a. qa_outcome a = ''leased'' \<and> qa_occurred_at a > now - second \<and>
        sql_exists (\<lambda>d. qd_id d = qa_delivery_id a \<and> qd_subscription_id d = i) (queue_deliveries s))"
    unfolding E assms(2) by (rule refl)
  show ?thesis
    unfolding recently_dispatched_def assms(1) sql_count_def P by (simp only: filter_append length_append add_le_cancel_left length_filter_le)
qed

section \<open>A database for the witnesses\<close>

definition example_subscription :: queue_subscription where
  "example_subscription =
     \<lparr>qs_id = ''q'', qs_app_id = ''b'', qs_name = ''Q'', qs_enabled = True, qs_paused_at = None, qs_draining_at = None,
      qs_drain_deadline_at = None, qs_drained_at = None, qs_event_types = [], qs_max_attempts = 2,
      qs_default_visibility_seconds = 60, qs_max_visibility_seconds = 300, qs_max_total_lease_seconds = 3600,
      qs_retention_seconds = 604800, qs_max_in_flight = 2, qs_max_batch_size = 20, qs_retry_delay_seconds = 5,
      qs_ordering_mode = ''key'', qs_deduplication_seconds = 0, qs_max_dispatch_rate = Some 10,
      qs_success_callback_url = None, qs_failure_callback_url = None, qs_result_callback_metadata = ''{}'',
      qs_policy_version = 1, qs_created_at = 0, qs_updated_at = 0\<rparr>"

definition example_queue_delivery :: "string \<Rightarrow> time \<Rightarrow> queue_delivery" where
  "example_queue_delivery i created =
     \<lparr>qd_id = i, qd_subscription_id = ''q'', qd_app_id = ''b'', qd_event_id = ''e'', qd_generation = 1,
      qd_status = QAvailable, qd_attempts = 0, qd_available_at = 0, qd_receipt_hash = None, qd_lease_started_at = None,
      qd_lease_expires_at = None, qd_lease_max_expires_at = None, qd_ordering_key = Some ''k'', qd_priority = 0,
      qd_metadata = ''{}'', qd_last_reason = None, qd_created_at = created, qd_updated_at = 0,
      qd_expires_at = 604800 * second\<rparr>"

definition queue_db :: db where
  "queue_db = empty_db\<lparr>
     events := [\<lparr>ev_id = ''e'', ev_type = ''t'', ev_source_app_id = ''a'', ev_target_app_ids = [''b''], ev_data = ''{}'',
       ev_created_at = 0, ev_expires_at = 3600 * second, ev_queue_available_at = None, ev_queue_ordering_key = None,
       ev_queue_priority = 0, ev_queue_metadata = ''{}''\<rparr>],
     queue_subscriptions := [example_subscription],
     queue_deliveries := [example_queue_delivery ''d1'' 1, example_queue_delivery ''d2'' 2]\<rparr>"

definition example_pull :: "time \<Rightarrow> string \<Rightarrow> queue_pull_request" where
  "example_pull now receipt = \<lparr>pq_app_id = ''b'', pq_subscription_id = ''q'', pq_limit = 10, pq_visibility = 0,
     pq_now = now, pq_receipts = [receipt, receipt @ ''x'']\<rparr>"

section \<open>Properties\<close>

text \<open>
  C15.  Whatever calls to pull, settle and extend are made by whom and when, the delivery table keeps its
  constraints: a delivery is in flight exactly when it has a receipt and a lease, no lease outlives the bound
  fixed when it was granted, and no delivery has more attempts than its subscription allows.
\<close>

theorem queue_constraints_kept:
  assumes "queue_inv s" and "d \<in> set (queue_deliveries (exec_queues sha md5 cmds s))"
    and "q \<in> set (queue_subscriptions (exec_queues sha md5 cmds s))" and "qs_id q = qd_subscription_id d"
  shows "(qd_status d = QInFlight \<longleftrightarrow> qd_receipt_hash d \<noteq> None) \<and>
    (qd_status d = QInFlight \<longleftrightarrow> qd_lease_expires_at d \<noteq> None) \<and>
    (\<forall>e m. qd_lease_expires_at d = Some e \<and> qd_lease_max_expires_at d = Some m \<longrightarrow> e \<le> m) \<and>
    0 \<le> qd_attempts d \<and> qd_attempts d \<le> qs_max_attempts q"
proof -
  have inv: "queue_inv (exec_queues sha md5 cmds s)" using queue_calls.run_inv [OF exec_queues_steps assms(1)] .
  then have "queue_row_wf d" "attempts_bounded (queue_subscriptions (exec_queues sha md5 cmds s)) d"
    using assms(2) by (auto simp: queue_inv_def list_all_iff)
  then show ?thesis using assms(3,4) by (auto simp: queue_row_wf_def queue_row_check_def attempts_bounded_def list_all_iff)
qed

theorem queue_constraints_kept_witness:
  "let s = exec_queues id id [PullCmd {} (example_pull 0 ''r''), PullCmd {} (example_pull (90 * second) ''s'')] queue_db in
   \<exists>d \<in> set (queue_deliveries s). qd_status d = QInFlight \<and> qd_attempts d = 2 \<and> qd_attempts d \<le> qs_max_attempts example_subscription"
proof -
  let ?s = "exec_queues id id [PullCmd {} (example_pull 0 ''r''), PullCmd {} (example_pull (90 * second) ''s'')] queue_db"
  have inv: "queue_inv queue_db" by code_simp
  have "sql_exists (\<lambda>d. qd_status d = QInFlight \<and> qd_attempts d = 2 \<and> qd_subscription_id d = qs_id example_subscription) (queue_deliveries ?s)"
    "example_subscription \<in> set (queue_subscriptions ?s)" by code_simp+
  then obtain d where d: "d \<in> set (queue_deliveries ?s)" "qd_status d = QInFlight" "qd_attempts d = 2"
    "qs_id example_subscription = qd_subscription_id d" by auto
  from queue_constraints_kept [OF inv d(1) \<open>example_subscription \<in> _\<close> d(4)] d show ?thesis by (auto simp: Let_def)
qed



text \<open>
  C16.  The limits of a subscription.  A pull hands out at most as many deliveries as were asked for and as the
  batch size allows; after a pull that handed out any, no more deliveries are in flight than the subscription
  admits, and no more were leased within the last second than its dispatch rate.
\<close>

theorem pull_within_limits:
  assumes "queue_ok s" and "GetQueueSubscription s (pq_app_id req) (pq_subscription_id req) = Inr q"
    and "PullQueueDeliveries sha md5 locked s req = (Inr ms, s')" and "ms \<noteq> []"
  shows "int (length ms) \<le> pq_limit req \<and> int (length ms) \<le> qs_max_batch_size q \<and>
    int (sql_count (in_flight (qs_id q)) (queue_deliveries s')) \<le> qs_max_in_flight q \<and>
    (\<forall>rate. qs_max_dispatch_rate q = Some rate \<longrightarrow> int (recently_dispatched (qs_id q) (pq_now req) s') \<le> rate)"
proof -
  let ?now = "pq_now req"
  show ?thesis
  proof (cases rule: Pull_trace [OF assms(1,3), case_names none pulled])
    case none
    then show ?thesis using assms(4) by simp
  next
    case (pulled q' s2 ms')
    have q: "q' = q" "ms' = ms" using pulled(1,3) assms(2) by simp_all
    obtain n where n: "pull_limit q (pq_limit req) ?now s2 = Some n" "length ms \<le> nat n" using pulled(8) assms(4) q by auto
    have pos: "0 < n" using n(2) assms(4) by (cases "0 < n") auto
    have dist: "distinct (map qd_id (queue_deliveries s2))"
      using pulled(4) assms(1) queue_update_ids by (auto simp: queue_trace_Cons queue_ok_def)
    note fl = lease_trace_in_flight [OF pulled(5) dist, unfolded q, of "qs_id q"]
    obtain new where new: "queue_attempts s' = queue_attempts s2 @ new" "length new = length ms" using pulled(10) q by auto
    note rd = recently_dispatched_le [OF new(1), of "qs_id q" ?now]
    have len: "int (length ms) \<le> n" using n(2) pos by linarith
    have lim: "n \<le> pq_limit req" "n \<le> qs_max_batch_size q"
      "n \<le> qs_max_in_flight q - int (sql_count (in_flight (qs_id q)) (queue_deliveries s2))"
      "\<And>rate. qs_max_dispatch_rate q = Some rate \<Longrightarrow> n \<le> rate - int (recently_dispatched (qs_id q) ?now s2)"
      using n(1) by (auto simp: pull_limit_def Let_def split: if_splits option.splits)
    show ?thesis using len lim fl rd new(2) by fastforce
  qed
qed

theorem pull_within_limits_witness:
  "let r = PullQueueDeliveries id id {} queue_db (example_pull 0 ''r'') in
   \<exists>ms. fst r = Inr ms \<and> length ms = 1 \<and> int (sql_count (in_flight ''q'') (queue_deliveries (snd r))) \<le> 2"
proof -
  let ?r = "PullQueueDeliveries id id {} queue_db (example_pull 0 ''r'')"
  have ok: "queue_ok queue_db" by code_simp
  have "(case fst ?r of Inr ms \<Rightarrow> length ms = 1 | Inl _ \<Rightarrow> False)" by code_simp
  then obtain ms where ms: "?r = (Inr ms, snd ?r)" "length ms = 1" by (cases ?r) (auto split: sum.splits)
  have "GetQueueSubscription queue_db (pq_app_id (example_pull 0 ''r'')) (pq_subscription_id (example_pull 0 ''r'')) = Inr example_subscription"
    by code_simp
  moreover have "ms \<noteq> []" using ms(2) by auto
  ultimately have "int (sql_count (in_flight ''q'') (queue_deliveries (snd ?r))) \<le> 2"
    using pull_within_limits [OF ok _ ms(1)] by (simp add: example_subscription_def)
  moreover have "fst ?r = Inr ms" using ms(1) by (metis fst_conv)
  ultimately show ?thesis using ms(2) by (simp add: Let_def)
qed



text \<open>
  C8.  A consumer that has pulled a delivery keeps it until its lease ends.  Whatever pulls, settlements and
  extensions other consumers interleave with other receipts, the delivery stays in flight under the receipt,
  and an extension that the holder asks for before the lease ends is granted.
\<close>

theorem receipt_holder_keeps_lease:
  assumes "queue_inv s" and "PullQueueDeliveries sha md5 locked s req = (Inr ms, s')" and "m \<in> set ms"
    and "distinct (map (\<lambda>m. queueReceiptHash sha (qm_receipt m)) ms)"
    and "list_all (\<lambda>d. qd_receipt_hash d \<noteq> Some (queueReceiptHash sha (qm_receipt m))) (queue_deliveries s)"
    and "list_all (\<lambda>d. qd_subscription_id d = pq_subscription_id req \<longrightarrow> qd_app_id d = pq_app_id req) (queue_deliveries s)"
    and "list_all (foreign_call sha (queueReceiptHash sha (qm_receipt m)) (qm_lease_expires_at m)) cmds"
    and "now < qm_lease_expires_at m"
  shows "\<exists>d t. find_queue (queue_deliveries (exec_queues sha md5 cmds s')) (qm_id m) = Some d \<and> qd_status d = QInFlight \<and>
    ExtendQueueLeases sha (exec_queues sha md5 cmds s') (pq_app_id req) (pq_subscription_id req)
      [\<lparr>lx_receipt = qm_receipt m, lx_extension = x\<rparr>] now = (Inr [\<lparr>sr_receipt = qm_receipt m, sr_status = ''extended''\<rparr>], t)"
proof -
  let ?h = "queueReceiptHash sha (qm_receipt m)" and ?e = "qm_lease_expires_at m" and ?t = "exec_queues sha md5 cmds s'"
  have ok: "queue_ok s" using assms(1) by (simp add: queue_inv_def)
  have inv': "queue_inv s'" using exec_queue_inv [OF assms(1), of sha md5 "PullCmd locked req"] assms(2) by simp
  obtain q d where q: "GetQueueSubscription s (pq_app_id req) (pq_subscription_id req) = Inr q"
    and subs: "queue_subscriptions s' = queue_subscriptions s"
    and held: "held_receipt ?h ?e d (queue_deliveries s')" and d: "qd_id d = qm_id m" "qd_subscription_id d = qs_id q"
    "qd_app_id d = pq_app_id req"
    using Pull_held [OF ok assms(2-6)] by blast
  have t: "held_receipt ?h ?e d (queue_deliveries ?t)" "queue_subscriptions ?t = queue_subscriptions s'"
    using held_execs [OF inv' held assms(7)] by blast+
  then have dist: "distinct (map qd_id (queue_deliveries ?t))" and in_t: "d \<in> set (queue_deliveries ?t)"
    and uniq: "\<forall>y \<in> set (queue_deliveries ?t). qd_receipt_hash y = Some ?h \<longrightarrow> y = d"
    and row: "qd_status d = QInFlight" "qd_receipt_hash d = Some ?h" "qd_lease_expires_at d = Some ?e"
    by (auto simp: held_receipt_def list_all_iff)
  have qr: "qs_id q = pq_subscription_id req" using GetQueueSubscription_row [OF q] by simp
  let ?P = "holds_receipt (pq_subscription_id req) (pq_app_id req) ?h now"
  have Pd: "?P d" using row d qr assms(8) by (simp add: holds_receipt_def)
  have "?P y \<longleftrightarrow> qd_id y = qd_id d" if "y \<in> set (queue_deliveries ?t)" for y
  proof
    assume "?P y"
    then have "qd_receipt_hash y = Some ?h" by (simp add: holds_receipt_def)
    then show "qd_id y = qd_id d" using uniq that by blast
  next
    assume "qd_id y = qd_id d"
    then have "y = d" using distinct_key_unique [OF dist that in_t] by blast
    then show "?P y" using Pd by simp
  qed
  then have "filter ?P (queue_deliveries ?t) = filter (\<lambda>y. qd_id y = qd_id d) (queue_deliveries ?t)" by (rule filter_cong [OF refl])
  moreover have "sql_count (\<lambda>y. qd_id y = qd_id d) (queue_deliveries ?t) = 1"
    using dist in_t by (rule sql_count_key_1) simp_all
  ultimately have "sql_count ?P (queue_deliveries ?t) = 1" by (simp add: sql_count_def)
  moreover have "GetQueueSubscription ?t (pq_app_id req) (pq_subscription_id req) = Inr q"
    using q t(2) subs by (simp add: GetQueueSubscription_def)
  moreover have "find_queue (queue_deliveries ?t) (qm_id m) = Some d" using dist in_t d(1) by (rule find_queueI)
  ultimately show ?thesis using row(1) by (simp add: ExtendQueueLeases_def)
qed

theorem receipt_holder_keeps_lease_witness:
  "let s' = snd (PullQueueDeliveries id id {} queue_db (example_pull 0 ''r''));
       cmds = [PullCmd {} (example_pull (30 * second) ''s''),
               SettleCmd ''b'' ''q'' [\<lparr>ql_receipt = ''s'', ql_disposition = ''ack'', ql_delay = 0, ql_reason = []\<rparr>] (40 * second)] in
   \<exists>d t. find_queue (queue_deliveries (exec_queues id id cmds s')) ''d1'' = Some d \<and> qd_status d = QInFlight \<and>
     ExtendQueueLeases id (exec_queues id id cmds s') ''b'' ''q'' [\<lparr>lx_receipt = ''r'', lx_extension = 30 * second\<rparr>] (50 * second) =
       (Inr [\<lparr>sr_receipt = ''r'', sr_status = ''extended''\<rparr>], t)"
proof -
  let ?p = "PullQueueDeliveries id id {} queue_db (example_pull 0 ''r'')"
  let ?cmds = "[PullCmd {} (example_pull (30 * second) ''s''),
     SettleCmd ''b'' ''q'' [\<lparr>ql_receipt = ''s'', ql_disposition = ''ack'', ql_delay = 0, ql_reason = []\<rparr>] (40 * second)]"
  have inv: "queue_inv queue_db" by code_simp
  have "(case fst ?p of Inr ms \<Rightarrow> map qm_id ms = [''d1''] \<and> map qm_receipt ms = [''r''] \<and> map qm_lease_expires_at ms = [60 * second]
     | Inl _ \<Rightarrow> False)" by code_simp
  then obtain m where p: "?p = (Inr [m], snd ?p)" and m: "qm_id m = ''d1''" "qm_receipt m = ''r''" "qm_lease_expires_at m = 60 * second"
    by (cases ?p) (auto split: sum.splits)
  have c: "list_all (\<lambda>d. qd_receipt_hash d \<noteq> Some (queueReceiptHash id ''r'')) (queue_deliveries queue_db)"
    "list_all (\<lambda>d. qd_subscription_id d = pq_subscription_id (example_pull 0 ''r'') \<longrightarrow> qd_app_id d = pq_app_id (example_pull 0 ''r'')) (queue_deliveries queue_db)"
    "list_all (foreign_call id (queueReceiptHash id ''r'') (60 * second)) ?cmds" "pq_app_id (example_pull 0 ''r'') = ''b''"
    "pq_subscription_id (example_pull 0 ''r'') = ''q''"
    by code_simp+
  from receipt_holder_keeps_lease [OF inv p, of m ?cmds "50 * second" "30 * second"] m c show ?thesis
    by (simp add: Let_def)
qed

section \<open>Settled deliveries, drains and replays\<close>

inductive queue_store_step :: "(string \<Rightarrow> string) \<Rightarrow> (string \<Rightarrow> string) \<Rightarrow> db \<Rightarrow> db \<Rightarrow> bool" for sha md5 where
  call: "queue_store_step sha md5 s (exec_queue sha md5 c s)"
| replay: "queue_store_step sha md5 s (snd (ReplayQueueDeadLetters s app sub ids now))"
| discard: "queue_store_step sha md5 s (snd (DeleteQueueDeadLetters s app sub ids))"
| begin_drain: "queue_store_step sha md5 s (snd (BeginQueueDrain s app sub now deadline))"
| drain_status: "queue_store_step sha md5 s (snd (GetQueueDrain s app sub now))"

definition queue_wf :: "db \<Rightarrow> bool" where
  "queue_wf s \<longleftrightarrow> queue_ok s \<and> list_all queue_row_wf (queue_deliveries s)"

lemma queue_wf_call: "queue_wf s \<Longrightarrow> queue_wf (exec_queue sha md5 c s)"
proof -
  assume wf: "queue_wf s"
  then have ok: "queue_ok s" by (simp add: queue_wf_def)
  let ?I = "\<lambda>rows. distinct (map qd_id rows) \<and> list_all queue_row_wf rows"
  note tr = exec_queue_trace [OF ok, of sha md5 c]
  have I: "?I (queue_deliveries s)" using wf by (simp add: queue_wf_def queue_ok_def)
  have "?I (queue_deliveries (exec_queue sha md5 c s))"
  proof (cases "queue_deliveries (exec_queue sha md5 c s) = queue_deliveries s")
    case True
    then show ?thesis using I by simp
  next
    case False
    then obtain q ls where "queue_trace q ls (queue_deliveries s) (queue_deliveries (exec_queue sha md5 c s))" using tr by blast
    then show ?thesis
      by (rule queue_trace_inv [where I = ?I and L = "\<lambda>_. True"])
         (use I in \<open>auto simp: list_all_iff queue_update_ids dest: queue_update_wf [unfolded list_all_iff, rule_format]\<close>)
  qed
  then show ?thesis using tr wf by (auto simp: queue_wf_def queue_ok_def list_all_iff queue_row_wf_def)
qed

lemma replayed_row_wf: "queue_row_wf d \<Longrightarrow> queue_row_wf (replayed_row now d)"
  by (simp add: queue_row_wf_def queue_row_check_def replayed_row_def unleased_def)

lemma checked_subscriptions:
  assumes "sql_update_checked subscription_check P f rows = Some rows'" and "list_all subscription_check rows"
    and "\<And>x. qs_id (f x) = qs_id x"
  shows "list_all subscription_check rows' \<and> map qs_id rows' = map qs_id rows"
  using assms by (auto simp: sql_update_checked_def list_all_iff set_sql_update map_key_sql_update split: if_splits)

lemma drain_frame:
  assumes "queue_wf s"
  shows "queue_deliveries (snd (GetQueueDrain s app sub now)) = queue_deliveries s \<and> queue_wf (snd (GetQueueDrain s app sub now))"
proof -
  have subs: "list_all subscription_check (queue_subscriptions s)" "distinct (map qs_id (queue_subscriptions s))"
    using assms by (simp_all add: queue_wf_def queue_ok_def)
  let ?P = "\<lambda>x. qs_app_id x = app \<and> qs_id x = sub \<and> qs_draining_at x \<noteq> None \<and> qs_drained_at x = None"
  let ?f = "\<lambda>x. x\<lparr>qs_drained_at := Some now, qs_updated_at := now\<rparr>"
  have "list_all subscription_check rows \<and> map qs_id rows = map qs_id (queue_subscriptions s)"
    if "sql_update_checked subscription_check ?P ?f (queue_subscriptions s) = Some rows" for rows
    using checked_subscriptions [OF that subs(1)] by simp
  then show ?thesis using assms subs
    by (auto simp: GetQueueDrain_def Let_def queue_wf_def queue_ok_def split: sum.splits option.splits)
qed

lemma begin_drain_frame:
  assumes "queue_wf s"
  shows "queue_deliveries (snd (BeginQueueDrain s app sub now deadline)) = queue_deliveries s \<and>
    queue_wf (snd (BeginQueueDrain s app sub now deadline))"
proof (cases "sql_update_checked subscription_check (\<lambda>q. qs_app_id q = app \<and> qs_id q = sub) (draining_row now deadline) (queue_subscriptions s)")
  case None
  then show ?thesis using assms by (simp add: BeginQueueDrain_def)
next
  case (Some rows)
  have "list_all subscription_check rows \<and> map qs_id rows = map qs_id (queue_subscriptions s)"
    using checked_subscriptions [OF Some] assms by (simp add: queue_wf_def queue_ok_def draining_row_def)
  then have "queue_wf (s\<lparr>queue_subscriptions := rows\<rparr>)" using assms by (simp add: queue_wf_def queue_ok_def)
  from drain_frame [OF this] show ?thesis using Some assms by (simp add: BeginQueueDrain_def Let_def)
qed

lemma exec_queue_settled:
  assumes "queue_ok s" and "find_queue (queue_deliveries s) i = Some d" and "qd_status d = QAcked \<or> qd_status d = QDeadLetter"
  shows "find_queue (queue_deliveries (exec_queue sha md5 c s)) i = Some d"
proof (cases "queue_deliveries (exec_queue sha md5 c s) = queue_deliveries s")
  case True
  then show ?thesis using assms by simp
next
  case False
  then obtain q ls where tr: "queue_trace q ls (queue_deliveries s) (queue_deliveries (exec_queue sha md5 c s))"
    using exec_queue_trace [OF assms(1), of sha md5 c] by blast
  let ?I = "\<lambda>rows. distinct (map qd_id rows) \<and> find_queue rows i = Some d"
  have I: "?I (queue_deliveries s)" using assms by (simp add: queue_ok_def)
  have "?I b" if "queue_update q l a b" "?I a" for l a b
    using that queue_update_ids [OF that(1)] queue_update_settled [OF that(1) _ _ assms(3)] by simp
  then have "?I (queue_deliveries (exec_queue sha md5 c s))"
    using queue_trace_inv [where I = ?I and L = "\<lambda>_. True", OF tr I] by (simp add: list_all_iff)
  then show ?thesis by blast
qed

lemma store_step_wf: "queue_store_step sha md5 s t \<Longrightarrow> queue_wf s \<Longrightarrow> queue_wf t"
proof (induction rule: queue_store_step.induct)
  case (replay s app sub ids now)
  have "map qd_id (sql_update P (replayed_row now) (queue_deliveries s)) = map qd_id (queue_deliveries s)" for P
    by (rule map_key_sql_update) (simp add: replayed_row_def unleased_def)
  moreover have "list_all queue_row_wf (sql_update P (replayed_row now) (queue_deliveries s))" for P
    using replay by (intro list_all_sql_update replayed_row_wf) (auto simp: queue_wf_def)
  ultimately show ?case using replay
    by (auto simp: ReplayQueueDeadLetters_def Let_def queue_wf_def queue_ok_def list_all_iff queue_row_wf_def)
next
  case (discard s app sub ids)
  then show ?case
    by (auto simp: DeleteQueueDeadLetters_def Let_def queue_wf_def queue_ok_def list_all_iff distinct_map_filter)
qed (simp_all add: queue_wf_call begin_drain_frame drain_frame)

lemma store_step_acked:
  assumes "queue_store_step sha md5 s t" and "queue_wf s" and "find_queue (queue_deliveries s) i = Some d" and "qd_status d = QAcked"
  shows "find_queue (queue_deliveries t) i = Some d"
  using assms
proof (induction rule: queue_store_step.induct)
  case (call s c)
  then show ?case by (intro exec_queue_settled) (auto simp: queue_wf_def)
next
  case (replay s app sub ids now)
  then show ?case
    by (simp add: ReplayQueueDeadLetters_def Let_def find_queue_update [of "replayed_row now"] replayed_row_def unleased_def
        queue_owned_def)
next
  case (discard s app sub ids)
  let ?P = "\<lambda>d. queue_owned s app sub d \<and> qd_id d \<in> set ids"
  have "find_queue (filter (\<lambda>d. \<not> ?P d) (queue_deliveries s)) i = Some d"
    using discard find_queue_in [OF discard(2)]
    by (intro find_queueI) (auto simp: queue_wf_def queue_ok_def queue_owned_def distinct_map_filter)
  then show ?case by (simp add: DeleteQueueDeadLetters_def Let_def)
qed (simp_all add: begin_drain_frame drain_frame)

interpretation queue_store: settled_rows "queue_store_step sha md5" queue_wf
  "\<lambda>s. find_queue (queue_deliveries s)" "\<lambda>d. qd_status d = QAcked" "(=)"
  by unfold_locales (auto intro: store_step_wf store_step_acked)

text \<open>
  C18.  An acknowledgement is final.  An acknowledged delivery is never changed again, whatever sequence of pulls,
  settlements, extensions, replays and deletions of dead letters and drain requests follows.
\<close>

theorem acknowledged_final:
  assumes "(queue_store_step sha md5)\<^sup>*\<^sup>* s t" and "queue_wf s"
    and "find_queue (queue_deliveries s) i = Some d" and "qd_status d = QAcked"
  shows "find_queue (queue_deliveries t) i = Some d"
  using queue_store.run_settled [OF assms] by auto

definition acked_db :: db where
  "acked_db = exec_queues id id
     [PullCmd {} (example_pull 0 ''r''),
      SettleCmd ''b'' ''q'' [\<lparr>ql_receipt = ''r'', ql_disposition = ''ack'', ql_delay = 0, ql_reason = []\<rparr>] second] queue_db"

theorem acknowledged_final_witness:
  "map_option qd_status (find_queue (queue_deliveries (snd (ReplayQueueDeadLetters acked_db ''b'' ''q'' [''d1''] (2 * second)))) ''d1'') = Some QAcked"
proof -
  let ?t = "snd (ReplayQueueDeadLetters acked_db ''b'' ''q'' [''d1''] (2 * second))"
  have step: "(queue_store_step id id)\<^sup>*\<^sup>* acked_db ?t" by (intro r_into_rtranclp queue_store_step.replay)
  have wf: "queue_wf acked_db" by code_simp
  have "map_option qd_status (find_queue (queue_deliveries acked_db) ''d1'') = Some QAcked" by code_simp
  then obtain d where "find_queue (queue_deliveries acked_db) ''d1'' = Some d" "qd_status d = QAcked" by auto
  from acknowledged_final [OF step wf this] this(2) show ?thesis by simp
qed

text \<open>While a subscription drains, nothing ends an expired lease.\<close>

fun cmd_from :: "time \<Rightarrow> queue_cmd \<Rightarrow> bool" where
  "cmd_from e (PullCmd locked req) = (e \<le> pq_now req)"
| "cmd_from e (SettleCmd app sub xs now) = (e \<le> now)"
| "cmd_from e (ExtendCmd app sub xs now) = (e \<le> now)"

definition stuck_row :: "time \<Rightarrow> queue_delivery \<Rightarrow> queue_delivery list \<Rightarrow> bool" where
  "stuck_row e d rows \<longleftrightarrow>
     distinct (map qd_id rows) \<and> d \<in> set rows \<and> qd_status d = QInFlight \<and> qd_lease_expires_at d = Some e"

definition harmless :: "string \<Rightarrow> time \<Rightarrow> string \<Rightarrow> queue_label \<Rightarrow> bool" where
  "harmless sub e q l =
     (case l of ReclaimAt now \<Rightarrow> q \<noteq> sub | RetentionAt now \<Rightarrow> True | LeaseAt _ _ _ _ \<Rightarrow> True
      | SettleAt _ now \<Rightarrow> e \<le> now | ExtendAt _ now \<Rightarrow> e \<le> now)"

lemma stuck_update:
  assumes "queue_update q l rows rows'" and "harmless (qd_subscription_id d) e (qs_id q) l" and "stuck_row e d rows"
  shows "stuck_row e d rows'"
proof -
  have d: "d \<in> set rows" "qd_status d = QInFlight" "qd_lease_expires_at d = Some e" and dist: "distinct (map qd_id rows)"
    using assms(3) by (auto simp: stuck_row_def)
  have keep: "d \<in> set (sql_update P f rows)" if "\<not> P d" for P f using that d(1) by (auto simp: set_sql_update)
  have "d \<in> set rows'"
    using assms(1)
  proof cases
    case (lease c now x m hash)
    have "qd_id d \<noteq> qd_id c" using distinct_key_unique [OF dist d(1) lease(3)] lease(4) d(2) by (auto simp: pullable_def)
    then show ?thesis unfolding lease(2) by (rule keep)
  next
    case (reclaim now)
    then show ?thesis using assms(2) by (auto simp: harmless_def expired_lease_def intro!: keep)
  next
    case (settle st hash now app at reason)
    then show ?thesis using assms(2) d(3) by (auto simp: harmless_def holds_receipt_def intro!: keep)
  next
    case (extend hash now app x)
    then show ?thesis using assms(2) d(3) by (auto simp: harmless_def holds_receipt_def intro!: keep)
  next
    case (retention now)
    then show ?thesis using d(2) by (auto intro!: keep)
  qed
  then show ?thesis using d dist queue_update_ids [OF assms(1)] by (simp add: stuck_row_def)
qed

lemma stuck_exec:
  assumes ok: "queue_ok s" and q: "q \<in> set (queue_subscriptions s)" "qs_id q = qd_subscription_id d" "qs_draining_at q \<noteq> None"
    and stuck: "stuck_row e d (queue_deliveries s)" and c: "cmd_from e c"
  shows "stuck_row e d (queue_deliveries (exec_queue sha md5 c s))"
proof -
  have trace: "stuck_row e d rows'"
    if "queue_trace q' ls (queue_deliveries s) rows'" "list_all (harmless (qd_subscription_id d) e (qs_id q')) ls" for q' ls rows'
    by (rule queue_trace_inv [where I = "stuck_row e d" and L = "harmless (qd_subscription_id d) e (qs_id q')", OF that(1) stuck that(2)])
       (rule stuck_update)
  have other: ?thesis if "\<And>l q'. cmd_label sha c l \<Longrightarrow> harmless (qd_subscription_id d) e q' l"
    using exec_queue_trace [OF ok, of sha md5 c] trace stuck that by (metis list_all_iff)
  show ?thesis
  proof (cases c)
    case (PullCmd locked req)
    obtain r s' where p: "PullQueueDeliveries sha md5 locked s req = (r, s')" by fastforce
    show ?thesis
    proof (cases rule: Pull_trace [OF ok p, case_names none pulled])
      case none
      then show ?thesis using PullCmd p stuck by simp
    next
      case (pulled q' s2 ms)
      have "qs_id q' \<noteq> qs_id q"
        using distinct_key_unique [of qs_id "queue_subscriptions s" q' q] GetQueueSubscription_row [OF pulled(1)] q pulled(2) ok
        by (auto simp: queue_ok_def)
      then show ?thesis using trace [OF queue_trace_append [OF pulled(4,5)]] PullCmd p q(2) by (auto simp: harmless_def list_all_iff)
    qed
  next
    case (SettleCmd app sub xs now)
    then show ?thesis using c by (intro other) (auto simp: harmless_def)
  next
    case (ExtendCmd app sub xs now)
    then show ?thesis using c by (intro other) (auto simp: harmless_def)
  qed
qed

lemma stuck_execs:
  assumes "queue_inv s" and "q \<in> set (queue_subscriptions s)" and "qs_id q = qd_subscription_id d" and "qs_draining_at q \<noteq> None"
    and "stuck_row e d (queue_deliveries s)" and "list_all (cmd_from e) cmds"
  shows "stuck_row e d (queue_deliveries (exec_queues sha md5 cmds s))"
  using assms
proof (induction cmds arbitrary: s)
  case (Cons c cs)
  have ok: "queue_ok s" using Cons.prems(1) by (simp add: queue_inv_def)
  have "queue_subscriptions (exec_queue sha md5 c s) = queue_subscriptions s" using exec_queue_trace [OF ok] by blast
  then show ?case
    using Cons.IH [OF exec_queue_inv [OF Cons.prems(1), of sha md5 c] _ Cons.prems(3,4) stuck_exec [OF ok Cons.prems(2-5), of c sha md5]]
      Cons.prems(2,6)
    by (simp add: exec_queues_def)
qed (simp add: exec_queues_def)

text \<open>
  A drain does not finish when a consumer disappears.  While a subscription drains, a pull returns before it
  reclaims expired leases, and nothing else reclaims them; so a delivery whose lease has run out without a
  settlement stays in flight through every later call, and the drain is reported as draining or timed out for ever.
\<close>

theorem drain_blocked_by_expired_lease:
  assumes "queue_inv s" and "GetQueueSubscription s app sub = Inr q" and "qs_draining_at q \<noteq> None"
    and "find_queue (queue_deliveries s) i = Some d" and "qd_subscription_id d = sub" and "qd_status d = QInFlight"
    and "qd_lease_expires_at d = Some e" and "list_all (cmd_from e) cmds"
  shows "find_queue (queue_deliveries (exec_queues sha md5 cmds s)) i = Some d \<and>
    (case fst (GetQueueDrain (exec_queues sha md5 cmds s) app sub now) of
       Inr drain \<Rightarrow> dn_status drain \<in> {''draining'', ''timed_out''} | Inl _ \<Rightarrow> False)"
proof -
  let ?t = "exec_queues sha md5 cmds s"
  note row = GetQueueSubscription_row [OF assms(2)]
  have "stuck_row e d (queue_deliveries s)"
    using assms(1,6,7) find_queue_in [OF assms(4)] by (simp add: stuck_row_def queue_inv_def queue_ok_def)
  then have st: "stuck_row e d (queue_deliveries ?t)" using stuck_execs [OF assms(1) _ _ assms(3)] row assms(5,8) by simp
  then have "find_queue (queue_deliveries ?t) i = Some d"
    using find_queue_in [OF assms(4)] by (intro find_queueI) (auto simp: stuck_row_def)
  moreover have "sql_count (in_flight (qs_id q)) (queue_deliveries ?t) \<noteq> 0"
    using st row assms(5) by (auto simp: sql_count_0_iff stuck_row_def in_flight_def)
  moreover have "GetQueueSubscription ?t app sub = Inr q"
    using assms(2) exec_queues_subscriptions [OF assms(1), of sha md5 cmds] by (simp add: GetQueueSubscription_def)
  ultimately show ?thesis using assms(3) by (simp add: GetQueueDrain_def Let_def)
qed

definition draining_db :: db where
  "draining_db = snd (BeginQueueDrain (snd (PullQueueDeliveries id id {} queue_db (example_pull 0 ''r''))) ''b'' ''q'' second (31 * second))"

theorem drain_blocked_by_expired_lease_witness:
  "let cmds = [PullCmd {} (example_pull (90 * second) ''s''), PullCmd {} (example_pull (900 * second) ''t'')] in
   (case fst (GetQueueDrain (exec_queues id id cmds draining_db) ''b'' ''q'' (1000 * second)) of
      Inr drain \<Rightarrow> dn_status drain \<in> {''draining'', ''timed_out''} | Inl _ \<Rightarrow> False)"
proof -
  let ?cmds = "[PullCmd {} (example_pull (90 * second) ''s''), PullCmd {} (example_pull (900 * second) ''t'')]"
  have inv: "queue_inv draining_db" by code_simp
  have "(case GetQueueSubscription draining_db ''b'' ''q'' of Inr q \<Rightarrow> qs_draining_at q \<noteq> None | Inl _ \<Rightarrow> False)"
    "(case find_queue (queue_deliveries draining_db) ''d1'' of None \<Rightarrow> False | Some d \<Rightarrow>
       qd_subscription_id d = ''q'' \<and> qd_status d = QInFlight \<and> qd_lease_expires_at d = Some (60 * second))"
    by code_simp+
  then obtain q d where q: "GetQueueSubscription draining_db ''b'' ''q'' = Inr q" "qs_draining_at q \<noteq> None"
    and d: "find_queue (queue_deliveries draining_db) ''d1'' = Some d" "qd_subscription_id d = ''q''" "qd_status d = QInFlight"
      "qd_lease_expires_at d = Some (60 * second)"
    by (auto split: sum.splits option.splits)
  have "list_all (cmd_from (60 * second)) ?cmds" by code_simp
  from drain_blocked_by_expired_lease [OF inv q d this, of id id "1000 * second"] show ?thesis by (simp add: Let_def)
qed

definition dead_first_db :: db where
  "dead_first_db = exec_queues id id
     [PullCmd {} (example_pull 0 ''r''),
      SettleCmd ''b'' ''q'' [\<lparr>ql_receipt = ''r'', ql_disposition = ''dead_letter'', ql_delay = 0, ql_reason = []\<rparr>] second,
      PullCmd {} (example_pull (2 * second) ''s'')] queue_db"

text \<open>
  Replaying a dead letter can break the order of a key.  The replayed delivery is older than the delivery of
  the same key that was leased after it had died; it becomes available again while that one is in flight, is
  now the earliest of its key, and the next pull hands it out: two deliveries of one key are in flight.
\<close>

theorem replay_breaks_key_order:
  "queue_inv dead_first_db \<and>
   (let s = exec_queue id id (PullCmd {} (example_pull (4 * second) ''t''))
              (snd (ReplayQueueDeadLetters dead_first_db ''b'' ''q'' [''d1''] (3 * second))) in
    map (\<lambda>d. (qd_id d, qd_ordering_key d, qd_status d)) (queue_deliveries s) =
      [(''d1'', Some ''k'', QInFlight), (''d2'', Some ''k'', QInFlight)])"
  by code_simp

end
