(* ===== verification/Services.thy ===== *)
theory Services
  imports Wire Domain
begin

text \<open>
  What the services of \<^verbatim>\<open>internal/service\<close> share: their errors, the check of a callback URL
  (\<^verbatim>\<open>service/apps.go\<close>), the search for secrets in metadata (\<^verbatim>\<open>service/realtime_push.go\<close>) and the
  records handed to the audit log.  Parsing a URL and the ranges of addresses are parameters
  (\<open>url_lib\<close>, the packages net/url and net).
\<close>

section \<open>Errors\<close>

datatype service_error =
    SvcInvalidDependency | SvcInvalidInput | SvcNotFound | SvcConflict | SvcStore store_error | SvcRandom | SvcContext
  | SvcFunctionUnavailable | SvcFunctionTimeout | SvcInvalidTarget

definition mapStoreError :: "store_error \<Rightarrow> service_error" where
  "mapStoreError e = (case e of ErrNotFound \<Rightarrow> SvcNotFound | ErrConflict \<Rightarrow> SvcConflict | _ \<Rightarrow> SvcStore e)"

definition map_store :: "store_error + 'a \<Rightarrow> service_error + 'a" where
  "map_store r = (case r of Inl e \<Rightarrow> Inl (mapStoreError e) | Inr x \<Rightarrow> Inr x)"

lemma map_store_simps [simp]:
  "map_store (Inl e) = Inl (mapStoreError e)" "map_store (Inr x) = Inr x"
  "map_store r = Inr x \<longleftrightarrow> r = Inr x"
  by (auto simp: map_store_def split: sum.splits)

section \<open>Callback URLs\<close>

text \<open>The parts of a parsed URL that are looked at, and whether a host is an address that is loopback or
  private.\<close>

record parsed_url =
  pu_scheme :: string
  pu_hostname :: string
  pu_has_user :: bool
  pu_fragment :: string

record url_lib =
  ul_parse :: "string \<Rightarrow> parsed_url option"
  ul_internal_ip :: "string \<Rightarrow> bool"

definition has_suffix :: "string \<Rightarrow> string \<Rightarrow> bool" where
  "has_suffix suffix t \<longleftrightarrow> strip_prefix (rev suffix) (rev t) \<noteq> None"

definition trim_suffix :: "string \<Rightarrow> string \<Rightarrow> string" where
  "trim_suffix suffix t = (if has_suffix suffix t then take (length t - length suffix) t else t)"

definition internalHost :: "url_lib \<Rightarrow> string \<Rightarrow> bool" where
  "internalHost lib host0 =
     (let host = go_to_lower (trim_suffix ''.'' host0) in
      host = ''localhost'' \<or> has_suffix ''.localhost'' host \<or> has_suffix ''.local'' host \<or> has_suffix ''.internal'' host \<or>
      ul_internal_ip lib host)"

definition validCallbackURL :: "url_lib \<Rightarrow> bool \<Rightarrow> string option \<Rightarrow> bool" where
  "validCallbackURL lib allowInsecure callbackURL =
     (case callbackURL of
        None \<Rightarrow> True
      | Some url \<Rightarrow>
          (case ul_parse lib url of
             None \<Rightarrow> False
           | Some u \<Rightarrow>
               if pu_hostname u = [] \<or> pu_has_user u \<or> pu_fragment u \<noteq> [] \<or>
                  (pu_scheme u \<noteq> ''http'' \<and> pu_scheme u \<noteq> ''https'') then False
               else pu_scheme u = ''https'' \<or> (allowInsecure \<and> internalHost lib (pu_hostname u))))"

section \<open>Secrets in metadata\<close>

text \<open>\<^verbatim>\<open>json.Unmarshal\<close> into an interface fails on a number that rounds to an infinite
  \<^verbatim>\<open>float64\<close>, that is from \<open>(2 ^ 54 - 1) * 2 ^ 970\<close> on.\<close>

definition float_overflow :: "string \<Rightarrow> bool" where
  "float_overflow t0 =
     (let t = (case t0 of c # r \<Rightarrow> if c = CHR ''-'' then r else t0 | [] \<Rightarrow> []);
          ip = takeWhile is_digit t; r1 = dropWhile is_digit t;
          (fp, r2) = (case r1 of c # r \<Rightarrow> if c = CHR ''.'' then (takeWhile is_digit r, dropWhile is_digit r) else ([], r1)
                      | [] \<Rightarrow> ([], []));
          e = (case r2 of
                 [] \<Rightarrow> 0
               | _ # r \<Rightarrow> (case r of c # ds \<Rightarrow> if c = CHR ''-'' then - digits_val ds
                                             else if c = CHR ''+'' then digits_val ds else digits_val r
                          | [] \<Rightarrow> 0));
          m = digits_val (ip @ fp); k = e - int (length fp); limit = (2 ^ 54 - 1) * 2 ^ 970 in
      m \<noteq> 0 \<and>
      (if k \<ge> 0 then k > 400 \<or> m * 10 ^ nat k \<ge> limit
       else \<not> (- k > int (length (ip @ fp)) + 400) \<and> m \<ge> limit * 10 ^ nat (- k)))"

fun numbers_finite :: "json \<Rightarrow> bool" where
  "numbers_finite (JNum t) \<longleftrightarrow> \<not> float_overflow t"
| "numbers_finite (JArr vs) \<longleftrightarrow> list_all numbers_finite vs"
| "numbers_finite (JObj ms) \<longleftrightarrow> list_all (\<lambda>(k, raw, v). numbers_finite v) ms"
| "numbers_finite _ \<longleftrightarrow> True"

definition contains_text :: "string \<Rightarrow> string \<Rightarrow> bool" where
  "contains_text pat t \<longleftrightarrow> list_ex (\<lambda>i. strip_prefix pat (drop i t) \<noteq> None) [0..<Suc (length t)]"

definition secret_key :: "string \<Rightarrow> bool" where
  "secret_key key \<longleftrightarrow>
     (let lower = go_to_lower key in
      contains_text ''secret'' lower \<or> contains_text ''token'' lower \<or> contains_text ''password'' lower \<or>
      contains_text ''authorization'' lower)"

text \<open>In a map only the last member of a key is left; \<open>last_members\<close> drops the others.\<close>

fun last_members :: "(string \<times> string \<times> 'v) list \<Rightarrow> (string \<times> string \<times> 'v) list" where
  "last_members [] = []"
| "last_members ((k, raw, v) # ms) =
     (if k \<in> set (map fst ms) then last_members ms else (k, raw, v) # last_members ms)"

lemma last_members_subset: "set (last_members ms) \<subseteq> set ms"
  by (induction ms rule: last_members.induct) auto

fun inspect_secrets :: "nat \<Rightarrow> json \<Rightarrow> bool" where
  "inspect_secrets 0 v \<longleftrightarrow> False"
| "inspect_secrets (Suc n) (JObj ms) \<longleftrightarrow>
     list_ex (\<lambda>(k, raw, v). secret_key k \<or> inspect_secrets n v) (last_members ms)"
| "inspect_secrets (Suc n) (JArr vs) \<longleftrightarrow> list_ex (inspect_secrets n) vs"
| "inspect_secrets (Suc n) _ \<longleftrightarrow> False"

text \<open>The recursion descends into the value, so its depth is enough fuel.\<close>

definition containsSecretField :: "string \<Rightarrow> bool" where
  "containsSecretField raw =
     (if raw = [] then False
      else
        (case parse_json False raw of
           Inl _ \<Rightarrow> True
         | Inr v \<Rightarrow> if numbers_finite v then inspect_secrets (nat (json_depth v)) v else True))"

lemma fold_max_ge: "a \<le> fold max xs a" "x \<in> set xs \<Longrightarrow> x \<le> fold max xs (a :: int)"
  by (induction xs arbitrary: a) (auto intro: order_trans [OF max.cobounded1] order_trans [OF max.cobounded2])

lemma inspect_secrets_fuel: "json_depth v \<le> int n \<Longrightarrow> inspect_secrets (Suc n) v = inspect_secrets n v"
proof (induction n arbitrary: v)
  case 0
  then show ?case
    using fold_max_ge(1) [of 0 "map json_depth (case v of JArr vs \<Rightarrow> vs | _ \<Rightarrow> [])"]
      fold_max_ge(1) [of 0 "map (\<lambda>(k, raw, w). json_depth w) (case v of JObj ms \<Rightarrow> ms | _ \<Rightarrow> [])"]
    by (cases v) auto
next
  case (Suc n)
  show ?case
  proof (cases v)
    case (JArr vs)
    have "json_depth w \<le> int n" if "w \<in> set vs" for w
      using Suc.prems fold_max_ge(2) [of "json_depth w" "map json_depth vs" 0] that by (auto simp: JArr)
    then have "list_ex (inspect_secrets (Suc n)) vs = list_ex (inspect_secrets n) vs"
      using Suc.IH by (intro list_ex_cong) auto
    then show ?thesis by (simp only: JArr inspect_secrets.simps)
  next
    case (JObj ms)
    have "inspect_secrets (Suc n) w = inspect_secrets n w" if "(k, raw, w) \<in> set (last_members ms)" for k raw w
    proof (rule Suc.IH)
      have "(k, raw, w) \<in> set ms" using that last_members_subset by blast
      then have "json_depth w \<in> set (map (\<lambda>(k, raw, w). json_depth w) ms)" by force
      from fold_max_ge(2) [OF this, of 0] show "json_depth w \<le> int n" using Suc.prems by (simp add: JObj)
    qed
    then have "list_ex (\<lambda>(k, raw, w). secret_key k \<or> inspect_secrets (Suc n) w) (last_members ms) =
        list_ex (\<lambda>(k, raw, w). secret_key k \<or> inspect_secrets n w) (last_members ms)"
      by (intro list_ex_cong) auto
    then show ?thesis by (simp only: JObj inspect_secrets.simps)
  qed auto
qed

section \<open>Instants\<close>

text \<open>\<^verbatim>\<open>t.UTC().Format(time.RFC3339Nano)\<close>.\<close>

definition format_utc :: "time \<Rightarrow> string" where
  "format_utc t =
     (let secs = t div second; ns = t mod second; day = secs div 86400; sod = secs mod 86400 in
      case civil_from_days day of (y, m, d) \<Rightarrow>
        (if y < 0 then CHR ''-'' # pad4 (- y) else if y \<le> 9999 then pad4 y else show_int y) @
        CHR ''-'' # pad2 m @ CHR ''-'' # pad2 d @ CHR ''T'' # pad2 (sod div 3600) @
        CHR '':'' # pad2 (sod mod 3600 div 60) @ CHR '':'' # pad2 (sod mod 60) @ format_fraction ns @ ''Z'')"

section \<open>Audit records\<close>

record audit_record =
  ar_occurred_at :: time
  ar_actor_type :: string
  ar_actor_id :: string
  ar_action :: string
  ar_resource_type :: string
  ar_resource_id :: string
  ar_outcome :: string
  ar_metadata :: string

end
