(* ===== verification/QueueSchedules.thy ===== *)
theory QueueSchedules
  imports QueueProperties Services
begin

text \<open>
  Schedules of the queue: the store operations of \<^verbatim>\<open>store/postgres/queue_scheduler.go\<close> and the
  scheduler of \<^verbatim>\<open>service/queue_schedule.go\<close> that fires them.  The cron library and the time zone
  database are parameters (\<open>cron_lib\<close>), as are SHA-256 and the rows that concurrent transactions hold.
\<close>

section \<open>Rows\<close>

definition schedule_check :: "queue_schedule \<Rightarrow> bool" where
  "schedule_check c \<longleftrightarrow>
     JSONObject (sc_data c) \<and> -10 \<le> sc_priority c \<and> sc_priority c \<le> 10 \<and> json_valid (sc_metadata c) \<and>
     0 \<le> sc_claim_generation c \<and> 0 < sc_policy_version c \<and> (sc_claim_token c = None \<longleftrightarrow> sc_claim_expires_at c = None)"

text \<open>The checks on an event (migrations 005 and 015).\<close>

definition event_check :: "event_row \<Rightarrow> bool" where
  "event_check e \<longleftrightarrow> JSONObject (ev_data e) \<and> -10 \<le> ev_queue_priority e \<and> ev_queue_priority e \<le> 10 \<and> json_valid (ev_queue_metadata e)"

section \<open>Operations of the store\<close>

definition schedule_key :: "string \<Rightarrow> string \<Rightarrow> string \<Rightarrow> queue_schedule \<Rightarrow> bool" where
  "schedule_key appID subscriptionID scheduleID c \<longleftrightarrow>
     sc_app_id c = appID \<and> sc_subscription_id c = subscriptionID \<and> sc_id c = scheduleID"

text \<open>The columns of the insert; the others take their defaults.\<close>

definition inserted_schedule :: "queue_schedule \<Rightarrow> queue_schedule" where
  "inserted_schedule item =
     item\<lparr>sc_ordering_key := nullif_empty (queueStringValue (sc_ordering_key item)), sc_last_run_at := None,
          sc_claim_token := None, sc_claim_expires_at := None, sc_claim_generation := 0\<rparr>"

definition CreateQueueSchedule :: "db \<Rightarrow> queue_schedule \<Rightarrow> (store_error + unit) \<times> db" where
  "CreateQueueSchedule s item =
     (let row = inserted_schedule item in
      if \<not> sql_exists (\<lambda>q. qs_app_id q = sc_app_id item \<and> qs_id q = sc_subscription_id item) (queue_subscriptions s)
      then (Inl ErrNotFound, s)
      else if \<not> schedule_check row then (Inl ErrDB, s)
      else if sql_exists (\<lambda>c. sc_id c = sc_id row \<or> sc_app_id c = sc_app_id row \<and>
                sc_subscription_id c = sc_subscription_id row \<and> sc_name c = sc_name row) (queue_schedules s)
      then (Inl ErrConflict, s)
      else (Inr (), s\<lparr>queue_schedules := queue_schedules s @ [row]\<rparr>))"

definition ListQueueSchedules :: "db \<Rightarrow> string \<Rightarrow> string \<Rightarrow> queue_schedule list" where
  "ListQueueSchedules s appID subscriptionID =
     sort_key (\<lambda>c. (sc_created_at c, sc_id c))
       (filter (\<lambda>c. sc_app_id c = appID \<and> sc_subscription_id c = subscriptionID) (queue_schedules s))"

definition GetQueueSchedule :: "db \<Rightarrow> string \<Rightarrow> string \<Rightarrow> string \<Rightarrow> store_error + queue_schedule" where
  "GetQueueSchedule s appID subscriptionID scheduleID =
     (case sql_row (schedule_key appID subscriptionID scheduleID) (queue_schedules s) of
        None \<Rightarrow> Inl ErrNotFound | Some c \<Rightarrow> Inr c)"

text \<open>An update gives up any claim on the schedule and keeps its last run and its claim generation.\<close>

definition updated_schedule :: "queue_schedule \<Rightarrow> queue_schedule \<Rightarrow> queue_schedule" where
  "updated_schedule item c =
     item\<lparr>sc_id := sc_id c, sc_app_id := sc_app_id c, sc_subscription_id := sc_subscription_id c,
          sc_ordering_key := nullif_empty (queueStringValue (sc_ordering_key item)),
          sc_last_run_at := sc_last_run_at c, sc_claim_token := None, sc_claim_expires_at := None,
          sc_claim_generation := sc_claim_generation c, sc_policy_version := sc_policy_version c + 1,
          sc_created_at := sc_created_at c\<rparr>"

definition UpdateQueueSchedule :: "db \<Rightarrow> queue_schedule \<Rightarrow> int \<Rightarrow> (store_error + queue_schedule) \<times> db" where
  "UpdateQueueSchedule s item expectedVersion =
     (let P = (\<lambda>c. schedule_key (sc_app_id item) (sc_subscription_id item) (sc_id item) c \<and>
                   sc_policy_version c = expectedVersion) in
      case sql_row P (queue_schedules s) of
        None \<Rightarrow>
          (case GetQueueSchedule s (sc_app_id item) (sc_subscription_id item) (sc_id item) of
             Inr _ \<Rightarrow> (Inl ErrConflict, s) | Inl _ \<Rightarrow> (Inl ErrNotFound, s))
      | Some c \<Rightarrow>
          let updated = updated_schedule item c in
          if \<not> schedule_check updated \<or>
             sql_exists (\<lambda>x. sc_id x \<noteq> sc_id c \<and> sc_app_id x = sc_app_id c \<and>
               sc_subscription_id x = sc_subscription_id c \<and> sc_name x = sc_name updated) (queue_schedules s)
          then (Inl ErrDB, s)
          else (Inr updated, s\<lparr>queue_schedules := sql_update P (updated_schedule item) (queue_schedules s)\<rparr>))"

definition DeleteQueueSchedule :: "db \<Rightarrow> string \<Rightarrow> string \<Rightarrow> string \<Rightarrow> (store_error + unit) \<times> db" where
  "DeleteQueueSchedule s appID subscriptionID scheduleID =
     (let P = schedule_key appID subscriptionID scheduleID in
      if \<not> sql_exists P (queue_schedules s) then (Inl ErrNotFound, s)
      else (Inr (), s\<lparr>queue_schedules := filter (\<lambda>c. \<not> P c) (queue_schedules s),
                      queue_occurrences := filter (\<lambda>x. oc_schedule_id x \<noteq> scheduleID) (queue_occurrences s)\<rparr>))"

section \<open>Claiming and completing\<close>

definition due_schedule :: "db \<Rightarrow> time \<Rightarrow> queue_schedule \<Rightarrow> bool" where
  "due_schedule s now c \<longleftrightarrow>
     sc_enabled c \<and> sc_next_run_at c \<le> now \<and> (sc_claim_expires_at c = None \<or> upto_opt (sc_claim_expires_at c) now) \<and>
     sql_exists (\<lambda>q. qs_id q = sc_subscription_id c \<and> qs_app_id q = sc_app_id c \<and> qs_enabled q \<and>
       qs_paused_at q = None \<and> qs_draining_at q = None) (queue_subscriptions s)"

definition claimed_schedule :: "time \<Rightarrow> time \<Rightarrow> string \<Rightarrow> queue_schedule \<Rightarrow> queue_schedule" where
  "claimed_schedule now claimUntil token c =
     c\<lparr>sc_claim_token := Some token, sc_claim_expires_at := Some claimUntil,
       sc_claim_generation := sc_claim_generation c + 1, sc_updated_at := now\<rparr>"

definition due_schedules :: "string set \<Rightarrow> db \<Rightarrow> time \<Rightarrow> nat \<Rightarrow> queue_schedule list" where
  "due_schedules locked s now limit =
     take limit (sort_key (\<lambda>c. (sc_next_run_at c, sc_id c))
       (filter (\<lambda>c. due_schedule s now c \<and> sc_id c \<notin> locked) (queue_schedules s)))"

definition ClaimDueQueueSchedules ::
    "string set \<Rightarrow> db \<Rightarrow> time \<Rightarrow> time \<Rightarrow> string \<Rightarrow> nat \<Rightarrow> queue_schedule list \<times> db" where
  "ClaimDueQueueSchedules locked s now claimUntil token limit =
     (let due = due_schedules locked s now limit in
      (map (claimed_schedule now claimUntil token) due,
       s\<lparr>queue_schedules := sql_update (\<lambda>c. sc_id c \<in> set (map sc_id due)) (claimed_schedule now claimUntil token)
           (queue_schedules s)\<rparr>))"

record schedule_completion =
  cm_schedule_id :: string
  cm_claim_token :: string
  cm_event_id :: string
  cm_delivery_id :: string
  cm_claim_generation :: int
  cm_occurrence_at :: time
  cm_next_run_at :: time
  cm_now :: time

definition claim_held :: "schedule_completion \<Rightarrow> queue_schedule \<Rightarrow> bool" where
  "claim_held m c \<longleftrightarrow>
     sc_id c = cm_schedule_id m \<and> sc_claim_token c = Some (cm_claim_token m) \<and> sc_claim_generation c = cm_claim_generation m"

definition scheduled_event :: "schedule_completion \<Rightarrow> queue_schedule \<Rightarrow> time \<Rightarrow> event_row" where
  "scheduled_event m c expiresAt =
     \<lparr>ev_id = cm_event_id m, ev_type = sc_event_type c, ev_source_app_id = sc_app_id c,
      ev_target_app_ids = [sc_app_id c], ev_data = sc_data c, ev_created_at = cm_occurrence_at m,
      ev_expires_at = expiresAt, ev_queue_available_at = Some (cm_occurrence_at m),
      ev_queue_ordering_key = nullif_empty (queueStringValue (sc_ordering_key c)), ev_queue_priority = sc_priority c,
      ev_queue_metadata = sc_metadata c\<rparr>"

definition scheduled_delivery :: "schedule_completion \<Rightarrow> queue_schedule \<Rightarrow> time \<Rightarrow> queue_delivery" where
  "scheduled_delivery m c expiresAt =
     \<lparr>qd_id = cm_delivery_id m, qd_subscription_id = sc_subscription_id c, qd_app_id = sc_app_id c,
      qd_event_id = cm_event_id m, qd_generation = 1, qd_status = QAvailable, qd_attempts = 0,
      qd_available_at = cm_occurrence_at m, qd_receipt_hash = None, qd_lease_started_at = None,
      qd_lease_expires_at = None, qd_lease_max_expires_at = None,
      qd_ordering_key = nullif_empty (queueStringValue (sc_ordering_key c)), qd_priority = sc_priority c,
      qd_metadata = sc_metadata c, qd_last_reason = None, qd_created_at = cm_occurrence_at m,
      qd_updated_at = cm_occurrence_at m, qd_expires_at = expiresAt\<rparr>"

text \<open>The three inserts of an occurrence.  A clash with an event of the same identifier or a delivery of the
  same subscription and event is passed over, any other violated constraint fails the transaction.\<close>

definition insert_occurrence :: "schedule_completion \<Rightarrow> queue_schedule \<Rightarrow> time \<Rightarrow> db \<Rightarrow> db option" where
  "insert_occurrence m c expiresAt s =
     (let e = scheduled_event m c expiresAt; d = scheduled_delivery m c expiresAt;
          evs = (if sql_exists (\<lambda>x. ev_id x = ev_id e) (events s) then events s else events s @ [e]);
          known = sql_exists (\<lambda>x. qd_subscription_id x = qd_subscription_id d \<and> qd_event_id x = qd_event_id d)
                    (queue_deliveries s) in
      if \<not> event_check e \<or> (\<not> known \<and> sql_exists (\<lambda>x. qd_id x = qd_id d) (queue_deliveries s)) \<or>
         sql_exists (\<lambda>x. oc_event_id x = cm_event_id m \<or>
           oc_schedule_id x = sc_id c \<and> oc_scheduled_at x = cm_occurrence_at m) (queue_occurrences s)
      then None
      else Some (s\<lparr>events := evs,
                   queue_deliveries := (if known then queue_deliveries s else queue_deliveries s @ [d]),
                   queue_occurrences := queue_occurrences s @
                     [\<lparr>oc_schedule_id = sc_id c, oc_scheduled_at = cm_occurrence_at m, oc_event_id = cm_event_id m,
                       oc_created_at = cm_now m\<rparr>]\<rparr>))"

definition completed_schedule :: "schedule_completion \<Rightarrow> queue_schedule \<Rightarrow> queue_schedule" where
  "completed_schedule m c =
     c\<lparr>sc_last_run_at := Some (cm_occurrence_at m), sc_next_run_at := cm_next_run_at m, sc_claim_token := None,
       sc_claim_expires_at := None, sc_updated_at := cm_now m\<rparr>"

definition CompleteQueueSchedule :: "db \<Rightarrow> schedule_completion \<Rightarrow> (store_error + unit) \<times> db" where
  "CompleteQueueSchedule s m =
     (case sql_row (claim_held m) (queue_schedules s) of
        None \<Rightarrow> (Inl ErrConflict, s)
      | Some c \<Rightarrow>
          (case sql_row (\<lambda>q. qs_id q = sc_subscription_id c \<and> qs_app_id q = sc_app_id c) (queue_subscriptions s) of
             None \<Rightarrow> (Inl ErrConflict, s)
           | Some q \<Rightarrow>
               if sc_next_run_at c \<noteq> cm_occurrence_at m then (Inl ErrConflict, s)
               else
                 (case (if sql_exists (\<lambda>x. oc_schedule_id x = sc_id c \<and> oc_scheduled_at x = cm_occurrence_at m)
                             (queue_occurrences s) then Some s
                        else insert_occurrence m c (cm_occurrence_at m + qs_retention_seconds q * second) s) of
                    None \<Rightarrow> (Inl ErrDB, s)
                  | Some s1 \<Rightarrow>
                      if sql_count (claim_held m) (queue_schedules s1) \<noteq> 1 then (Inl ErrConflict, s)
                      else (Inr (), s1\<lparr>queue_schedules :=
                              sql_update (claim_held m) (completed_schedule m) (queue_schedules s1)\<rparr>))))"

section \<open>The scheduler\<close>

text \<open>What is used of the cron library and of the time zone database: whether an expression parses, whether
  a location is known, and the next instant an expression gives in a location after an instant (the zero time
  when there is none).\<close>

record cron_lib =
  cl_parse :: "string \<Rightarrow> bool"
  cl_location :: "string \<Rightarrow> bool"
  cl_next :: "string \<Rightarrow> string \<Rightarrow> time \<Rightarrow> time"

definition scheduleOccurrenceIDs :: "(string \<Rightarrow> string) \<Rightarrow> string \<Rightarrow> time \<Rightarrow> string \<times> string" where
  "scheduleOccurrenceIDs sha scheduleID occurrence =
     (let suffix = hex_encode (take 16 (sha (scheduleID @ CHR 0x00 # format_utc occurrence))) in
      (''evt_sched_'' @ suffix, ''qdl_sched_'' @ suffix))"

definition completion_of :: "cron_lib \<Rightarrow> (string \<Rightarrow> string) \<Rightarrow> time \<Rightarrow> queue_schedule \<Rightarrow> schedule_completion" where
  "completion_of lib sha now item =
     (let (eventID, deliveryID) = scheduleOccurrenceIDs sha (sc_id item) (sc_next_run_at item) in
      \<lparr>cm_schedule_id = sc_id item, cm_claim_token = queueStringValue (sc_claim_token item), cm_event_id = eventID,
       cm_delivery_id = deliveryID, cm_claim_generation = sc_claim_generation item,
       cm_occurrence_at = sc_next_run_at item,
       cm_next_run_at = cl_next lib (sc_cron_expression item) (sc_timezone item) (sc_next_run_at item),
       cm_now = now\<rparr>)"

text \<open>The loop over the claimed schedules ends at the first error.  \<open>between\<close> is what other processes do to
  the database before the completion of a schedule.\<close>

fun complete_all ::
    "cron_lib \<Rightarrow> (string \<Rightarrow> string) \<Rightarrow> (string \<Rightarrow> db \<Rightarrow> db) \<Rightarrow> time \<Rightarrow> queue_schedule list \<Rightarrow> db
     \<Rightarrow> (store_error + unit) \<times> db" where
  "complete_all lib sha between now [] s = (Inr (), s)"
| "complete_all lib sha between now (item # items) s =
     (if \<not> cl_location lib (sc_timezone item) \<or> \<not> cl_parse lib (sc_cron_expression item) then (Inl ErrDB, s)
      else
        (case CompleteQueueSchedule (between (sc_id item) s) (completion_of lib sha now item) of
           (Inl e, s') \<Rightarrow> (Inl e, s')
         | (Inr _, s') \<Rightarrow> complete_all lib sha between now items s'))"

definition runOnce ::
    "cron_lib \<Rightarrow> (string \<Rightarrow> string) \<Rightarrow> (string \<Rightarrow> db \<Rightarrow> db) \<Rightarrow> string set \<Rightarrow> db \<Rightarrow> time \<Rightarrow> string \<Rightarrow> time
     \<Rightarrow> (store_error + unit) \<times> db" where
  "runOnce lib sha between locked s now token completedAt =
     (case ClaimDueQueueSchedules locked s now (now + 15 * second) (''qclaim_'' @ token) 32 of
        (items, s1) \<Rightarrow> complete_all lib sha between completedAt items s1)"

section \<open>Schedulers side by side\<close>

text \<open>The calls that any number of schedulers make on the store.\<close>

datatype schedule_cmd =
    ClaimCmd "string set" time time string nat
  | CompleteCmd schedule_completion

definition exec_schedule :: "schedule_cmd \<Rightarrow> db \<Rightarrow> db" where
  "exec_schedule k s =
     (case k of
        ClaimCmd locked now claimUntil token limit \<Rightarrow> snd (ClaimDueQueueSchedules locked s now claimUntil token limit)
      | CompleteCmd m \<Rightarrow> snd (CompleteQueueSchedule s m))"

definition exec_schedules :: "schedule_cmd list \<Rightarrow> db \<Rightarrow> db" where
  "exec_schedules ks s = fold exec_schedule ks s"

definition find_schedule :: "db \<Rightarrow> string \<Rightarrow> queue_schedule option" where
  "find_schedule s i = sql_row (\<lambda>c. sc_id c = i) (queue_schedules s)"

definition schedules_ok :: "db \<Rightarrow> bool" where
  "schedules_ok s \<longleftrightarrow> distinct (map sc_id (queue_schedules s)) \<and> list_all schedule_check (queue_schedules s)"

text \<open>No event, delivery or occurrence carries the identifiers of a completion, and its occurrence has not
  been recorded.\<close>

definition ids_unused :: "schedule_completion \<Rightarrow> db \<Rightarrow> bool" where
  "ids_unused m s \<longleftrightarrow>
     list_all (\<lambda>e. ev_id e \<noteq> cm_event_id m) (events s) \<and>
     list_all (\<lambda>d. qd_id d \<noteq> cm_delivery_id m \<and> qd_event_id d \<noteq> cm_event_id m) (queue_deliveries s) \<and>
     list_all (\<lambda>x. oc_event_id x \<noteq> cm_event_id m \<and>
       \<not> (oc_schedule_id x = cm_schedule_id m \<and> oc_scheduled_at x = cm_occurrence_at m)) (queue_occurrences s)"

text \<open>The calls of other schedulers while a claim lasts: claims before it ends, and completions under
  another claim that carry other identifiers.\<close>

definition foreign_schedule :: "time \<Rightarrow> schedule_completion \<Rightarrow> schedule_cmd \<Rightarrow> bool" where
  "foreign_schedule claimUntil m k =
     (case k of
        ClaimCmd locked now _ token limit \<Rightarrow> now < claimUntil
      | CompleteCmd m' \<Rightarrow>
          cm_event_id m' \<noteq> cm_event_id m \<and> cm_delivery_id m' \<noteq> cm_delivery_id m \<and>
          \<not> (cm_schedule_id m' = cm_schedule_id m \<and> cm_claim_token m' = cm_claim_token m \<and>
             cm_claim_generation m' = cm_claim_generation m))"

text \<open>A completion as the scheduler builds it moves the schedule forward.\<close>

definition forward_cmd :: "schedule_cmd \<Rightarrow> bool" where
  "forward_cmd k = (case k of ClaimCmd _ _ _ _ _ \<Rightarrow> True | CompleteCmd m \<Rightarrow> cm_occurrence_at m < cm_next_run_at m)"

definition occurrences_of :: "string \<Rightarrow> time \<Rightarrow> db \<Rightarrow> nat" where
  "occurrences_of scheduleID at s =
     sql_count (\<lambda>x. oc_schedule_id x = scheduleID \<and> oc_scheduled_at x = at) (queue_occurrences s)"

definition deliveries_of :: "string \<Rightarrow> db \<Rightarrow> nat" where
  "deliveries_of eventID s = sql_count (\<lambda>d. qd_event_id d = eventID) (queue_deliveries s)"

lemma find_schedule_in: "find_schedule s i = Some c \<Longrightarrow> c \<in> set (queue_schedules s) \<and> sc_id c = i"
  by (auto simp: find_schedule_def dest: sql_row_Some)

lemma find_scheduleI:
  assumes "schedules_ok s" and "c \<in> set (queue_schedules s)"
  shows "find_schedule s (sc_id c) = Some c"
  using sql_row_key [of sc_id "queue_schedules s" c "sc_id c"] assms by (simp add: find_schedule_def schedules_ok_def)

lemma claim_held_find:
  assumes "schedules_ok s"
  shows "sql_row (claim_held m) (queue_schedules s) = Some c \<longleftrightarrow>
         find_schedule s (cm_schedule_id m) = Some c \<and> claim_held m c"
proof
  assume row: "sql_row (claim_held m) (queue_schedules s) = Some c"
  then have "c \<in> set (queue_schedules s)" and "claim_held m c" by (auto dest: sql_row_Some)
  with find_scheduleI [OF assms, of c] show "find_schedule s (cm_schedule_id m) = Some c \<and> claim_held m c"
    by (simp add: claim_held_def)
next
  assume found: "find_schedule s (cm_schedule_id m) = Some c \<and> claim_held m c"
  then have c: "c \<in> set (queue_schedules s)" "sc_id c = cm_schedule_id m" "claim_held m c"
    using find_schedule_in by auto
  then show "sql_row (claim_held m) (queue_schedules s) = Some c"
    using assms by (intro sql_row_only [of sc_id]) (auto simp: schedules_ok_def claim_held_def)
qed

lemma schedule_row_checks:
  "schedule_check c \<Longrightarrow> schedule_check (claimed_schedule now u token c)"
  "schedule_check c \<Longrightarrow> schedule_check (completed_schedule m c)"
  by (auto simp: schedule_check_def claimed_schedule_def completed_schedule_def)

lemma schedule_row_ids [simp]:
  "sc_id (claimed_schedule now u token c) = sc_id c" "sc_id (completed_schedule m c) = sc_id c"
  "sc_next_run_at (claimed_schedule now u token c) = sc_next_run_at c"
  "sc_next_run_at (completed_schedule m c) = cm_next_run_at m"
  by (simp_all add: claimed_schedule_def completed_schedule_def)

lemma schedules_update:
  assumes "schedules_ok s" and "queue_schedules s' = sql_update P f (queue_schedules s)"
    and "\<forall>c. sc_id (f c) = sc_id c" and "\<forall>c. schedule_check c \<longrightarrow> schedule_check (f c)"
  shows "schedules_ok s'" "find_schedule s' i = map_option (\<lambda>c. if P c then f c else c) (find_schedule s i)"
proof -
  have "map sc_id (sql_update P f (queue_schedules s)) = map sc_id (queue_schedules s)"
    by (rule map_key_sql_update) (simp add: assms(3))
  then show "schedules_ok s'"
    using assms by (auto simp: schedules_ok_def list_all_iff set_sql_update)
  show "find_schedule s' i = map_option (\<lambda>c. if P c then f c else c) (find_schedule s i)"
    using sql_row_sql_update_key [of P sc_id f i "queue_schedules s"] assms(2,3) by (simp add: find_schedule_def)
qed

lemma insert_occurrence_frame:
  assumes "insert_occurrence m c x s = Some s'"
  shows "queue_schedules s' = queue_schedules s" "queue_subscriptions s' = queue_subscriptions s"
    "\<exists>es. set es \<subseteq> {scheduled_event m c x} \<and> events s' = events s @ es"
    "\<exists>ds. set ds \<subseteq> {scheduled_delivery m c x} \<and> queue_deliveries s' = queue_deliveries s @ ds"
    "queue_occurrences s' = queue_occurrences s @
       [\<lparr>oc_schedule_id = sc_id c, oc_scheduled_at = cm_occurrence_at m, oc_event_id = cm_event_id m, oc_created_at = cm_now m\<rparr>]"
  using assms unfolding insert_occurrence_def Let_def by (auto split: if_splits)

text \<open>A completion that fails changes nothing; one that succeeds held the claim on the occurrence.\<close>

lemma Complete_cases:
  assumes "CompleteQueueSchedule s m = (r, s')"
  obtains (failed) e where "r = Inl e" and "s' = s"
  | (recorded) c where "r = Inr ()" and "sql_row (claim_held m) (queue_schedules s) = Some c"
      and "sc_next_run_at c = cm_occurrence_at m"
      and "s' = s\<lparr>queue_schedules := sql_update (claim_held m) (completed_schedule m) (queue_schedules s)\<rparr>"
  | (inserted) c x s1 where "r = Inr ()" and "sql_row (claim_held m) (queue_schedules s) = Some c"
      and "sc_next_run_at c = cm_occurrence_at m" and "insert_occurrence m c x s = Some s1"
      and "s' = s1\<lparr>queue_schedules := sql_update (claim_held m) (completed_schedule m) (queue_schedules s)\<rparr>"
proof (cases r)
  case (Inl e)
  then have "s' = s" using assms unfolding CompleteQueueSchedule_def by (simp split: option.splits if_splits)
  with Inl show thesis by (rule failed)
next
  case (Inr u)
  note row = assms [unfolded CompleteQueueSchedule_def Inr]
  obtain c where c: "sql_row (claim_held m) (queue_schedules s) = Some c"
    using row by (cases "sql_row (claim_held m) (queue_schedules s)") simp_all
  obtain q where q: "sql_row (\<lambda>q. qs_id q = sc_subscription_id c \<and> qs_app_id q = sc_app_id c) (queue_subscriptions s) = Some q"
    using row c by (cases "sql_row (\<lambda>q. qs_id q = sc_subscription_id c \<and> qs_app_id q = sc_app_id c) (queue_subscriptions s)") simp_all
  have next': "sc_next_run_at c = cm_occurrence_at m" using row c q by (simp split: if_splits)
  define x where "x = cm_occurrence_at m + qs_retention_seconds q * second"
  define known where "known = sql_exists (\<lambda>x. oc_schedule_id x = sc_id c \<and> oc_scheduled_at x = cm_occurrence_at m) (queue_occurrences s)"
  obtain s1 where s1: "(if known then Some s else insert_occurrence m c x s) = Some s1"
      and s': "s' = s1\<lparr>queue_schedules := sql_update (claim_held m) (completed_schedule m) (queue_schedules s1)\<rparr>"
    using row next' unfolding c q option.case known_def [symmetric] x_def [symmetric]
    by (cases "if known then Some s else insert_occurrence m c x s") (simp_all split: if_splits)
  show thesis
  proof (cases known)
    case True
    then show ?thesis using recorded [OF _ c next'] s1 s' Inr by simp
  next
    case False
    with s1 have ins: "insert_occurrence m c x s = Some s1" by simp
    from inserted [OF _ c next' ins] s' insert_occurrence_frame(1) [OF ins] Inr show ?thesis by simp
  qed
qed


lemma exec_schedule_ok:
  assumes "schedules_ok s"
  shows "schedules_ok (exec_schedule k s)"
proof (cases k)
  case (ClaimCmd locked now u token limit)
  then show ?thesis
    by (auto simp: exec_schedule_def ClaimDueQueueSchedules_def Let_def schedule_row_checks
        intro!: schedules_update(1) [OF assms])
next
  case (CompleteCmd m)
  obtain r s' where run: "CompleteQueueSchedule s m = (r, s')" by fastforce
  have "schedules_ok s'"
    by (rule Complete_cases [OF run])
      (auto simp: schedule_row_checks assms intro!: schedules_update(1) [OF assms])
  with run CompleteCmd show ?thesis by (simp add: exec_schedule_def)
qed

lemma exec_schedule_subscriptions [simp]:
  "queue_subscriptions (exec_schedule k s) = queue_subscriptions s"
proof (cases k)
  case (CompleteCmd m)
  obtain r s' where run: "CompleteQueueSchedule s m = (r, s')" by fastforce
  have "queue_subscriptions s' = queue_subscriptions s"
    by (rule Complete_cases [OF run]) (auto dest: insert_occurrence_frame(2))
  with run CompleteCmd show ?thesis by (simp add: exec_schedule_def)
qed (simp add: exec_schedule_def ClaimDueQueueSchedules_def Let_def)

lemma exec_schedules_keep:
  assumes "schedules_ok s"
  shows "schedules_ok (exec_schedules ks s)" "queue_subscriptions (exec_schedules ks s) = queue_subscriptions s"
  using assms by (induction ks arbitrary: s) (auto simp: exec_schedules_def exec_schedule_ok)

text \<open>The row of a schedule after a call.\<close>

lemma due_schedules_in: "c \<in> set (due_schedules locked s now limit) \<Longrightarrow> c \<in> set (queue_schedules s) \<and> due_schedule s now c"
  by (auto simp: due_schedules_def dest: in_set_takeD)

lemma find_after_claim:
  assumes "schedules_ok s"
  shows "find_schedule (exec_schedule (ClaimCmd locked now u token limit) s) i =
         map_option (\<lambda>c. if c \<in> set (due_schedules locked s now limit) then claimed_schedule now u token c else c)
           (find_schedule s i)"
proof -
  let ?due = "due_schedules locked s now limit"
  have eq: "sc_id c \<in> set (map sc_id ?due) \<longleftrightarrow> c \<in> set ?due" if "c \<in> set (queue_schedules s)" for c
    using that due_schedules_in distinct_key_unique [of sc_id "queue_schedules s"] assms
    by (auto simp: schedules_ok_def) blast
  have "find_schedule (exec_schedule (ClaimCmd locked now u token limit) s) i =
        map_option (\<lambda>c. if sc_id c \<in> set (map sc_id ?due) then claimed_schedule now u token c else c) (find_schedule s i)"
    by (rule schedules_update(2) [OF assms])
      (simp_all add: exec_schedule_def ClaimDueQueueSchedules_def Let_def schedule_row_checks)
  then show ?thesis using eq find_schedule_in [of s i] by (cases "find_schedule s i") auto
qed

lemma find_after_complete:
  assumes "schedules_ok s" and "CompleteQueueSchedule s m = (Inr (), s')"
  shows "find_schedule s' i = map_option (\<lambda>c. if claim_held m c then completed_schedule m c else c) (find_schedule s i)"
  by (rule Complete_cases [OF assms(2)]) (auto simp: schedule_row_checks intro!: schedules_update(2) [OF assms(1)])

lemma find_foreign:
  assumes "schedules_ok s" and "foreign_schedule u m k"
    and "find_schedule s (cm_schedule_id m) = Some c" and "claim_held m c" and "sc_claim_expires_at c = Some u"
  shows "find_schedule (exec_schedule k s) (cm_schedule_id m) = Some c"
proof (cases k)
  case (ClaimCmd locked now u' token limit)
  have "c \<notin> set (due_schedules locked s now limit)"
    using due_schedules_in [of c locked s now limit] assms(2,5) ClaimCmd
    by (auto simp: due_schedule_def foreign_schedule_def)
  then show ?thesis using find_after_claim [OF assms(1)] assms(3) ClaimCmd by simp
next
  case (CompleteCmd m')
  obtain r s' where run: "CompleteQueueSchedule s m' = (r, s')" by fastforce
  have "\<not> claim_held m' c" using assms(2,4) CompleteCmd by (auto simp: foreign_schedule_def claim_held_def)
  then have "find_schedule s' (cm_schedule_id m) = Some c"
    using find_after_complete [OF assms(1), of m' s' "cm_schedule_id m"] run assms(3)
    by (cases rule: Complete_cases [OF run]) auto
  with run CompleteCmd show ?thesis by (simp add: exec_schedule_def)
qed

lemma unused_foreign:
  assumes "schedules_ok s" and "foreign_schedule u m k" and "ids_unused m s"
    and "find_schedule s (cm_schedule_id m) = Some c" and "claim_held m c"
  shows "ids_unused m (exec_schedule k s)"
proof (cases k)
  case (ClaimCmd locked now u' token limit)
  then show ?thesis using assms(3)
    by (simp add: exec_schedule_def ClaimDueQueueSchedules_def Let_def ids_unused_def)
next
  case (CompleteCmd m')
  obtain r s' where run: "CompleteQueueSchedule s m' = (r, s')" by fastforce
  have ids: "cm_event_id m' \<noteq> cm_event_id m" "cm_delivery_id m' \<noteq> cm_delivery_id m"
    using assms(2) CompleteCmd by (auto simp: foreign_schedule_def)
  have "ids_unused m s'"
  proof (cases rule: Complete_cases [OF run, case_names failed recorded inserted])
    case (inserted c' x s1)
    have c': "find_schedule s (cm_schedule_id m') = Some c'" "claim_held m' c'"
      using inserted(2) claim_held_find [OF assms(1), of m' c'] by auto
    have other: "cm_schedule_id m' \<noteq> cm_schedule_id m"
      using c' assms(2,4,5) CompleteCmd by (auto simp: foreign_schedule_def claim_held_def)
    have "sc_id c' = cm_schedule_id m'" using c'(2) by (simp add: claim_held_def)
    moreover obtain es where es: "set es \<subseteq> {scheduled_event m' c' x}" "events s1 = events s @ es"
      using insert_occurrence_frame(3) [OF inserted(4)] by blast
    moreover have "list_all (\<lambda>e. ev_id e \<noteq> cm_event_id m) es"
      using es(1) ids by (auto simp: list_all_iff scheduled_event_def dest!: subsetD)
    moreover obtain ds where ds: "set ds \<subseteq> {scheduled_delivery m' c' x}" "queue_deliveries s1 = queue_deliveries s @ ds"
      using insert_occurrence_frame(4) [OF inserted(4)] by blast
    moreover have "list_all (\<lambda>d. qd_id d \<noteq> cm_delivery_id m \<and> qd_event_id d \<noteq> cm_event_id m) ds"
      using ds(1) ids by (auto simp: list_all_iff scheduled_delivery_def dest!: subsetD)
    ultimately show ?thesis
      using insert_occurrence_frame(5) [OF inserted(4)] inserted(5) assms(3) ids other
      by (simp add: ids_unused_def)
  qed (use assms(3) in \<open>auto simp: ids_unused_def\<close>)
  with run CompleteCmd show ?thesis by (simp add: exec_schedule_def)
qed

lemma foreign_run:
  assumes "schedules_ok s" and "list_all (foreign_schedule u m) ks" and "ids_unused m s"
    and "find_schedule s (cm_schedule_id m) = Some c" and "claim_held m c" and "sc_claim_expires_at c = Some u"
  shows "find_schedule (exec_schedules ks s) (cm_schedule_id m) = Some c \<and> ids_unused m (exec_schedules ks s)"
  using assms
proof (induction ks arbitrary: s)
  case (Cons k ks)
  have "foreign_schedule u m k" using Cons.prems(2) by simp
  note step = find_foreign [OF Cons.prems(1) this Cons.prems(4,5,6)]
    unused_foreign [OF Cons.prems(1) this Cons.prems(3,4,5)] exec_schedule_ok [OF Cons.prems(1)]
  from Cons.IH [OF step(3) _ step(2) step(1) Cons.prems(5,6)] Cons.prems(2) show ?case
    by (simp add: exec_schedules_def)
qed (simp add: exec_schedules_def)

text \<open>With its identifiers unused, a completion under the claim inserts the occurrence.\<close>

lemma Complete_holder:
  assumes "schedules_ok s" and "find_schedule s (cm_schedule_id m) = Some c" and "claim_held m c"
    and "sc_next_run_at c = cm_occurrence_at m" and "ids_unused m s"
    and "sql_exists (\<lambda>q. qs_id q = sc_subscription_id c \<and> qs_app_id q = sc_app_id c) (queue_subscriptions s)"
  shows "\<exists>s'. CompleteQueueSchedule s m = (Inr (), s') \<and> occurrences_of (cm_schedule_id m) (cm_occurrence_at m) s' = 1 \<and>
    deliveries_of (cm_event_id m) s' = 1"
proof -
  have row: "sql_row (claim_held m) (queue_schedules s) = Some c"
    using claim_held_find [OF assms(1)] assms(2,3) by blast
  obtain q where q: "sql_row (\<lambda>q. qs_id q = sc_subscription_id c \<and> qs_app_id q = sc_app_id c) (queue_subscriptions s) = Some q"
    using assms(6) by (cases "sql_row (\<lambda>q. qs_id q = sc_subscription_id c \<and> qs_app_id q = sc_app_id c) (queue_subscriptions s)")
      (auto simp: sql_row_None)
  have sid: "sc_id c = cm_schedule_id m" using assms(3) by (simp add: claim_held_def)
  have "c \<in> set (queue_schedules s)" using find_schedule_in [OF assms(2)] by simp
  then have check: "schedule_check c" using assms(1) by (auto simp: schedules_ok_def list_all_iff)
  have one: "sql_count (claim_held m) (queue_schedules s) = 1"
    using find_schedule_in [OF assms(2)] assms(1,3)
    by (intro sql_count_key_1 [of sc_id _ c]) (auto simp: schedules_ok_def claim_held_def)
  define x where "x = cm_occurrence_at m + qs_retention_seconds q * second"
  have ev: "event_check (scheduled_event m c x)"
    using check by (simp add: event_check_def scheduled_event_def schedule_check_def)
  have ins: "\<exists>s1. insert_occurrence m c x s = Some s1 \<and> queue_deliveries s1 = queue_deliveries s @ [scheduled_delivery m c x]"
    using ev assms(5) sid by (auto simp: insert_occurrence_def Let_def ids_unused_def list_all_iff scheduled_delivery_def)
  then obtain s1 where s1: "insert_occurrence m c x s = Some s1"
      "queue_deliveries s1 = queue_deliveries s @ [scheduled_delivery m c x]" by blast
  have none: "\<not> sql_exists (\<lambda>y. oc_schedule_id y = sc_id c \<and> oc_scheduled_at y = cm_occurrence_at m) (queue_occurrences s)"
    using assms(5) sid by (auto simp: ids_unused_def list_all_iff)
  define s' where "s' = s1\<lparr>queue_schedules := sql_update (claim_held m) (completed_schedule m) (queue_schedules s1)\<rparr>"
  have run: "CompleteQueueSchedule s m = (Inr (), s')"
    unfolding CompleteQueueSchedule_def row q option.case if_not_P [OF none] x_def [symmetric] s1(1)
    using assms(4) one insert_occurrence_frame(1) [OF s1(1)] by (simp add: s'_def)
  have "sql_count (\<lambda>x. oc_schedule_id x = cm_schedule_id m \<and> oc_scheduled_at x = cm_occurrence_at m) (queue_occurrences s) = 0"
       "sql_count (\<lambda>d. qd_event_id d = cm_event_id m) (queue_deliveries s) = 0"
    using assms(5) by (auto simp: sql_count_0_iff ids_unused_def list_all_iff)
  then have "occurrences_of (cm_schedule_id m) (cm_occurrence_at m) s' = 1" "deliveries_of (cm_event_id m) s' = 1"
    using insert_occurrence_frame(5) [OF s1(1)] s1(2) sid
    by (simp_all add: occurrences_of_def deliveries_of_def s'_def sql_count_def scheduled_delivery_def)
  with run show ?thesis by blast
qed

text \<open>Schedules only move forward.\<close>

lemma forward_step:
  assumes "schedules_ok s" and "forward_cmd k" and "find_schedule s i = Some c" and "t < sc_next_run_at c"
  shows "\<exists>c'. find_schedule (exec_schedule k s) i = Some c' \<and> t < sc_next_run_at c'"
proof (cases k)
  case (ClaimCmd locked now u token limit)
  then show ?thesis using find_after_claim [OF assms(1)] assms(3,4) by simp
next
  case (CompleteCmd m)
  obtain r s' where run: "CompleteQueueSchedule s m = (r, s')" by fastforce
  have "\<exists>c'. find_schedule s' i = Some c' \<and> t < sc_next_run_at c'"
  proof (cases r)
    case (Inl e)
    with run have "s' = s" by (auto elim: Complete_cases)
    with assms show ?thesis by simp
  next
    case (Inr u)
    then have ok: "CompleteQueueSchedule s m = (Inr (), s')" using run by simp
    have "sc_next_run_at c = cm_occurrence_at m" if held: "claim_held m c"
    proof -
      have "find_schedule s (cm_schedule_id m) = Some c"
        using held find_schedule_in [OF assms(3)] assms(3) by (auto simp: claim_held_def)
      then have "sql_row (claim_held m) (queue_schedules s) = Some c"
        using claim_held_find [OF assms(1)] held by blast
      then show ?thesis by (auto intro: Complete_cases [OF ok])
    qed
    then show ?thesis using find_after_complete [OF assms(1) ok, of i] assms CompleteCmd by (auto simp: forward_cmd_def)
  qed
  with run CompleteCmd show ?thesis by (simp add: exec_schedule_def)
qed

lemma forward_run:
  assumes "schedules_ok s" and "list_all forward_cmd ks" and "find_schedule s i = Some c" and "t < sc_next_run_at c"
  shows "\<exists>c'. find_schedule (exec_schedules ks s) i = Some c' \<and> t < sc_next_run_at c'"
  using assms
proof (induction ks arbitrary: s c)
  case (Cons k ks)
  obtain c' where "find_schedule (exec_schedule k s) i = Some c'" "t < sc_next_run_at c'"
    using forward_step [OF Cons.prems(1) _ Cons.prems(3,4), of k] Cons.prems(2) by auto
  from Cons.IH [OF exec_schedule_ok [OF Cons.prems(1)] _ this] Cons.prems(2) show ?case
    by (simp add: exec_schedules_def)
qed (simp add: exec_schedules_def)

lemma Complete_passed:
  assumes "schedules_ok s" and "find_schedule s (cm_schedule_id m) = Some c" and "cm_occurrence_at m < sc_next_run_at c"
  shows "CompleteQueueSchedule s m = (Inl ErrConflict, s)"
proof (cases "sql_row (claim_held m) (queue_schedules s)")
  case (Some c')
  then have "c' = c" using claim_held_find [OF assms(1), of m c'] assms(2) by simp
  with Some assms(3) show ?thesis by (simp add: CompleteQueueSchedule_def split: option.splits)
qed (simp add: CompleteQueueSchedule_def)

lemma claimed_items:
  assumes "schedules_ok s" and "ClaimDueQueueSchedules locked s now u token limit = (items, s1)" and "item \<in> set items"
  shows "find_schedule s1 (sc_id item) = Some item" "sc_claim_token item = Some token"
    "sc_claim_expires_at item = Some u" "schedules_ok s1"
    "sql_exists (\<lambda>q. qs_id q = sc_subscription_id item \<and> qs_app_id q = sc_app_id item) (queue_subscriptions s1)"
proof -
  have s1: "s1 = exec_schedule (ClaimCmd locked now u token limit) s" using assms(2) by (simp add: exec_schedule_def)
  obtain c where c: "c \<in> set (due_schedules locked s now limit)" "item = claimed_schedule now u token c"
    using assms(2,3) by (auto simp: ClaimDueQueueSchedules_def Let_def)
  have due: "c \<in> set (queue_schedules s)" "due_schedule s now c" using due_schedules_in [OF c(1)] by auto
  then show "find_schedule s1 (sc_id item) = Some item"
    using find_after_claim [OF assms(1)] find_scheduleI [OF assms(1) due(1)] c by (simp add: s1)
  show "sc_claim_token item = Some token" "sc_claim_expires_at item = Some u"
    by (simp_all add: c(2) claimed_schedule_def)
  show "schedules_ok s1" using exec_schedule_ok [OF assms(1)] by (simp add: s1)
  show "sql_exists (\<lambda>q. qs_id q = sc_subscription_id item \<and> qs_app_id q = sc_app_id item) (queue_subscriptions s1)"
    using due(2) by (auto simp: due_schedule_def s1 c(2) claimed_schedule_def)
qed

lemma completion_of_simps:
  assumes "m = completion_of lib sha at item"
  shows "cm_schedule_id m = sc_id item" "cm_claim_token m = queueStringValue (sc_claim_token item)"
    "cm_claim_generation m = sc_claim_generation item" "cm_occurrence_at m = sc_next_run_at item"
    "cm_next_run_at m = cl_next lib (sc_cron_expression item) (sc_timezone item) (sc_next_run_at item)"
  using assms by (simp_all add: completion_of_def split_beta)

section \<open>Each occurrence fires once\<close>


definition example_schedule :: queue_schedule where
  "example_schedule =
     \<lparr>sc_id = ''s'', sc_app_id = ''b'', sc_subscription_id = ''q'', sc_name = ''nightly'', sc_enabled = True,
      sc_cron_expression = ''* * * * *'', sc_timezone = ''UTC'', sc_event_type = ''t'', sc_data = ''{}'',
      sc_ordering_key = None, sc_priority = 0, sc_metadata = ''{}'', sc_next_run_at = minute, sc_last_run_at = None,
      sc_claim_token = None, sc_claim_expires_at = None, sc_claim_generation = 0, sc_policy_version = 1,
      sc_created_at = 0, sc_updated_at = 0\<rparr>"

definition schedule_db :: db where
  "schedule_db = empty_db\<lparr>queue_subscriptions := [example_subscription], queue_schedules := [example_schedule]\<rparr>"

text \<open>The expression of the example runs every minute.\<close>

definition every_minute :: cron_lib where
  "every_minute = \<lparr>cl_parse = (\<lambda>x. x = ''* * * * *''), cl_location = (\<lambda>z. z = ''UTC''),
     cl_next = (\<lambda>x z t. (t div minute + 1) * minute)\<rparr>"

definition example_claim :: queue_schedule where
  "example_claim = claimed_schedule (61 * second) (76 * second) ''one'' example_schedule"

definition other_scheduler :: "schedule_cmd list" where
  "other_scheduler =
     [ClaimCmd {} (62 * second) (77 * second) ''two'' 32,
      CompleteCmd ((completion_of every_minute rev (62 * second) example_claim)
        \<lparr>cm_claim_token := ''two'', cm_event_id := ''x'', cm_delivery_id := ''y''\<rparr>)]"


end
