(* ===== verification/QueueService.thy ===== *)
theory QueueService
  imports QueueSchedules
begin

text \<open>
  The queue service, \<^verbatim>\<open>service/queue.go\<close> and the schedule handlers of \<^verbatim>\<open>service/queue_schedule.go\<close>, on the
  store of the theories \<^verbatim>\<open>Queue\<close> and \<^verbatim>\<open>QueueSchedules\<close>.  A handler returns its result, the database and
  the records it hands to the audit log (a failing audit writer is ignored).  \<open>queue_options\<close> holds what the
  service's options give during one call: the clock, the identifier a new row takes, the audit writer.
\<close>

section \<open>Inputs and options\<close>

record subscription_input =
  qi_name :: string
  qi_enabled :: "bool option"
  qi_event_types :: "string list"
  qi_max_attempts :: int
  qi_default_visibility_seconds :: int
  qi_max_visibility_seconds :: int
  qi_max_total_lease_seconds :: int
  qi_retention_seconds :: int
  qi_max_in_flight :: int
  qi_max_batch_size :: int
  qi_retry_delay_seconds :: "int option"
  qi_ordering_mode :: string
  qi_deduplication_seconds :: int
  qi_max_dispatch_rate :: "int option"
  qi_success_callback_url :: "string option"
  qi_failure_callback_url :: "string option"
  qi_result_callback_metadata :: string

record pull_input =
  pi_max_messages :: int
  pi_wait_seconds :: int
  pi_visibility_seconds :: int

record settle_item =
  si_receipt :: string
  si_disposition :: string
  si_delay_seconds :: int
  si_reason :: string

record extend_item =
  xi_receipt :: string
  xi_extension_seconds :: int

record queue_options =
  qo_now :: time
  qo_new_id :: string
  qo_audit :: bool
  qo_audit_at :: time
  qo_allow_insecure_callbacks :: bool
  qo_urls :: url_lib

type_synonym 'a handled = "(service_error + 'a) \<times> db \<times> audit_record list"

section \<open>Policies\<close>

definition queueName :: "string \<Rightarrow> bool" where
  "queueName name =
     (case name of
        [] \<Rightarrow> False
      | c # r \<Rightarrow>
          (is_upper c \<or> is_lower c) \<and> length r \<le> 63 \<and>
          list_all (\<lambda>c. is_upper c \<or> is_lower c \<or> is_digit c \<or> c = CHR ''_'' \<or> c = CHR ''.'' \<or> c = CHR ''-'') r)"

definition default_to :: "'a \<Rightarrow> 'a \<Rightarrow> 'a \<Rightarrow> 'a" where
  "default_to zero v x = (if x = zero then v else x)"

definition subscriptionFromInput :: "subscription_input \<Rightarrow> queue_subscription" where
  "subscriptionFromInput input =
     \<lparr>qs_id = [], qs_app_id = [], qs_name = go_trim_space (qi_name input), qs_enabled = coalesce (qi_enabled input) True,
      qs_paused_at = None, qs_draining_at = None, qs_drain_deadline_at = None, qs_drained_at = None,
      qs_event_types = sort (map go_trim_space (qi_event_types input)),
      qs_max_attempts = default_to 0 10 (qi_max_attempts input),
      qs_default_visibility_seconds = default_to 0 60 (qi_default_visibility_seconds input),
      qs_max_visibility_seconds = default_to 0 300 (qi_max_visibility_seconds input),
      qs_max_total_lease_seconds = default_to 0 3600 (qi_max_total_lease_seconds input),
      qs_retention_seconds = default_to 0 604800 (qi_retention_seconds input),
      qs_max_in_flight = default_to 0 100 (qi_max_in_flight input),
      qs_max_batch_size = default_to 0 20 (qi_max_batch_size input),
      qs_retry_delay_seconds = coalesce (qi_retry_delay_seconds input) 5,
      qs_ordering_mode = default_to [] ''none'' (qi_ordering_mode input),
      qs_deduplication_seconds = qi_deduplication_seconds input, qs_max_dispatch_rate = qi_max_dispatch_rate input,
      qs_success_callback_url = qi_success_callback_url input, qs_failure_callback_url = qi_failure_callback_url input,
      qs_result_callback_metadata = default_to [] ''{}'' (qi_result_callback_metadata input),
      qs_policy_version = 0, qs_created_at = zero_time, qs_updated_at = zero_time\<rparr>"

fun valid_event_types :: "string list \<Rightarrow> bool" where
  "valid_event_types [] = True"
| "valid_event_types [t] = (t \<noteq> [] \<and> length t \<le> 128)"
| "valid_event_types (t # u # ts) = (t \<noteq> [] \<and> length t \<le> 128 \<and> u \<noteq> t \<and> valid_event_types (u # ts))"

definition validQueueSubscription :: "queue_subscription \<Rightarrow> bool" where
  "validQueueSubscription item =
     (if \<not> queueName (qs_name item) \<or> qs_max_attempts item < 1 \<or> qs_max_attempts item > 100 \<or>
         qs_default_visibility_seconds item < 1 \<or> qs_default_visibility_seconds item > 900 \<or>
         qs_max_visibility_seconds item < qs_default_visibility_seconds item \<or> qs_max_visibility_seconds item > 3600 \<or>
         qs_max_total_lease_seconds item < qs_max_visibility_seconds item \<or> qs_max_total_lease_seconds item > 86400 \<or>
         qs_retention_seconds item < 60 \<or> qs_retention_seconds item > 2592000 \<or>
         qs_max_in_flight item < 1 \<or> qs_max_in_flight item > 10000 \<or>
         qs_max_batch_size item < 1 \<or> qs_max_batch_size item > 100 \<or>
         qs_retry_delay_seconds item < 0 \<or> qs_retry_delay_seconds item > 86400 \<or>
         (qs_ordering_mode item \<noteq> ''none'' \<and> qs_ordering_mode item \<noteq> ''key'') \<or>
         qs_deduplication_seconds item < 0 \<or> qs_deduplication_seconds item > 86400 \<or>
         length (qs_event_types item) > 100 \<or> \<not> JSONObject (qs_result_callback_metadata item) \<or>
         length (qs_result_callback_metadata item) > 4096 \<or> containsSecretField (qs_result_callback_metadata item)
      then False
      else
        (case qs_max_dispatch_rate item of
           Some rate \<Rightarrow> if rate < 1 \<or> rate > 100000 then False else valid_event_types (qs_event_types item)
         | None \<Rightarrow> valid_event_types (qs_event_types item)))"

definition validQueueCallbacks :: "queue_options \<Rightarrow> queue_subscription \<Rightarrow> bool" where
  "validQueueCallbacks opts item \<longleftrightarrow>
     validCallbackURL (qo_urls opts) (qo_allow_insecure_callbacks opts) (qs_success_callback_url item) \<and>
     validCallbackURL (qo_urls opts) (qo_allow_insecure_callbacks opts) (qs_failure_callback_url item)"

definition audit :: "queue_options \<Rightarrow> string \<Rightarrow> string \<Rightarrow> string \<Rightarrow> string \<Rightarrow> string list \<Rightarrow> audit_record list" where
  "audit opts appID action resourceType resourceID changed =
     (if qo_audit opts
      then [\<lparr>ar_occurred_at = qo_audit_at opts, ar_actor_type = ''app'', ar_actor_id = appID, ar_action = action,
             ar_resource_type = resourceType, ar_resource_id = resourceID, ar_outcome = ''success'',
             ar_metadata = object_text [(''changed_fields'', string_list_text changed)]\<rparr>]
      else [])"

text \<open>The answer of a write: the audit record is written when the store has succeeded.\<close>

definition audited :: "audit_record list \<Rightarrow> (store_error + 'a) \<times> db \<Rightarrow> 'a handled" where
  "audited records r =
     (case r of (Inl e, s) \<Rightarrow> (Inl (mapStoreError e), s, []) | (Inr x, s) \<Rightarrow> (Inr x, s, records))"

section \<open>Subscriptions\<close>

definition QueueService_Create :: "queue_options \<Rightarrow> db \<Rightarrow> string \<Rightarrow> subscription_input \<Rightarrow> queue_subscription handled" where
  "QueueService_Create opts s appID input =
     (if appID = [] then (Inl SvcInvalidDependency, s, [])
      else
        let now = qo_now opts;
            item = (subscriptionFromInput input)
              \<lparr>qs_id := qo_new_id opts, qs_app_id := appID, qs_policy_version := 1, qs_created_at := now, qs_updated_at := now\<rparr> in
        if \<not> validQueueSubscription item \<or> \<not> validQueueCallbacks opts item then (Inl SvcInvalidInput, s, [])
        else
          (case CreateQueueSubscription s item of
             (Inl e, s') \<Rightarrow> (Inl (mapStoreError e), s', [])
           | (Inr _, s') \<Rightarrow>
               (Inr item, s', audit opts appID ''queue.subscription.create'' ''queue_subscription'' (qs_id item) [''created''])))"

definition QueueService_List :: "db \<Rightarrow> string \<Rightarrow> service_error + queue_subscription list" where
  "QueueService_List s appID = (if appID = [] then Inl SvcInvalidDependency else Inr (ListQueueSubscriptions s appID))"

definition QueueService_Get :: "db \<Rightarrow> string \<Rightarrow> string \<Rightarrow> service_error + queue_subscription" where
  "QueueService_Get s appID i =
     (if appID = [] \<or> i = [] then Inl SvcInvalidInput else map_store (GetQueueSubscription s appID i))"

definition QueueService_Update ::
    "queue_options \<Rightarrow> db \<Rightarrow> string \<Rightarrow> string \<Rightarrow> int \<Rightarrow> subscription_input \<Rightarrow> queue_subscription handled" where
  "QueueService_Update opts s appID i expectedVersion input =
     (if appID = [] \<or> i = [] \<or> expectedVersion < 1 then (Inl SvcInvalidInput, s, [])
      else
        (case GetQueueSubscription s appID i of
           Inl e \<Rightarrow> (Inl (mapStoreError e), s, [])
         | Inr current \<Rightarrow>
             let item = subscriptionFromInput input;
                 updated = item
                   \<lparr>qs_id := qs_id current, qs_app_id := qs_app_id current, qs_created_at := qs_created_at current,
                    qs_updated_at := qo_now opts,
                    qs_paused_at := (if qs_enabled item then qs_paused_at current else None),
                    qs_draining_at := qs_draining_at current, qs_drain_deadline_at := qs_drain_deadline_at current,
                    qs_drained_at := qs_drained_at current\<rparr> in
             if \<not> validQueueSubscription updated \<or> \<not> validQueueCallbacks opts updated then (Inl SvcInvalidInput, s, [])
             else audited (audit opts appID ''queue.subscription.update'' ''queue_subscription'' i [''policy''])
                    (UpdateQueueSubscription s updated expectedVersion)))"

definition QueueService_BeginDrain :: "queue_options \<Rightarrow> db \<Rightarrow> string \<Rightarrow> string \<Rightarrow> int \<Rightarrow> queue_drain handled" where
  "QueueService_BeginDrain opts s appID subscriptionID timeoutSeconds =
     (if appID = [] \<or> subscriptionID = [] \<or> timeoutSeconds < 0 \<or> timeoutSeconds > 3600 then (Inl SvcInvalidInput, s, [])
      else
        let seconds = default_to 0 30 timeoutSeconds; now = qo_now opts in
        audited (audit opts appID ''queue.subscription.drain'' ''queue_subscription'' subscriptionID
                   [''draining_at'', ''drain_deadline_at''])
          (BeginQueueDrain s appID subscriptionID now (now + seconds * second)))"

definition QueueService_DrainStatus :: "queue_options \<Rightarrow> db \<Rightarrow> string \<Rightarrow> string \<Rightarrow> queue_drain handled" where
  "QueueService_DrainStatus opts s appID subscriptionID =
     (if appID = [] \<or> subscriptionID = [] then (Inl SvcInvalidInput, s, [])
      else audited [] (GetQueueDrain s appID subscriptionID (qo_now opts)))"

definition QueueService_CallbackOutcomes ::
    "db \<Rightarrow> string \<Rightarrow> string \<Rightarrow> int \<Rightarrow> service_error + result_callback list" where
  "QueueService_CallbackOutcomes s appID subscriptionID limit =
     (if appID = [] \<or> subscriptionID = [] \<or> limit < 1 \<or> limit > 100 then Inl SvcInvalidInput
      else Inr (ListQueueResultCallbacks s appID subscriptionID (nat limit)))"

definition QueueService_Pause :: "queue_options \<Rightarrow> db \<Rightarrow> string \<Rightarrow> string \<Rightarrow> bool \<Rightarrow> queue_subscription handled" where
  "QueueService_Pause opts s appID i paused =
     (case QueueService_Get s appID i of
        Inl e \<Rightarrow> (Inl e, s, [])
      | Inr current \<Rightarrow>
          if \<not> qs_enabled current \<and> paused then (Inl SvcConflict, s, [])
          else
            let now = qo_now opts;
                item = current\<lparr>qs_updated_at := now, qs_paused_at := (if paused then Some now else None)\<rparr> in
            audited (audit opts appID (if paused then ''queue.subscription.pause'' else ''queue.subscription.resume'')
                       ''queue_subscription'' i [''paused_at''])
              (UpdateQueueSubscription s item (qs_policy_version current)))"

definition QueueService_Delete :: "queue_options \<Rightarrow> db \<Rightarrow> string \<Rightarrow> string \<Rightarrow> unit handled" where
  "QueueService_Delete opts s appID i =
     (if appID = [] \<or> i = [] then (Inl SvcInvalidInput, s, [])
      else audited (audit opts appID ''queue.subscription.delete'' ''queue_subscription'' i [''deleted''])
             (DeleteQueueSubscription s appID i))"

section \<open>Pulling\<close>

text \<open>\<open>random k\<close> is the \<open>k\<close>-th read of 32 bytes, \<open>None\<close> when it fails.\<close>

definition receipts :: "(nat \<Rightarrow> string option) \<Rightarrow> nat \<Rightarrow> service_error + string list" where
  "receipts random count =
     (if list_all (\<lambda>k. random k \<noteq> None) [0..<count]
      then Inr (map (\<lambda>k. b64_encode (the (random k))) [0..<count]) else Inl SvcRandom)"

text \<open>
  One round of the polling loop, as the surroundings determine it: what other clients do to the database before
  it, the clock of the service, the random bytes; when the call of the store begins and ends on the clock that
  contexts use; whether the caller's context has been cancelled before the call or during the wait after it,
  whether the call is interrupted, and which case of the \<^verbatim>\<open>select\<close> runs.
\<close>

record poll_round =
  pr_between :: "db \<Rightarrow> db"
  pr_locked :: "string set"
  pr_now :: time
  pr_random :: "nat \<Rightarrow> string option"
  pr_begin :: time
  pr_end :: time
  pr_cancelled :: bool
  pr_interrupted :: bool
  pr_done :: bool
  pr_cancelled_waiting :: bool

text \<open>A call made under a context that has ended fails.  \<open>fuel\<close> bounds the number of rounds.\<close>

fun poll ::
    "(string \<Rightarrow> string) \<Rightarrow> (string \<Rightarrow> string) \<Rightarrow> string \<Rightarrow> string \<Rightarrow> pull_input \<Rightarrow> time \<Rightarrow> (nat \<Rightarrow> poll_round) \<Rightarrow> nat \<Rightarrow> nat \<Rightarrow> db
     \<Rightarrow> ((service_error + queue_message list) \<times> db) option" where
  "poll sha md5 appID subscriptionID input deadline rounds i 0 s = None"
| "poll sha md5 appID subscriptionID input deadline rounds i (Suc fuel) s =
     (let r = rounds i; waiting = (pi_wait_seconds input > 0); s0 = pr_between r s in
      case receipts (pr_random r) (nat (pi_max_messages input)) of
        Inl e \<Rightarrow> Some (Inl e, s0)
      | Inr rs \<Rightarrow>
          let req = \<lparr>pq_app_id = appID, pq_subscription_id = subscriptionID, pq_limit = pi_max_messages input,
                     pq_visibility = pi_visibility_seconds input * second, pq_now = pr_now r, pq_receipts = rs\<rparr>;
              failed = (pr_cancelled r \<or> pr_interrupted r \<or> waiting \<and> deadline \<le> pr_begin r);
              (result, s1) = (if failed then (Inl ErrDB, s0) else PullQueueDeliveries sha md5 (pr_locked r) s0 req) in
          (case result of
             Inl e \<Rightarrow>
               if waiting \<and> (deadline \<le> pr_end r \<or> pr_cancelled r) \<and> \<not> pr_cancelled r then Some (Inr [], s1)
               else Some (Inl (if failed then SvcContext else mapStoreError e), s1)
           | Inr items \<Rightarrow>
               if items \<noteq> [] \<or> \<not> waiting then Some (Inr items, s1)
               else if pr_done r then Some (if pr_cancelled_waiting r then Inl SvcContext else Inr [], s1)
               else poll sha md5 appID subscriptionID input deadline rounds (Suc i) fuel s1))"

definition QueueService_Pull ::
    "(string \<Rightarrow> string) \<Rightarrow> (string \<Rightarrow> string) \<Rightarrow> time \<Rightarrow> (nat \<Rightarrow> poll_round) \<Rightarrow> nat \<Rightarrow> db \<Rightarrow> string \<Rightarrow> string \<Rightarrow> pull_input
     \<Rightarrow> ((service_error + queue_message list) \<times> db) option" where
  "QueueService_Pull sha md5 started rounds fuel s appID subscriptionID input =
     (if appID = [] \<or> subscriptionID = [] \<or> pi_max_messages input < 1 \<or> pi_max_messages input > 100 \<or>
         pi_wait_seconds input < 0 \<or> pi_wait_seconds input > 30 \<or>
         pi_visibility_seconds input < 0 \<or> pi_visibility_seconds input > 3600
      then Some (Inl SvcInvalidInput, s)
      else poll sha md5 appID subscriptionID input (started + pi_wait_seconds input * second) rounds 0 fuel s)"

section \<open>Settling and extending\<close>

definition validReceipt :: "string \<Rightarrow> bool" where
  "validReceipt receipt = (case b64_decode receipt of None \<Rightarrow> False | Some decoded \<Rightarrow> length decoded = 32)"

fun settlements_of :: "settle_item list \<Rightarrow> string set \<Rightarrow> queue_settlement list option" where
  "settlements_of [] seen = Some []"
| "settlements_of (item # items) seen =
     (if \<not> validReceipt (si_receipt item) \<or> si_delay_seconds item < 0 \<or> si_delay_seconds item > 86400 \<or>
         length (si_reason item) > 1024 \<or>
         (si_disposition item \<noteq> ''ack'' \<and> si_disposition item \<noteq> ''retry'' \<and> si_disposition item \<noteq> ''dead_letter'') \<or>
         si_receipt item \<in> seen
      then None
      else map_option (Cons \<lparr>ql_receipt = si_receipt item, ql_disposition = si_disposition item,
                             ql_delay = si_delay_seconds item * second, ql_reason = go_trim_space (si_reason item)\<rparr>)
             (settlements_of items (insert (si_receipt item) seen)))"

definition QueueService_Settle ::
    "(string \<Rightarrow> string) \<Rightarrow> queue_options \<Rightarrow> db \<Rightarrow> string \<Rightarrow> string \<Rightarrow> settle_item list \<Rightarrow> settlement_result list handled" where
  "QueueService_Settle sha opts s appID subscriptionID items =
     (if appID = [] \<or> subscriptionID = [] \<or> length items < 1 \<or> length items > 100 then (Inl SvcInvalidInput, s, [])
      else
        (case settlements_of items {} of
           None \<Rightarrow> (Inl SvcInvalidInput, s, [])
         | Some settlements \<Rightarrow> audited [] (SettleQueueDeliveries sha s appID subscriptionID settlements (qo_now opts))))"

fun extensions_of :: "extend_item list \<Rightarrow> string set \<Rightarrow> lease_extension list option" where
  "extensions_of [] seen = Some []"
| "extensions_of (item # items) seen =
     (if \<not> validReceipt (xi_receipt item) \<or> xi_extension_seconds item < 1 \<or> xi_extension_seconds item > 3600 \<or>
         xi_receipt item \<in> seen
      then None
      else map_option (Cons \<lparr>lx_receipt = xi_receipt item, lx_extension = xi_extension_seconds item * second\<rparr>)
             (extensions_of items (insert (xi_receipt item) seen)))"

definition QueueService_Extend ::
    "(string \<Rightarrow> string) \<Rightarrow> queue_options \<Rightarrow> db \<Rightarrow> string \<Rightarrow> string \<Rightarrow> extend_item list \<Rightarrow> settlement_result list handled" where
  "QueueService_Extend sha opts s appID subscriptionID items =
     (if appID = [] \<or> subscriptionID = [] \<or> length items < 1 \<or> length items > 100 then (Inl SvcInvalidInput, s, [])
      else
        (case extensions_of items {} of
           None \<Rightarrow> (Inl SvcInvalidInput, s, [])
         | Some extensions \<Rightarrow> audited [] (ExtendQueueLeases sha s appID subscriptionID extensions (qo_now opts))))"

section \<open>Depth and dead letters\<close>

definition QueueService_Depth :: "queue_options \<Rightarrow> db \<Rightarrow> string \<Rightarrow> string \<Rightarrow> service_error + queue_depth" where
  "QueueService_Depth opts s appID subscriptionID =
     (if appID = [] \<or> subscriptionID = [] then Inl SvcInvalidInput
      else Inr (QueueDepth s appID subscriptionID (qo_now opts)))"

definition QueueService_DeadLetters ::
    "db \<Rightarrow> string \<Rightarrow> string \<Rightarrow> string \<Rightarrow> int \<Rightarrow> service_error + queue_dead_letter list" where
  "QueueService_DeadLetters s appID subscriptionID cursor limit =
     (if appID = [] \<or> subscriptionID = [] \<or> limit < 1 \<or> limit > 100 \<or> length cursor > 128 then Inl SvcInvalidInput
      else Inr (ListQueueDeadLetters s appID subscriptionID cursor (nat limit)))"

definition validDeliveryIDs :: "string \<Rightarrow> string \<Rightarrow> string list \<Rightarrow> bool" where
  "validDeliveryIDs appID subscriptionID ids \<longleftrightarrow>
     appID \<noteq> [] \<and> subscriptionID \<noteq> [] \<and> 1 \<le> length ids \<and> length ids \<le> 100 \<and>
     list_all (\<lambda>i. strip_prefix ''qdl_'' i \<noteq> None \<and> length i \<le> 128) ids \<and> distinct ids"

definition QueueService_ReplayDeadLetters :: "queue_options \<Rightarrow> db \<Rightarrow> string \<Rightarrow> string \<Rightarrow> string list \<Rightarrow> nat handled" where
  "QueueService_ReplayDeadLetters opts s appID subscriptionID ids =
     (if \<not> validDeliveryIDs appID subscriptionID ids then (Inl SvcInvalidInput, s, [])
      else
        (case ReplayQueueDeadLetters s appID subscriptionID ids (qo_now opts) of
           (n, s') \<Rightarrow> (Inr n, s', audit opts appID ''queue.dlq.replay'' ''queue_subscription'' subscriptionID
                        [''generation'', ''status''])))"

definition QueueService_DeleteDeadLetters :: "queue_options \<Rightarrow> db \<Rightarrow> string \<Rightarrow> string \<Rightarrow> string list \<Rightarrow> nat handled" where
  "QueueService_DeleteDeadLetters opts s appID subscriptionID ids =
     (if \<not> validDeliveryIDs appID subscriptionID ids then (Inl SvcInvalidInput, s, [])
      else
        (case DeleteQueueDeadLetters s appID subscriptionID ids of
           (n, s') \<Rightarrow> (Inr n, s', audit opts appID ''queue.dlq.delete'' ''queue_subscription'' subscriptionID [''deleted''])))"

section \<open>Schedules\<close>

record schedule_input =
  hi_name :: string
  hi_enabled :: "bool option"
  hi_cron_expression :: string
  hi_timezone :: string
  hi_event_type :: string
  hi_data :: string
  hi_ordering_key :: string
  hi_priority :: int
  hi_metadata :: string

definition scheduleFromInput ::
    "cron_lib \<Rightarrow> string \<Rightarrow> string \<Rightarrow> schedule_input \<Rightarrow> time \<Rightarrow> service_error + queue_schedule" where
  "scheduleFromInput lib appID subscriptionID input from =
     (let item = \<lparr>sc_id = [], sc_app_id = appID, sc_subscription_id = subscriptionID, sc_name = go_trim_space (hi_name input),
            sc_enabled = coalesce (hi_enabled input) True, sc_cron_expression = go_trim_space (hi_cron_expression input),
            sc_timezone = go_trim_space (hi_timezone input), sc_event_type = go_trim_space (hi_event_type input),
            sc_data = hi_data input, sc_ordering_key = Some (go_trim_space (hi_ordering_key input)),
            sc_priority = hi_priority input, sc_metadata = default_to [] ''{}'' (hi_metadata input),
            sc_next_run_at = zero_time, sc_last_run_at = None, sc_claim_token = None, sc_claim_expires_at = None,
            sc_claim_generation = 0, sc_policy_version = 0, sc_created_at = zero_time, sc_updated_at = zero_time\<rparr> in
      if appID = [] \<or> subscriptionID = [] \<or> \<not> queueName (sc_name item) \<or> sc_event_type item = [] \<or>
         length (sc_event_type item) > 128 \<or> length (queueStringValue (sc_ordering_key item)) > 256 \<or>
         sc_priority item < -10 \<or> sc_priority item > 10 \<or> \<not> JSONObject (sc_data item) \<or> \<not> JSONObject (sc_metadata item) \<or>
         length (sc_data item) > 1048576 \<or> length (sc_metadata item) > 4096
      then Inl SvcInvalidInput
      else if \<not> cl_location lib (sc_timezone item) \<or> sc_timezone item = ''Local'' then Inl SvcInvalidInput
      else if \<not> cl_parse lib (sc_cron_expression item) then Inl SvcInvalidInput
      else
        let next = cl_next lib (sc_cron_expression item) (sc_timezone item); first = next from in
        if first = zero_time \<or> next first - first < minute then Inl SvcInvalidInput
        else Inr (item\<lparr>sc_next_run_at := first\<rparr>))"

definition QueueService_CreateSchedule ::
    "cron_lib \<Rightarrow> queue_options \<Rightarrow> db \<Rightarrow> string \<Rightarrow> string \<Rightarrow> schedule_input \<Rightarrow> queue_schedule handled" where
  "QueueService_CreateSchedule lib opts s appID subscriptionID input =
     (let now = qo_now opts in
      case scheduleFromInput lib appID subscriptionID input now of
        Inl e \<Rightarrow> (Inl e, s, [])
      | Inr item0 \<Rightarrow>
          let item = item0\<lparr>sc_id := qo_new_id opts, sc_policy_version := 1, sc_created_at := now, sc_updated_at := now\<rparr> in
          (case CreateQueueSchedule s item of
             (Inl e, s') \<Rightarrow> (Inl (mapStoreError e), s', [])
           | (Inr _, s') \<Rightarrow> (Inr item, s', audit opts appID ''queue.schedule.create'' ''queue_schedule'' (sc_id item) [''created''])))"

definition QueueService_ListSchedules :: "db \<Rightarrow> string \<Rightarrow> string \<Rightarrow> service_error + queue_schedule list" where
  "QueueService_ListSchedules s appID subscriptionID =
     (if appID = [] \<or> subscriptionID = [] then Inl SvcInvalidInput else Inr (ListQueueSchedules s appID subscriptionID))"

definition QueueService_GetSchedule :: "db \<Rightarrow> string \<Rightarrow> string \<Rightarrow> string \<Rightarrow> service_error + queue_schedule" where
  "QueueService_GetSchedule s appID subscriptionID scheduleID =
     (if appID = [] \<or> subscriptionID = [] \<or> scheduleID = [] then Inl SvcInvalidInput
      else map_store (GetQueueSchedule s appID subscriptionID scheduleID))"

definition QueueService_UpdateSchedule ::
    "cron_lib \<Rightarrow> queue_options \<Rightarrow> db \<Rightarrow> string \<Rightarrow> string \<Rightarrow> string \<Rightarrow> int \<Rightarrow> schedule_input \<Rightarrow> queue_schedule handled" where
  "QueueService_UpdateSchedule lib opts s appID subscriptionID scheduleID expectedVersion input =
     (if expectedVersion < 1 \<or> scheduleID = [] then (Inl SvcInvalidInput, s, [])
      else
        (case QueueService_GetSchedule s appID subscriptionID scheduleID of
           Inl e \<Rightarrow> (Inl e, s, [])
         | Inr current \<Rightarrow>
             let now = qo_now opts in
             (case scheduleFromInput lib appID subscriptionID input now of
                Inl e \<Rightarrow> (Inl e, s, [])
              | Inr item0 \<Rightarrow>
                  let item = item0\<lparr>sc_id := sc_id current, sc_created_at := sc_created_at current, sc_updated_at := now,
                                   sc_last_run_at := sc_last_run_at current\<rparr> in
                  audited (audit opts appID ''queue.schedule.update'' ''queue_schedule'' scheduleID [''policy''])
                    (UpdateQueueSchedule s item expectedVersion))))"

definition QueueService_DeleteSchedule :: "queue_options \<Rightarrow> db \<Rightarrow> string \<Rightarrow> string \<Rightarrow> string \<Rightarrow> unit handled" where
  "QueueService_DeleteSchedule opts s appID subscriptionID scheduleID =
     (if appID = [] \<or> subscriptionID = [] \<or> scheduleID = [] then (Inl SvcInvalidInput, s, [])
      else audited (audit opts appID ''queue.schedule.delete'' ''queue_schedule'' scheduleID [''deleted''])
             (DeleteQueueSchedule s appID subscriptionID scheduleID))"

section \<open>The wait of a pull ends\<close>

text \<open>More fuel does not change an answer.\<close>

lemma poll_fuel:
  "poll sha md5 a q input deadline rounds i fuel s = Some r \<Longrightarrow>
   poll sha md5 a q input deadline rounds i (fuel + n) s = Some r"
proof (induction sha md5 a q input deadline rounds i fuel s rule: poll.induct)
  case (2 sha md5 a q input deadline rounds i fuel s)
  show ?case
    using 2 by (auto simp: Let_def split: sum.splits prod.splits if_splits)
qed simp

text \<open>A round that begins after the deadline is the last one.\<close>

lemma poll_expired:
  assumes "deadline \<le> pr_begin (rounds i)" and "pi_wait_seconds input > 0"
  shows "\<exists>r. poll sha md5 a q input deadline rounds i (Suc fuel) s = Some r"
  using assms by (auto simp: Let_def split: sum.splits)

lemma poll_step:
  "poll sha md5 a q input deadline rounds i (Suc fuel) s = None \<Longrightarrow>
   pi_wait_seconds input > 0 \<and> (\<exists>s'. poll sha md5 a q input deadline rounds (Suc i) fuel s' = None)"
  by (auto simp: Let_def split: sum.splits prod.splits if_splits)

lemma poll_ends:
  assumes clock: "\<forall>i. pr_begin (rounds i) \<le> pr_end (rounds i) \<and> pr_end (rounds i) + 100 * millisecond \<le> pr_begin (rounds (Suc i))"
    and "deadline \<le> pr_begin (rounds i) + int fuel * (100 * millisecond)"
  shows "poll sha md5 a q input deadline rounds i (Suc fuel) s \<noteq> None"
  using assms(2)
proof (induction fuel arbitrary: i s)
  case 0
  then have "deadline \<le> pr_begin (rounds i)" by simp
  with poll_step [of sha md5 a q input deadline rounds i 0 s]
    poll_expired [of deadline rounds i input sha md5 a q 0 s] show ?case
    by (metis not_None_eq)
next
  case (Suc fuel)
  have "pr_begin (rounds i) + 100 * millisecond \<le> pr_begin (rounds (Suc i))"
    using clock [THEN spec, of i] by linarith
  then have "deadline \<le> pr_begin (rounds (Suc i)) + int fuel * (100 * millisecond)"
    using Suc.prems by (simp add: algebra_simps)
  from Suc.IH [OF this] poll_step [of sha md5 a q input deadline rounds i "Suc fuel" s] show ?case
    by (metis not_None_eq)
qed


text \<open>Nothing to pull for one second: the answer is empty.\<close>

definition example_rounds :: "nat \<Rightarrow> poll_round" where
  "example_rounds i =
     \<lparr>pr_between = id, pr_locked = {}, pr_now = int i * (150 * millisecond), pr_random = (\<lambda>k. Some (replicate 32 (CHR ''r''))),
      pr_begin = int i * (150 * millisecond), pr_end = int i * (150 * millisecond) + 50 * millisecond,
      pr_cancelled = False, pr_interrupted = False, pr_done = False, pr_cancelled_waiting = False\<rparr>"

definition example_wait :: pull_input where
  "example_wait = \<lparr>pi_max_messages = 2, pi_wait_seconds = 1, pi_visibility_seconds = 0\<rparr>"


section \<open>What the service accepts the database accepts\<close>

text \<open>The keys and checks of the table of subscriptions.\<close>

definition subscriptions_ok :: "db \<Rightarrow> bool" where
  "subscriptions_ok s \<longleftrightarrow>
     distinct (map qs_id (queue_subscriptions s)) \<and>
     distinct (map (\<lambda>q. (qs_app_id q, qs_name q)) (queue_subscriptions s)) \<and>
     list_all subscription_check (queue_subscriptions s)"

lemma valid_subscription_check:
  assumes "validQueueSubscription q" and "0 < qs_policy_version q" and "qs_paused_at q = None \<or> qs_enabled q" and "drain_order q"
  shows "subscription_check q"
  using assms by (auto simp: validQueueSubscription_def subscription_check_def opt_check_def split: if_splits option.splits)

lemma JSONObject_nonempty: "JSONObject raw \<Longrightarrow> raw \<noteq> []"
  by (auto simp: JSONObject_def go_trim_space_def trim_left_def trim_right_def Let_def)

lemma with_metadata_valid: "validQueueSubscription q \<Longrightarrow> with_metadata q = q"
  using JSONObject_nonempty [of "qs_result_callback_metadata q"]
  by (auto simp: with_metadata_def validQueueSubscription_def split: if_splits)

lemma Create_store:
  assumes "subscription_check item" and "with_metadata item = item" and "subscriptions_ok s"
    and "CreateQueueSubscription s item = (r, s')"
    and "sql_exists (\<lambda>a. app_id a = qs_app_id item) (applications s)"
  shows "subscriptions_ok s' \<and> (r = Inl ErrConflict \<or> r = Inr () \<and> item \<in> set (queue_subscriptions s'))"
  using assms by (auto simp: CreateQueueSubscription_def subscriptions_ok_def Let_def list_all_iff split: if_splits) blast+

lemma GetQueueSubscription_cases:
  "GetQueueSubscription s a i = Inl ErrNotFound \<or>
   (\<exists>q. GetQueueSubscription s a i = Inr q \<and> q \<in> set (queue_subscriptions s) \<and> qs_app_id q = a \<and> qs_id q = i)"
  by (auto simp: GetQueueSubscription_def split: option.splits dest: sql_row_Some)

lemma distinct_update_one:
  assumes "distinct (map k rows)" and "\<forall>r \<in> set rows. P r \<longrightarrow> r = q" and "\<forall>r \<in> set rows. r \<noteq> q \<longrightarrow> k r \<noteq> k (f q)"
  shows "distinct (map k (sql_update P f rows))"
proof -
  let ?g = "\<lambda>r. if P r then f r else r"
  have "distinct rows" and inj: "inj_on k (set rows)" using assms(1) by (auto simp: distinct_map)
  moreover have "inj_on (k \<circ> ?g) (set rows)"
  proof (rule inj_onI)
    fix x y assume xy: "x \<in> set rows" "y \<in> set rows" "(k \<circ> ?g) x = (k \<circ> ?g) y"
    with assms(2,3) show "x = y" using inj_onD [OF inj, of x y] by (simp split: if_splits) metis+
  qed
  ultimately show ?thesis by (simp add: sql_update_def distinct_map)
qed

lemma Update_store:
  assumes ok: "subscriptions_ok s" and item: "item = with_metadata item0"
    and check: "\<forall>q \<in> set (queue_subscriptions s). qs_app_id q = qs_app_id item \<and> qs_id q = qs_id item \<and>
           qs_policy_version q = version \<longrightarrow> subscription_check (updated_subscription item q)"
    and run: "UpdateQueueSubscription s item0 version = (r, s')"
  shows "subscriptions_ok s' \<and>
    (r = Inl ErrConflict \<and> s' = s \<or> r = Inl ErrNotFound \<and> s' = s \<or>
     (\<exists>q. r = Inr q \<and> subscription_check q \<and> q \<in> set (queue_subscriptions s')))"
proof -
  define P where "P = (\<lambda>q :: queue_subscription. qs_app_id q = qs_app_id item \<and> qs_id q = qs_id item \<and> qs_policy_version q = version)"
  note run' = run [unfolded UpdateQueueSubscription_def item [symmetric] Let_def P_def [symmetric]]
  show ?thesis
  proof (cases "sql_row P (queue_subscriptions s)")
    case None
    then show ?thesis using run' ok by (auto split: sum.splits)
  next
    case (Some q)
    then have q: "q \<in> set (queue_subscriptions s)" "P q" by (auto dest: sql_row_Some)
    define u where "u = updated_subscription item q"
    have u: "subscription_check u" using check q by (simp add: P_def u_def)
    have uniq: "\<forall>x \<in> set (queue_subscriptions s). P x \<longrightarrow> x = q"
      using q ok distinct_key_unique [of qs_id "queue_subscriptions s"] by (auto simp: P_def subscriptions_ok_def)
    define taken where "taken = sql_exists (\<lambda>x. qs_id x \<noteq> qs_id q \<and> qs_app_id x = qs_app_id u \<and> qs_name x = qs_name u)
      (queue_subscriptions s)"
    note run'' = run' [unfolded Some option.case u_def [symmetric] taken_def [symmetric]]
    show ?thesis
    proof (cases taken)
      case True
      with run'' u ok show ?thesis by simp
    next
      case False
      then have r: "r = Inr u" "s' = s\<lparr>queue_subscriptions := sql_update P (updated_subscription item) (queue_subscriptions s)\<rparr>"
        using run'' u by simp_all
      have "\<forall>x \<in> set (queue_subscriptions s). x \<noteq> q \<longrightarrow> qs_id x \<noteq> qs_id q"
        using q(1) ok distinct_key_unique [of qs_id "queue_subscriptions s"] by (auto simp: subscriptions_ok_def)
      moreover have "\<forall>x \<in> set (queue_subscriptions s). x \<noteq> q \<longrightarrow> (qs_app_id x, qs_name x) \<noteq> (qs_app_id u, qs_name u)"
        using False calculation by (auto simp: taken_def)
      moreover have "qs_id u = qs_id q" by (simp add: u_def updated_subscription_def)
      ultimately have "subscriptions_ok s'"
        using ok uniq u unfolding r(2) subscriptions_ok_def
        by (auto simp: u_def list_all_iff set_sql_update intro!: distinct_update_one [of _ _ P q])
      moreover have "u \<in> set (queue_subscriptions s')" using q by (auto simp: r(2) u_def set_sql_update)
      ultimately show ?thesis using r(1) u by simp
    qed
  qed
qed

text \<open>The answers to a write of a subscription.\<close>

definition refused_or_stored :: "db \<Rightarrow> queue_subscription handled \<Rightarrow> bool" where
  "refused_or_stored s call =
     (case call of (r, s', records) \<Rightarrow>
        subscriptions_ok s' \<and>
        (case r of
           Inl e \<Rightarrow> e \<in> {SvcInvalidDependency, SvcInvalidInput, SvcConflict, SvcNotFound} \<and> s' = s \<and> records = []
         | Inr q \<Rightarrow> subscription_check q \<and> q \<in> set (queue_subscriptions s')))"

lemma refusedI:
  "subscriptions_ok s \<Longrightarrow> e \<in> {SvcInvalidDependency, SvcInvalidInput, SvcConflict, SvcNotFound} \<Longrightarrow>
   refused_or_stored s (Inl e, s, [])"
  by (simp add: refused_or_stored_def)

lemma create_refused_or_stored:
  assumes "subscriptions_ok s" and "sql_exists (\<lambda>a. app_id a = appID) (applications s)"
  shows "refused_or_stored s (QueueService_Create opts s appID input)"
proof -
  define item where "item = (subscriptionFromInput input)
    \<lparr>qs_id := qo_new_id opts, qs_app_id := appID, qs_policy_version := 1, qs_created_at := qo_now opts, qs_updated_at := qo_now opts\<rparr>"
  show ?thesis
  proof (cases "appID = [] \<or> \<not> validQueueSubscription item \<or> \<not> validQueueCallbacks opts item")
    case True
    then show ?thesis
      using refusedI [OF assms(1)] unfolding QueueService_Create_def Let_def item_def [symmetric] by auto
  next
    case False
    obtain r s' where run: "CreateQueueSubscription s item = (r, s')" by fastforce
    have check: "subscription_check item"
      using False by (intro valid_subscription_check) (simp_all add: item_def subscriptionFromInput_def drain_order_def)
    have "subscriptions_ok s' \<and> (r = Inl ErrConflict \<or> r = Inr () \<and> item \<in> set (queue_subscriptions s'))"
      using Create_store [OF check _ assms(1) run] with_metadata_valid False assms(2) by (simp add: item_def)
    moreover have "r = Inl ErrConflict \<Longrightarrow> s' = s"
      using run by (auto simp: CreateQueueSubscription_def Let_def split: if_splits)
    ultimately show ?thesis
      using False check run unfolding QueueService_Create_def Let_def item_def [symmetric]
      by (auto simp: refused_or_stored_def mapStoreError_def)
  qed
qed

lemma audited_refused_or_stored:
  assumes "subscriptions_ok s"
    and "\<forall>q \<in> set (queue_subscriptions s). qs_app_id q = qs_app_id item \<and> qs_id q = qs_id item \<and>
           qs_policy_version q = version \<longrightarrow> subscription_check (updated_subscription (with_metadata item) q)"
  shows "refused_or_stored s (audited records (UpdateQueueSubscription s item version))"
proof -
  obtain r s' where run: "UpdateQueueSubscription s item version = (r, s')" by fastforce
  have "qs_app_id (with_metadata item) = qs_app_id item" "qs_id (with_metadata item) = qs_id item"
    by (simp_all add: with_metadata_def)
  with Update_store [OF assms(1) refl _ run] assms run show ?thesis
    by (auto simp: refused_or_stored_def audited_def mapStoreError_def)
qed

lemma drain_order_updated [simp]: "drain_order (updated_subscription item q) = drain_order q"
  by (auto simp: drain_order_def updated_subscription_def split: option.splits)

lemma updated_check:
  assumes "validQueueSubscription item" and "qs_paused_at item = None \<or> qs_enabled item" and "subscription_check q"
  shows "subscription_check (updated_subscription item q)"
proof (rule valid_subscription_check)
  have "validQueueSubscription (updated_subscription item q) = validQueueSubscription item"
    by (cases "qs_max_dispatch_rate item") (simp_all add: validQueueSubscription_def updated_subscription_def)
  with assms(1) show "validQueueSubscription (updated_subscription item q)" by simp
  show "drain_order (updated_subscription item q)"
    using assms(3) by (simp add: subscription_check_def)
qed (use assms(2,3) in \<open>auto simp: updated_subscription_def subscription_check_def\<close>)

lemma update_refused_or_stored:
  assumes "subscriptions_ok s"
  shows "refused_or_stored s (QueueService_Update opts s appID i version input)"
proof (cases "appID = [] \<or> i = [] \<or> version < 1")
  case True
  then show ?thesis using refusedI [OF assms] by (auto simp: QueueService_Update_def)
next
  case valid: False
  show ?thesis
  proof (cases "GetQueueSubscription s appID i")
    case (Inl e)
    then have "e = ErrNotFound" using GetQueueSubscription_cases [of s appID i] by auto
    with Inl valid show ?thesis using refusedI [OF assms] by (simp add: QueueService_Update_def mapStoreError_def)
  next
    case (Inr current)
    define item where "item = subscriptionFromInput input"
    define updated where "updated = item
       \<lparr>qs_id := qs_id current, qs_app_id := qs_app_id current, qs_created_at := qs_created_at current,
        qs_updated_at := qo_now opts, qs_paused_at := (if qs_enabled item then qs_paused_at current else None),
        qs_draining_at := qs_draining_at current, qs_drain_deadline_at := qs_drain_deadline_at current,
        qs_drained_at := qs_drained_at current\<rparr>"
    note call = QueueService_Update_def [of opts s appID i version input, unfolded Inr sum.case Let_def, folded item_def, folded updated_def]
    show ?thesis
    proof (cases "validQueueSubscription updated \<and> validQueueCallbacks opts updated")
      case True
      have "qs_paused_at updated = None \<or> qs_enabled updated" by (simp add: updated_def)
      then have "subscription_check (updated_subscription updated q)" if "q \<in> set (queue_subscriptions s)" for q
        using True that assms by (intro updated_check) (auto simp: subscriptions_ok_def list_all_iff)
      with audited_refused_or_stored [OF assms] with_metadata_valid [of updated] True valid show ?thesis
        by (simp add: call)
    next
      case False
      with valid show ?thesis using refusedI [OF assms] by (auto simp: call)
    qed
  qed
qed

lemma pause_refused_or_stored:
  assumes "subscriptions_ok s"
  shows "refused_or_stored s (QueueService_Pause opts s appID i paused)"
proof (cases "QueueService_Get s appID i")
  case (Inl e)
  then have "e = SvcInvalidInput \<or> e = SvcNotFound"
    using GetQueueSubscription_cases [of s appID i] by (auto simp: QueueService_Get_def mapStoreError_def split: if_splits)
  with Inl show ?thesis using refusedI [OF assms] by (auto simp: QueueService_Pause_def)
next
  case (Inr current)
  then have current: "current \<in> set (queue_subscriptions s)"
    using GetQueueSubscription_cases [of s appID i] by (auto simp: QueueService_Get_def split: if_splits)
  define item where "item = current\<lparr>qs_updated_at := qo_now opts, qs_paused_at := (if paused then Some (qo_now opts) else None)\<rparr>"
  note call = QueueService_Pause_def [of opts s appID i paused, unfolded Inr sum.case Let_def, folded item_def]
  show ?thesis
  proof (cases "\<not> qs_enabled current \<and> paused")
    case True
    then show ?thesis unfolding call using refusedI [OF assms] by simp
  next
    case False
    have "q = current" if "q \<in> set (queue_subscriptions s)" "qs_id q = qs_id item" for q
      using that current assms distinct_key_unique [of qs_id "queue_subscriptions s" q current]
      by (simp add: subscriptions_ok_def item_def)
    moreover have "subscription_check current" using current assms by (auto simp: subscriptions_ok_def list_all_iff)
    then have "subscription_check (updated_subscription (with_metadata item) current)"
      using False unfolding subscription_check_def drain_order_updated
      by (auto simp: updated_subscription_def with_metadata_def item_def)
    ultimately show ?thesis
      using audited_refused_or_stored [OF assms, of item] False by (auto simp: call)
  qed
qed


definition example_options :: queue_options where
  "example_options = \<lparr>qo_now = 5 * second, qo_new_id = ''q2'', qo_audit = True, qo_audit_at = 5 * second,
     qo_allow_insecure_callbacks = False, qo_urls = \<lparr>ul_parse = (\<lambda>_. None), ul_internal_ip = (\<lambda>_. False)\<rparr>\<rparr>"

definition example_input :: subscription_input where
  "example_input = \<lparr>qi_name = ''orders'', qi_enabled = None, qi_event_types = [''order.paid''], qi_max_attempts = 0,
     qi_default_visibility_seconds = 0, qi_max_visibility_seconds = 0, qi_max_total_lease_seconds = 0,
     qi_retention_seconds = 0, qi_max_in_flight = 0, qi_max_batch_size = 0, qi_retry_delay_seconds = Some 0,
     qi_ordering_mode = ''key'', qi_deduplication_seconds = 0, qi_max_dispatch_rate = None,
     qi_success_callback_url = None, qi_failure_callback_url = None, qi_result_callback_metadata = []\<rparr>"

definition service_db :: db where
  "service_db = schedule_db\<lparr>applications := [\<lparr>app_id = ''b'', app_name = ''B'', app_callback_url = None,
     app_delivery_mode = DeliveryQueue, app_enabled = True\<rparr>]\<rparr>"


end
