(* ===== verification/Functions.thy ===== *)
theory Functions
  imports Services Auth
begin

text \<open>
  Remote functions: the catalogue (\<^verbatim>\<open>store/postgres/functions.go\<close>), the invocations
  (\<^verbatim>\<open>store/postgres/function_invocations.go\<close>) and the service (\<^verbatim>\<open>service/functions.go\<close>).  The store reads the
  clock of the database, which an operation takes as its argument \<open>now\<close>; SHA-256 is a parameter.
\<close>

section \<open>The catalogue\<close>

definition app_is_enabled :: "db \<Rightarrow> string \<Rightarrow> bool" where
  "app_is_enabled s i = sql_exists (\<lambda>a. app_id a = i \<and> app_enabled a) (applications s)"

definition CreateFunction :: "db \<Rightarrow> function_row \<Rightarrow> (store_error + unit) \<times> db" where
  "CreateFunction s f =
     (if \<not> app_is_enabled s (fn_app_id f) then (Inl ErrNotFound, s)
      else if sql_exists (\<lambda>x. fn_id x = fn_id f \<or> fn_app_id x = fn_app_id f \<and> fn_name x = fn_name f) (function_catalog s)
      then (Inl ErrConflict, s)
      else (Inr (), s\<lparr>function_catalog := function_catalog s @ [f]\<rparr>))"

definition GetFunction :: "db \<Rightarrow> string \<Rightarrow> store_error + function_row" where
  "GetFunction s i = (case sql_row (\<lambda>f. fn_id f = i) (function_catalog s) of None \<Rightarrow> Inl ErrNotFound | Some f \<Rightarrow> Inr f)"

definition ListFunctions :: "db \<Rightarrow> string \<Rightarrow> function_row list" where
  "ListFunctions s owner =
     sort_key (\<lambda>f. (fn_created_at f, fn_id f)) (filter (\<lambda>f. fn_app_id f = owner) (function_catalog s))"

definition DeleteFunction :: "db \<Rightarrow> string \<Rightarrow> string \<Rightarrow> (store_error + unit) \<times> db" where
  "DeleteFunction s owner i =
     (let P = (\<lambda>f. fn_id f = i \<and> fn_app_id f = owner) in
      if \<not> sql_exists P (function_catalog s) then (Inl ErrNotFound, s)
      else (Inr (), s\<lparr>function_catalog := filter (\<lambda>f. \<not> P f) (function_catalog s)\<rparr>))"

definition UpdateFunction :: "db \<Rightarrow> string \<Rightarrow> function_row \<Rightarrow> (store_error + function_row) \<times> db" where
  "UpdateFunction s owner f =
     (let P = (\<lambda>x. fn_id x = fn_id f \<and> fn_app_id x = owner);
          g = (\<lambda>x. x\<lparr>fn_name := fn_name f, fn_timeout_seconds := fn_timeout_seconds f, fn_enabled := fn_enabled f,
                     fn_updated_at := fn_updated_at f\<rparr>) in
      case sql_row P (function_catalog s) of
        None \<Rightarrow> (Inl ErrNotFound, s)
      | Some x \<Rightarrow>
          if sql_exists (\<lambda>y. fn_id y \<noteq> fn_id x \<and> fn_app_id y = fn_app_id x \<and> fn_name y = fn_name f) (function_catalog s)
          then (Inl ErrConflict, s)
          else (Inr (g x), s\<lparr>function_catalog := sql_update P g (function_catalog s)\<rparr>))"

section \<open>Invocations\<close>

definition InvocationRetention :: duration where "InvocationRetention = 24 * 60 * minute"

definition invocationKeyHash :: "(string \<Rightarrow> string) \<Rightarrow> string \<Rightarrow> string \<Rightarrow> string" where
  "invocationKeyHash sha caller key = sha (caller @ CHR 0x00 # key)"

definition invocation_check :: "invocation_row \<Rightarrow> bool" where
  "invocation_check r \<longleftrightarrow> iv_claim_by r \<le> iv_deadline r \<and> iv_deadline r \<le> iv_expires_at r"

text \<open>A read settles an invocation whose time has run out.\<close>

definition overdue :: "time \<Rightarrow> invocation_row \<Rightarrow> bool" where
  "overdue now r \<longleftrightarrow>
     now < iv_expires_at r \<and>
     (iv_state r = InvocationClaimed \<and> iv_deadline r \<le> now \<or>
      (iv_state r = InvocationPending \<or> iv_state r = InvocationReserved) \<and> iv_claim_by r \<le> now)"

definition settled_overdue :: "time \<Rightarrow> invocation_row \<Rightarrow> invocation_row" where
  "settled_overdue now r =
     r\<lparr>iv_state := (if iv_state r = InvocationClaimed then InvocationTimeout else InvocationUnavailable),
       iv_connection_id := None, iv_updated_at := now\<rparr>"

definition GetInvocation :: "db \<Rightarrow> time \<Rightarrow> string \<Rightarrow> (store_error + invocation_row) \<times> db" where
  "GetInvocation s now i =
     (let s1 = s\<lparr>function_invocations :=
                  sql_update (\<lambda>r. iv_id r = i \<and> overdue now r) (settled_overdue now) (function_invocations s)\<rparr> in
      (case sql_row (\<lambda>r. iv_id r = i \<and> now < iv_expires_at r) (function_invocations s1) of
         None \<Rightarrow> Inl ErrNotFound | Some r \<Rightarrow> Inr r, s1))"

text \<open>The insert takes identity and owner from the function, which has to be enabled together with its owner and
  the caller; a live invocation under the same key wins.\<close>

definition CreateInvocation ::
    "(string \<Rightarrow> string) \<Rightarrow> db \<Rightarrow> time \<Rightarrow> invocation_row \<Rightarrow> string \<Rightarrow> (store_error + invocation_row \<times> bool) \<times> db" where
  "CreateInvocation sha s now v key =
     (if iv_id v = [] \<or> iv_function_id v = [] \<or> iv_owner_app_id v = [] \<or> iv_caller_app_id v = [] \<or> key = []
      then (Inl ErrNotFound, s)
      else
        let hash = invocationKeyHash sha (iv_caller_app_id v) key;
            same = (\<lambda>r. iv_caller_app_id r = iv_caller_app_id v \<and> iv_idempotency_hash r = hash);
            s1 = s\<lparr>function_invocations := filter (\<lambda>r. \<not> (same r \<and> iv_expires_at r \<le> now)) (function_invocations s)\<rparr>;
            row = v\<lparr>iv_idempotency_hash := hash, iv_state := InvocationPending, iv_connection_id := None, iv_reply := None,
                    iv_expires_at := iv_created_at v + InvocationRetention, iv_updated_at := iv_created_at v\<rparr>;
            callable = (sql_exists (\<lambda>f. fn_id f = iv_function_id v \<and> fn_app_id f = iv_owner_app_id v \<and> fn_enabled f)
                          (function_catalog s1) \<and> app_is_enabled s1 (iv_owner_app_id v) \<and> app_is_enabled s1 (iv_caller_app_id v)) in
        if callable \<and> \<not> (invocation_check row \<and> json_valid (iv_input row)) then (Inl ErrDB, s1)
        else if callable \<and> \<not> sql_exists same (function_invocations s1) then
          (if sql_exists (\<lambda>r. iv_id r = iv_id v) (function_invocations s1) then (Inl ErrDB, s1)
           else
             (case GetInvocation (s1\<lparr>function_invocations := function_invocations s1 @ [row]\<rparr>) now (iv_id v) of
                (Inl e, s2) \<Rightarrow> (Inl e, s2) | (Inr r, s2) \<Rightarrow> (Inr (r, False), s2)))
        else
          (case sql_row same (function_invocations s1) of
             None \<Rightarrow> (Inl ErrNotFound, s1)
           | Some r0 \<Rightarrow>
               (case GetInvocation s1 now (iv_id r0) of
                  (Inl e, s2) \<Rightarrow> (Inl e, s2) | (Inr r, s2) \<Rightarrow> (Inr (r, True), s2))))"

definition FindInvocation :: "(string \<Rightarrow> string) \<Rightarrow> db \<Rightarrow> time \<Rightarrow> string \<Rightarrow> string \<Rightarrow> (store_error + invocation_row) \<times> db" where
  "FindInvocation sha s now caller key =
     (case sql_row (\<lambda>r. iv_caller_app_id r = caller \<and> iv_idempotency_hash r = invocationKeyHash sha caller key \<and>
                        now < iv_expires_at r) (function_invocations s) of
        None \<Rightarrow> (Inl ErrNotFound, s) | Some r \<Rightarrow> GetInvocation s now (iv_id r))"

text \<open>A guarded transition; when it does not apply the invocation is read, so that an overdue one is settled.\<close>

definition transitionInvocation ::
    "db \<Rightarrow> time \<Rightarrow> (invocation_row \<Rightarrow> bool) \<Rightarrow> (invocation_row \<Rightarrow> invocation_row) \<Rightarrow> string \<Rightarrow> string \<Rightarrow> string
     \<Rightarrow> (store_error + unit) \<times> db" where
  "transitionInvocation s now P f i connection owner =
     (if i = [] \<or> owner = [] \<or> connection = [] then (Inl ErrInvalidResult, s)
      else
        let s1 = s\<lparr>function_invocations := sql_update P f (function_invocations s)\<rparr> in
        if sql_count P (function_invocations s) \<noteq> 1 then (Inl ErrInvalidResult, snd (GetInvocation s1 now i))
        else (Inr (), s1))"

definition can_claim :: "db \<Rightarrow> time \<Rightarrow> string \<Rightarrow> string \<Rightarrow> string \<Rightarrow> invocation_row \<Rightarrow> bool" where
  "can_claim s now owner connection i r \<longleftrightarrow>
     iv_id r = i \<and> iv_owner_app_id r = owner \<and> connection \<noteq> [] \<and> iv_state r = InvocationPending \<and>
     now < iv_claim_by r \<and> now < iv_deadline r \<and> app_is_enabled s (iv_owner_app_id r)"

definition reserved_row :: "time \<Rightarrow> string \<Rightarrow> invocation_row \<Rightarrow> invocation_row" where
  "reserved_row now connection r =
     r\<lparr>iv_state := InvocationReserved, iv_connection_id := Some connection, iv_updated_at := now\<rparr>"

definition ClaimInvocation :: "db \<Rightarrow> time \<Rightarrow> string \<Rightarrow> string \<Rightarrow> string \<Rightarrow> (store_error + unit) \<times> db" where
  "ClaimInvocation s now owner connection i =
     transitionInvocation s now (can_claim s now owner connection i) (reserved_row now connection) i connection owner"

definition can_acknowledge :: "time \<Rightarrow> string \<Rightarrow> string \<Rightarrow> string \<Rightarrow> invocation_row \<Rightarrow> bool" where
  "can_acknowledge now owner connection i r \<longleftrightarrow>
     iv_id r = i \<and> iv_owner_app_id r = owner \<and> iv_connection_id r = Some connection \<and>
     iv_state r = InvocationReserved \<and> now < iv_claim_by r \<and> now < iv_deadline r"

definition acknowledged_row :: "time \<Rightarrow> invocation_row \<Rightarrow> invocation_row" where
  "acknowledged_row now r = r\<lparr>iv_state := InvocationClaimed, iv_updated_at := now\<rparr>"

definition AcknowledgeInvocation :: "db \<Rightarrow> time \<Rightarrow> string \<Rightarrow> string \<Rightarrow> string \<Rightarrow> (store_error + unit) \<times> db" where
  "AcknowledgeInvocation s now owner connection i =
     transitionInvocation s now (can_acknowledge now owner connection i) (acknowledged_row now) i connection owner"

definition can_release :: "time \<Rightarrow> string \<Rightarrow> string \<Rightarrow> string \<Rightarrow> invocation_row \<Rightarrow> bool" where
  "can_release now owner connection i r \<longleftrightarrow>
     iv_id r = i \<and> iv_owner_app_id r = owner \<and> iv_connection_id r = Some connection \<and>
     (iv_state r = InvocationReserved \<and> now < iv_claim_by r \<or> iv_state r = InvocationClaimed \<and> now < iv_deadline r)"

definition released_row :: "time \<Rightarrow> invocation_row \<Rightarrow> invocation_row" where
  "released_row now r = r\<lparr>iv_state := InvocationPending, iv_connection_id := None, iv_updated_at := now\<rparr>"

definition ReleaseInvocation :: "db \<Rightarrow> time \<Rightarrow> string \<Rightarrow> string \<Rightarrow> string \<Rightarrow> (store_error + unit) \<times> db" where
  "ReleaseInvocation s now owner connection i =
     transitionInvocation s now (can_release now owner connection i) (released_row now) i connection owner"

text \<open>The reply is stored as \<^verbatim>\<open>json.Marshal\<close> writes it, which compacts its raw fields.\<close>

definition stored_reply :: "rpc_result \<Rightarrow> rpc_result" where
  "stored_reply r = r\<lparr>rr_result := compact False False (rr_result r), rr_error := compact False False (rr_error r)\<rparr>"

definition can_complete :: "time \<Rightarrow> string \<Rightarrow> string \<Rightarrow> string \<Rightarrow> invocation_row \<Rightarrow> bool" where
  "can_complete now owner connection i r \<longleftrightarrow>
     iv_id r = i \<and> iv_owner_app_id r = owner \<and> iv_connection_id r = Some connection \<and>
     iv_state r = InvocationClaimed \<and> now < iv_deadline r"

definition completed_row :: "time \<Rightarrow> rpc_result \<Rightarrow> invocation_row \<Rightarrow> invocation_row" where
  "completed_row now result r =
     r\<lparr>iv_state := (if rr_ok result then InvocationSuccess else InvocationHandlerError),
       iv_reply := Some (stored_reply result), iv_updated_at := now\<rparr>"

definition CompleteInvocation :: "db \<Rightarrow> time \<Rightarrow> string \<Rightarrow> string \<Rightarrow> rpc_result \<Rightarrow> (store_error + unit) \<times> db" where
  "CompleteInvocation s now owner connection result =
     (if owner = [] \<or> connection = [] \<or> \<not> ValidRPCResult result then (Inl ErrInvalidResult, s)
      else
        let i = rr_invocation_id result; P = can_complete now owner connection i;
            s1 = s\<lparr>function_invocations := sql_update P (completed_row now result) (function_invocations s)\<rparr> in
        if sql_count P (function_invocations s) \<noteq> 1 then (Inl ErrInvalidResult, snd (GetInvocation s1 now i))
        else (Inr (), s1))"

section \<open>The service\<close>

record register_function =
  rf_name :: string
  rf_timeout_seconds :: int
  rf_enabled :: "bool option"

record update_function =
  uf_name :: "string option"
  uf_timeout_seconds :: "int option"
  uf_enabled :: "bool option"

definition FunctionService_Register ::
    "db \<Rightarrow> string \<Rightarrow> register_function \<Rightarrow> string \<Rightarrow> time \<Rightarrow> (service_error + function_row) \<times> db" where
  "FunctionService_Register s owner input newID now =
     (if owner = [] \<or> \<not> ValidFunctionName (rf_name input) \<or> rf_timeout_seconds input < 1 \<or> rf_timeout_seconds input > 30
      then (Inl SvcInvalidInput, s)
      else
        let f = \<lparr>fn_id = ''fn_'' @ newID, fn_app_id = owner, fn_name = rf_name input,
                 fn_timeout_seconds = rf_timeout_seconds input, fn_enabled = coalesce (rf_enabled input) True,
                 fn_created_at = now, fn_updated_at = now\<rparr> in
        (case CreateFunction s f of (Inl e, s') \<Rightarrow> (Inl (mapStoreError e), s') | (Inr _, s') \<Rightarrow> (Inr f, s')))"

definition FunctionService_List :: "db \<Rightarrow> string \<Rightarrow> service_error + function_row list" where
  "FunctionService_List s owner =
     (if owner = [] then Inl SvcInvalidInput else Inr (sort_key fn_name (ListFunctions s owner)))"

definition FunctionService_Update ::
    "db \<Rightarrow> string \<Rightarrow> string \<Rightarrow> update_function \<Rightarrow> time \<Rightarrow> (service_error + function_row) \<times> db" where
  "FunctionService_Update s owner i input now =
     (if owner = [] \<or> i = [] \<or> (uf_name input = None \<and> uf_timeout_seconds input = None \<and> uf_enabled input = None)
      then (Inl SvcInvalidInput, s)
      else
        (case GetFunction s i of
           Inl e \<Rightarrow> (Inl (mapStoreError e), s)
         | Inr current \<Rightarrow>
             if fn_app_id current \<noteq> owner then (Inl SvcNotFound, s)
             else
               let f = current\<lparr>fn_name := (case uf_name input of Some n \<Rightarrow> go_trim_space n | None \<Rightarrow> fn_name current),
                               fn_timeout_seconds := coalesce (uf_timeout_seconds input) (fn_timeout_seconds current),
                               fn_enabled := coalesce (uf_enabled input) (fn_enabled current)\<rparr> in
               if \<not> ValidFunctionName (fn_name f) \<or> fn_timeout_seconds f < 1 \<or> fn_timeout_seconds f > 30
               then (Inl SvcInvalidInput, s)
               else (case UpdateFunction s owner (f\<lparr>fn_updated_at := now\<rparr>) of
                       (r, s') \<Rightarrow> (map_store r, s'))))"

definition FunctionService_Delete :: "db \<Rightarrow> string \<Rightarrow> string \<Rightarrow> (service_error + unit) \<times> db" where
  "FunctionService_Delete s owner i =
     (if owner = [] \<or> i = [] then (Inl SvcInvalidInput, s)
      else (case DeleteFunction s owner i of (r, s') \<Rightarrow> (map_store r, s')))"

definition invocationResponse :: "invocation_row \<Rightarrow> service_error + rpc_result" where
  "invocationResponse v =
     (case iv_state v of
        InvocationUnavailable \<Rightarrow> Inl SvcFunctionUnavailable
      | InvocationTimeout \<Rightarrow> Inl SvcFunctionTimeout
      | InvocationSuccess \<Rightarrow> (case iv_reply v of Some r \<Rightarrow> Inr r | None \<Rightarrow> Inl SvcConflict)
      | InvocationHandlerError \<Rightarrow> (case iv_reply v of Some r \<Rightarrow> Inr r | None \<Rightarrow> Inl SvcConflict)
      | _ \<Rightarrow> Inl SvcConflict)"

text \<open>One round of the wait for a result: what others do to the database before it, the clock of the database, and
  whether the caller's context ends before the read or during the wait that follows it.  The wait ends with a
  hint, at the deadline that applies, or with the context.\<close>

record wait_round =
  wr_between :: "db \<Rightarrow> db"
  wr_now :: time
  wr_cancelled :: bool
  wr_done :: bool

fun await_result :: "(nat \<Rightarrow> wait_round) \<Rightarrow> string \<Rightarrow> nat \<Rightarrow> nat \<Rightarrow> db \<Rightarrow> ((service_error + rpc_result) \<times> db) option" where
  "await_result rounds i n 0 s = None"
| "await_result rounds i n (Suc fuel) s =
     (let w = rounds n; s0 = wr_between w s in
      if wr_cancelled w then Some (Inl SvcContext, s0)
      else
        (case GetInvocation s0 (wr_now w) i of
           (Inl e, s1) \<Rightarrow> Some (Inl (mapStoreError e), s1)
         | (Inr current, s1) \<Rightarrow>
             if Terminal (iv_state current) then Some (invocationResponse current, s1)
             else if wr_done w then Some (Inl SvcContext, s1)
             else await_result rounds i (Suc n) fuel s1))"

definition invoke_frame :: "invocation_row \<Rightarrow> string option" where
  "invoke_frame v =
     map_option (\<lambda>input.
       object_text [(''type'', json_quote ''rpc.invoke''), (''invocation_id'', json_quote (iv_id v)),
                    (''function'', json_quote (iv_function_name v)), (''input'', input),
                    (''deadline'', json_quote (format_utc (iv_deadline v)))]) (raw_message_text (iv_input v))"

text \<open>What the surroundings give during one call: whether its context has ended, the service's clock and the fresh
  identifier, the database's clock, the configured claim timeout, and whether the watch for hints can be
  opened.\<close>

record invoke_env =
  ie_cancelled :: bool
  ie_now :: time
  ie_new_id :: string
  ie_db_now :: time
  ie_claim_timeout :: duration
  ie_watch_fails :: bool
  ie_rounds :: "nat \<Rightarrow> wait_round"

definition claim_timeout :: "invoke_env \<Rightarrow> duration" where
  "claim_timeout env =
     (if ie_claim_timeout env \<le> 0 \<or> ie_claim_timeout env > 250 * millisecond then 250 * millisecond else ie_claim_timeout env)"

definition new_invocation :: "invoke_env \<Rightarrow> function_row \<Rightarrow> string \<Rightarrow> string \<Rightarrow> invocation_row" where
  "new_invocation env f caller input =
     \<lparr>iv_id = ''inv_'' @ ie_new_id env, iv_function_id = fn_id f, iv_owner_app_id = fn_app_id f, iv_caller_app_id = caller,
      iv_idempotency_hash = [], iv_function_name = fn_name f, iv_input = input, iv_state = InvocationPending,
      iv_connection_id = None, iv_reply = None, iv_created_at = ie_now env,
      iv_claim_by = ie_now env + claim_timeout env, iv_deadline = ie_now env + fn_timeout_seconds f * second,
      iv_expires_at = zero_time, iv_updated_at = zero_time\<rparr>"

text \<open>Looking up the invocation under the key, or creating it.\<close>

definition find_or_create ::
    "(string \<Rightarrow> string) \<Rightarrow> invoke_env \<Rightarrow> db \<Rightarrow> string \<Rightarrow> string \<Rightarrow> string \<Rightarrow> string
     \<Rightarrow> (service_error + invocation_row \<times> bool) \<times> db" where
  "find_or_create sha env s caller i key input =
     (case FindInvocation sha s (ie_db_now env) caller key of
        (Inr v, s1) \<Rightarrow> (Inr (v, True), s1)
      | (Inl e, s1) \<Rightarrow>
          if e \<noteq> ErrNotFound then (Inl (mapStoreError e), s1)
          else
            (case GetFunction s1 i of
               Inl e \<Rightarrow> (Inl (mapStoreError e), s1)
             | Inr f \<Rightarrow>
                 if \<not> fn_enabled f then (Inl SvcNotFound, s1)
                 else
                   let v = new_invocation env f caller input in
                   (case invoke_frame v of
                      None \<Rightarrow> (Inl SvcInvalidInput, s1)
                    | Some frame \<Rightarrow>
                        if int (length frame) > FunctionFrameLimit then (Inl SvcInvalidInput, s1)
                        else
                          (case CreateInvocation sha s1 (ie_db_now env) v key of
                             (Inl e, s2) \<Rightarrow> (Inl (mapStoreError e), s2) | (Inr vr, s2) \<Rightarrow> (Inr vr, s2)))))"

text \<open>The answer, whether it replays an earlier invocation, the database, and the invocations announced to the
  function's owner (a failing notifier is ignored).\<close>

definition FunctionService_Invoke ::
    "(string \<Rightarrow> string) \<Rightarrow> invoke_env \<Rightarrow> nat \<Rightarrow> db \<Rightarrow> string \<Rightarrow> string \<Rightarrow> string \<Rightarrow> string
     \<Rightarrow> ((service_error + rpc_result) \<times> bool \<times> db \<times> string list) option" where
  "FunctionService_Invoke sha env fuel s caller i key input =
     (if ie_cancelled env then Some (Inl SvcContext, False, s, [])
      else if caller = [] \<or> i = [] \<or> length key > 256 \<or> go_trim_space key = [] \<or> length input > 1048576 \<or> \<not> JSONObject input
      then Some (Inl SvcInvalidInput, False, s, [])
      else
        (case find_or_create sha env s caller i key input of
           (Inl e, s1) \<Rightarrow> Some (Inl e, False, s1, [])
         | (Inr (v, replay), s1) \<Rightarrow>
             if Terminal (iv_state v) then Some (invocationResponse v, replay, s1, [])
             else if ie_watch_fails env then Some (Inl SvcContext, replay, s1, [])
             else
               (case await_result (ie_rounds env) (iv_id v) 0 fuel s1 of
                  None \<Rightarrow> None
                | Some (r, s2) \<Rightarrow> Some (r, replay, s2, if replay then [] else [iv_id v]))))"

text \<open>The result of a handler: an error is brought into canonical form before it is stored.\<close>

definition CompleteResult :: "db \<Rightarrow> time \<Rightarrow> string \<Rightarrow> string \<Rightarrow> rpc_result \<Rightarrow> (store_error + unit) \<times> db" where
  "CompleteResult s now owner connection result =
     (if owner = [] \<or> connection = [] \<or> \<not> ValidRPCResult result then (Inl ErrInvalidResult, s)
      else CompleteInvocation s now owner connection
             (if rr_ok result then result else result\<lparr>rr_error := coalesce (CanonicalRPCError (rr_error result)) []\<rparr>))"

section \<open>Invocations under concurrent calls\<close>

text \<open>The calls of callers and of the connections that serve a function, each with the clock it reads.\<close>

datatype invocation_cmd =
    InvCreate invocation_row string time
  | InvFind string string time
  | InvGet string time
  | InvClaim string string string time
  | InvAck string string string time
  | InvRelease string string string time
  | InvComplete string string rpc_result time

definition exec_inv :: "(string \<Rightarrow> string) \<Rightarrow> invocation_cmd \<Rightarrow> db \<Rightarrow> db" where
  "exec_inv sha k s =
     (case k of
        InvCreate v key now \<Rightarrow> snd (CreateInvocation sha s now v key)
      | InvFind caller key now \<Rightarrow> snd (FindInvocation sha s now caller key)
      | InvGet i now \<Rightarrow> snd (GetInvocation s now i)
      | InvClaim owner c i now \<Rightarrow> snd (ClaimInvocation s now owner c i)
      | InvAck owner c i now \<Rightarrow> snd (AcknowledgeInvocation s now owner c i)
      | InvRelease owner c i now \<Rightarrow> snd (ReleaseInvocation s now owner c i)
      | InvComplete owner c result now \<Rightarrow> snd (CompleteInvocation s now owner c result))"

definition inv_now :: "invocation_cmd \<Rightarrow> time" where
  "inv_now k =
     (case k of InvCreate _ _ now \<Rightarrow> now | InvFind _ _ now \<Rightarrow> now | InvGet _ now \<Rightarrow> now | InvClaim _ _ _ now \<Rightarrow> now
      | InvAck _ _ _ now \<Rightarrow> now | InvRelease _ _ _ now \<Rightarrow> now | InvComplete _ _ _ now \<Rightarrow> now)"

definition exec_invs :: "(string \<Rightarrow> string) \<Rightarrow> invocation_cmd list \<Rightarrow> db \<Rightarrow> db" where
  "exec_invs sha ks s = fold (exec_inv sha) ks s"

definition find_invocation :: "db \<Rightarrow> string \<Rightarrow> invocation_row option" where
  "find_invocation s i = sql_row (\<lambda>r. iv_id r = i) (function_invocations s)"

text \<open>The keys and checks of the table.\<close>

definition invocations_ok :: "db \<Rightarrow> bool" where
  "invocations_ok s \<longleftrightarrow>
     distinct (map iv_id (function_invocations s)) \<and>
     distinct (map (\<lambda>r. (iv_caller_app_id r, iv_idempotency_hash r)) (function_invocations s)) \<and>
     list_all invocation_check (function_invocations s)"

text \<open>What never changes of an invocation.\<close>

definition same_invocation :: "invocation_row \<Rightarrow> invocation_row \<Rightarrow> bool" where
  "same_invocation r r' \<longleftrightarrow>
     iv_id r' = iv_id r \<and> iv_caller_app_id r' = iv_caller_app_id r \<and> iv_idempotency_hash r' = iv_idempotency_hash r \<and>
     iv_owner_app_id r' = iv_owner_app_id r \<and> iv_claim_by r' = iv_claim_by r \<and> iv_deadline r' = iv_deadline r \<and>
     iv_expires_at r' = iv_expires_at r"

lemma same_rows [simp]:
  "same_invocation r (settled_overdue now r)" "same_invocation r (reserved_row now c r)"
  "same_invocation r (acknowledged_row now r)" "same_invocation r (released_row now r)"
  "same_invocation r (completed_row now result r)" "same_invocation r r"
  by (simp_all add: same_invocation_def settled_overdue_def reserved_row_def acknowledged_row_def released_row_def
      completed_row_def)

lemma find_invocation_in: "find_invocation s i = Some r \<Longrightarrow> r \<in> set (function_invocations s) \<and> iv_id r = i"
  by (auto simp: find_invocation_def dest: sql_row_Some)

lemma find_invocationI:
  assumes "invocations_ok s" and "r \<in> set (function_invocations s)"
  shows "find_invocation s (iv_id r) = Some r"
  using sql_row_key [of iv_id "function_invocations s" r "iv_id r"] assms by (simp add: find_invocation_def invocations_ok_def)

lemma invocations_update:
  assumes "invocations_ok s" and "function_invocations s' = sql_update P f (function_invocations s)"
    and "\<forall>r. same_invocation r (f r)"
  shows "invocations_ok s'" "find_invocation s' i = map_option (\<lambda>r. if P r then f r else r) (find_invocation s i)"
proof -
  have "map iv_id (sql_update P f (function_invocations s)) = map iv_id (function_invocations s)"
    by (rule map_key_sql_update) (use assms(3) in \<open>simp add: same_invocation_def\<close>)
  moreover have "map (\<lambda>r. (iv_caller_app_id r, iv_idempotency_hash r)) (sql_update P f (function_invocations s)) =
      map (\<lambda>r. (iv_caller_app_id r, iv_idempotency_hash r)) (function_invocations s)"
    by (rule map_key_sql_update) (use assms(3) in \<open>simp add: same_invocation_def\<close>)
  moreover have "invocation_check r \<longrightarrow> invocation_check (f r)" for r
    using assms(3) by (simp add: invocation_check_def same_invocation_def)
  ultimately show "invocations_ok s'"
    using assms(1,2) by (auto simp: invocations_ok_def list_all_iff set_sql_update)
  show "find_invocation s' i = map_option (\<lambda>r. if P r then f r else r) (find_invocation s i)"
    using sql_row_sql_update_key [of P iv_id f i "function_invocations s"] assms(2,3)
    by (simp add: find_invocation_def same_invocation_def)
qed

lemma Get_state:
  assumes "invocations_ok s"
  shows "invocations_ok (snd (GetInvocation s now i))"
    "find_invocation (snd (GetInvocation s now i)) j =
       map_option (\<lambda>r. if iv_id r = i \<and> overdue now r then settled_overdue now r else r) (find_invocation s j)"
  using invocations_update [OF assms, of "snd (GetInvocation s now i)" "\<lambda>r. iv_id r = i \<and> overdue now r" "settled_overdue now"]
  by (simp_all add: GetInvocation_def Let_def)

lemma Get_found:
  assumes "invocations_ok s" and "find_invocation s i = Some r" and "now < iv_expires_at r"
  shows "fst (GetInvocation s now i) = Inr (if overdue now r then settled_overdue now r else r)"
proof -
  define s1 where "s1 = snd (GetInvocation s now i)"
  define r1 where "r1 = (if overdue now r then settled_overdue now r else r)"
  have found: "find_invocation s1 i = Some r1"
    using Get_state(2) [OF assms(1), of now i i] assms(2) find_invocation_in [OF assms(2)] by (auto simp: s1_def r1_def)
  have ok: "invocations_ok s1" using Get_state(1) [OF assms(1)] by (simp add: s1_def)
  have "now < iv_expires_at r1" using assms(3) by (simp add: r1_def settled_overdue_def)
  then have "sql_row (\<lambda>r. iv_id r = i \<and> now < iv_expires_at r) (function_invocations s1) = Some r1"
    using find_invocation_in [OF found] ok by (intro sql_row_only [of iv_id]) (auto simp: invocations_ok_def)
  then show ?thesis unfolding GetInvocation_def Let_def s1_def r1_def by simp
qed

text \<open>A guarded transition applies to the one row that meets its guard, or the row is settled when overdue.\<close>

lemma transition_cases:
  assumes "invocations_ok s" and "transitionInvocation s now P f i c owner = (res, s')" and "\<forall>r. P r \<longrightarrow> iv_id r = i"
  obtains (refused) "res = Inl ErrInvalidResult" and "s' = s"
  | (read) "res = Inl ErrInvalidResult" and "s' = snd (GetInvocation s now i)" and "\<forall>r \<in> set (function_invocations s). \<not> P r"
  | (applied) "res = Inr ()" and "s' = s\<lparr>function_invocations := sql_update P f (function_invocations s)\<rparr>"
      and "\<exists>r \<in> set (function_invocations s). P r"
proof -
  have le: "sql_count P (function_invocations s) \<le> 1"
    by (rule sql_count_key_le1 [of iv_id _ _ i]) (use assms(1,3) in \<open>auto simp: invocations_ok_def\<close>)
  have none: "sql_count P (function_invocations s) \<noteq> 1 \<Longrightarrow> \<forall>r \<in> set (function_invocations s). \<not> P r"
    using le by (simp add: sql_count_0_iff le_Suc_eq)
  have some: "sql_count P (function_invocations s) = 1 \<Longrightarrow> \<exists>r \<in> set (function_invocations s). P r"
    using sql_count_0_iff [of P "function_invocations s"] by auto
  show thesis
  proof (cases "i = [] \<or> owner = [] \<or> c = []")
    case True
    then show ?thesis using assms(2) refused by (simp add: transitionInvocation_def)
  next
    case False
    show ?thesis
    proof (cases "sql_count P (function_invocations s) = 1")
      case True
      then show ?thesis using assms(2) False applied some by (simp add: transitionInvocation_def Let_def)
    next
      case no: False
      have "sql_update P f (function_invocations s) = function_invocations s"
        using none [OF no] by (intro sql_update_none) auto
      then show ?thesis using assms(2) False no none [OF no] read by (simp add: transitionInvocation_def Let_def)
    qed
  qed
qed

lemma CompleteInvocation_cases:
  assumes "invocations_ok s" and "CompleteInvocation s now owner c result = (res, s')"
  obtains (refused) "res = Inl ErrInvalidResult" and "s' = s"
  | (read) "res = Inl ErrInvalidResult" and "s' = snd (GetInvocation s now (rr_invocation_id result))"
      and "\<forall>r \<in> set (function_invocations s). \<not> can_complete now owner c (rr_invocation_id result) r"
  | (applied) "res = Inr ()"
      and "s' = s\<lparr>function_invocations := sql_update (can_complete now owner c (rr_invocation_id result)) (completed_row now result)
             (function_invocations s)\<rparr>"
      and "\<exists>r \<in> set (function_invocations s). can_complete now owner c (rr_invocation_id result) r"
proof (cases "owner = [] \<or> c = [] \<or> \<not> ValidRPCResult result")
  case True
  then show thesis using assms(2) refused by (simp add: CompleteInvocation_def)
next
  case False
  then have "rr_invocation_id result \<noteq> []" by (simp add: ValidRPCResult_def)
  with False assms(2) have "transitionInvocation s now (can_complete now owner c (rr_invocation_id result)) (completed_row now result)
      (rr_invocation_id result) c owner = (res, s')"
    by (simp add: CompleteInvocation_def transitionInvocation_def Let_def)
  then show thesis
  proof (rule transition_cases [OF assms(1)])
    show "\<forall>r. can_complete now owner c (rr_invocation_id result) r \<longrightarrow> iv_id r = rr_invocation_id result"
      by (simp add: can_complete_def)
  qed (rule refused; assumption | rule read; assumption | rule applied; assumption)+
qed

text \<open>How one call changes one row.\<close>

definition inv_row_step :: "db \<Rightarrow> invocation_cmd \<Rightarrow> invocation_row \<Rightarrow> invocation_row \<Rightarrow> bool" where
  "inv_row_step s k r r' \<longleftrightarrow>
     r' = r \<or> overdue (inv_now k) r \<and> r' = settled_overdue (inv_now k) r \<or>
     (case k of
        InvClaim owner c i now \<Rightarrow> can_claim s now owner c i r \<and> r' = reserved_row now c r
      | InvAck owner c i now \<Rightarrow> can_acknowledge now owner c i r \<and> r' = acknowledged_row now r
      | InvRelease owner c i now \<Rightarrow> can_release now owner c i r \<and> r' = released_row now r
      | InvComplete owner c result now \<Rightarrow>
          can_complete now owner c (rr_invocation_id result) r \<and> r' = completed_row now result r
      | _ \<Rightarrow> False)"

lemma Get_row:
  assumes "invocations_ok s" and "find_invocation s i = Some r"
  shows "\<exists>r'. find_invocation (snd (GetInvocation s now j)) i = Some r' \<and> (r' = r \<or> overdue now r \<and> r' = settled_overdue now r)"
  using Get_state(2) [OF assms(1), of now j i] assms(2) by auto

text \<open>Creating an invocation first drops expired ones under the key and then inserts or reads a row.\<close>

lemma purge_state:
  assumes "invocations_ok s" and "s1 = s\<lparr>function_invocations := filter (\<lambda>r. \<not> (Q r \<and> iv_expires_at r \<le> now)) (function_invocations s)\<rparr>"
  shows "invocations_ok s1" "find_invocation s i = Some r \<Longrightarrow> now < iv_expires_at r \<Longrightarrow> find_invocation s1 i = Some r"
proof -
  show ok: "invocations_ok s1"
    using assms by (auto simp: invocations_ok_def list_all_iff distinct_map inj_on_def)
  show "find_invocation s1 i = Some r" if "find_invocation s i = Some r" "now < iv_expires_at r"
    using find_invocation_in [OF that(1)] find_invocationI [OF ok, of r] that(2) assms(2) by auto
qed

lemma append_state:
  assumes "invocations_ok s" and "invocation_check row" and "\<forall>r \<in> set (function_invocations s). iv_id r \<noteq> iv_id row"
    and "\<forall>r \<in> set (function_invocations s). \<not> (iv_caller_app_id r = iv_caller_app_id row \<and> iv_idempotency_hash r = iv_idempotency_hash row)"
    and "s1 = s\<lparr>function_invocations := function_invocations s @ [row]\<rparr>"
  shows "invocations_ok s1" "find_invocation s i = Some r \<Longrightarrow> find_invocation s1 i = Some r"
proof -
  show ok: "invocations_ok s1"
    using assms by (force simp: invocations_ok_def list_all_iff)
  show "find_invocation s1 i = Some r" if "find_invocation s i = Some r"
    using find_invocation_in [OF that] find_invocationI [OF ok, of r] assms(5) by auto
qed

lemma CreateInvocation_cases:
  assumes "invocations_ok s"
  obtains (unchanged) "snd (CreateInvocation sha s now v key) = s"
  | (purged) Q s1 where "s1 = s\<lparr>function_invocations := filter (\<lambda>r. \<not> (Q r \<and> iv_expires_at r \<le> now)) (function_invocations s)\<rparr>"
      and "snd (CreateInvocation sha s now v key) = s1"
  | (read) Q s1 i where "s1 = s\<lparr>function_invocations := filter (\<lambda>r. \<not> (Q r \<and> iv_expires_at r \<le> now)) (function_invocations s)\<rparr>"
      and "snd (CreateInvocation sha s now v key) = snd (GetInvocation s1 now i)"
  | (inserted) Q s1 s2 row where "s1 = s\<lparr>function_invocations := filter (\<lambda>r. \<not> (Q r \<and> iv_expires_at r \<le> now)) (function_invocations s)\<rparr>"
      and "s2 = s1\<lparr>function_invocations := function_invocations s1 @ [row]\<rparr>" and "invocation_check row"
      and "\<forall>r \<in> set (function_invocations s1). iv_id r \<noteq> iv_id row"
      and "\<forall>r \<in> set (function_invocations s1). \<not> (iv_caller_app_id r = iv_caller_app_id row \<and> iv_idempotency_hash r = iv_idempotency_hash row)"
      and "snd (CreateInvocation sha s now v key) = snd (GetInvocation s2 now (iv_id v))"
proof (cases "iv_id v = [] \<or> iv_function_id v = [] \<or> iv_owner_app_id v = [] \<or> iv_caller_app_id v = [] \<or> key = []")
  case True
  then show thesis using unchanged by (simp add: CreateInvocation_def)
next
  case False
  define hash where "hash = invocationKeyHash sha (iv_caller_app_id v) key"
  define same where "same = (\<lambda>r :: invocation_row. iv_caller_app_id r = iv_caller_app_id v \<and> iv_idempotency_hash r = hash)"
  define s1 where "s1 = s\<lparr>function_invocations := filter (\<lambda>r. \<not> (same r \<and> iv_expires_at r \<le> now)) (function_invocations s)\<rparr>"
  define row where "row = v\<lparr>iv_idempotency_hash := hash, iv_state := InvocationPending, iv_connection_id := None, iv_reply := None,
    iv_expires_at := iv_created_at v + InvocationRetention, iv_updated_at := iv_created_at v\<rparr>"
  define s2 where "s2 = s1\<lparr>function_invocations := function_invocations s1 @ [row]\<rparr>"
  define callable where "callable \<longleftrightarrow> sql_exists (\<lambda>f. fn_id f = iv_function_id v \<and> fn_app_id f = iv_owner_app_id v \<and> fn_enabled f)
    (function_catalog s1) \<and> app_is_enabled s1 (iv_owner_app_id v) \<and> app_is_enabled s1 (iv_caller_app_id v)"
  have run: "CreateInvocation sha s now v key =
    (if callable \<and> \<not> (invocation_check row \<and> json_valid (iv_input row)) then (Inl ErrDB, s1)
     else if callable \<and> \<not> sql_exists same (function_invocations s1) then
       (if sql_exists (\<lambda>r. iv_id r = iv_id v) (function_invocations s1) then (Inl ErrDB, s1)
        else (case GetInvocation s2 now (iv_id v) of (Inl e, s2) \<Rightarrow> (Inl e, s2) | (Inr r, s2) \<Rightarrow> (Inr (r, False), s2)))
     else
       (case sql_row same (function_invocations s1) of
          None \<Rightarrow> (Inl ErrNotFound, s1)
        | Some r0 \<Rightarrow>
            (case GetInvocation s1 now (iv_id r0) of (Inl e, s2) \<Rightarrow> (Inl e, s2) | (Inr r, s2) \<Rightarrow> (Inr (r, True), s2))))"
    unfolding CreateInvocation_def Let_def callable_def s2_def s1_def row_def same_def hash_def by (simp only: False if_False)
  show thesis
  proof (cases "callable \<and> \<not> (invocation_check row \<and> json_valid (iv_input row))")
    case True
    show ?thesis by (rule purged [OF s1_def]) (simp only: run if_P [OF True] snd_conv)
  next
    case valid: False
    note run1 = run [unfolded if_not_P [OF valid]]
    show ?thesis
    proof (cases "callable \<and> \<not> sql_exists same (function_invocations s1)")
      case new: True
      note run2 = run1 [unfolded if_P [OF new]]
      show ?thesis
      proof (cases "sql_exists (\<lambda>r. iv_id r = iv_id v) (function_invocations s1)")
        case True
        show ?thesis by (rule purged [OF s1_def]) (simp only: run2 if_P [OF True] snd_conv)
      next
        case False
        have "snd (CreateInvocation sha s now v key) = snd (GetInvocation s2 now (iv_id v))"
          unfolding run2 if_not_P [OF False] by (simp split: prod.splits sum.splits)
        with False new valid show ?thesis
          by (intro inserted [OF s1_def s2_def]) (auto simp: row_def same_def)
      qed
    next
      case old: False
      note run2 = run1 [unfolded if_not_P [OF old]]
      show ?thesis
      proof (cases "sql_row same (function_invocations s1)")
        case None
        show ?thesis by (rule purged [OF s1_def]) (simp only: run2 None option.case snd_conv)
      next
        case (Some r0)
        have "snd (CreateInvocation sha s now v key) = snd (GetInvocation s1 now (iv_id r0))"
          unfolding run2 Some option.case by (simp split: prod.splits sum.splits)
        then show ?thesis by (rule read [OF s1_def])
      qed
    qed
  qed
qed

lemma transition_ok:
  assumes "invocations_ok s" and "\<forall>r. P r \<longrightarrow> iv_id r = i" and "\<forall>r. same_invocation r (f r)"
  shows "invocations_ok (snd (transitionInvocation s now P f i c owner))"
proof -
  obtain res s' where run: "transitionInvocation s now P f i c owner = (res, s')" by fastforce
  have "invocations_ok s'"
  proof (cases rule: transition_cases [OF assms(1) run assms(2), case_names refused read applied])
    case applied
    show ?thesis by (rule invocations_update(1) [OF assms(1) _ assms(3)]) (simp add: applied(2))
  qed (simp_all add: assms(1) Get_state(1))
  with run show ?thesis by simp
qed

lemma transition_row:
  assumes "invocations_ok s" and "\<forall>r. P r \<longrightarrow> iv_id r = i" and "\<forall>r. same_invocation r (f r)" and "find_invocation s j = Some r"
  shows "\<exists>r'. find_invocation (snd (transitionInvocation s now P f i c owner)) j = Some r' \<and>
    (r' = r \<or> overdue now r \<and> r' = settled_overdue now r \<or> P r \<and> r' = f r)"
proof -
  obtain res s' where run: "transitionInvocation s now P f i c owner = (res, s')" by fastforce
  have "\<exists>r'. find_invocation s' j = Some r' \<and> (r' = r \<or> overdue now r \<and> r' = settled_overdue now r \<or> P r \<and> r' = f r)"
  proof (cases rule: transition_cases [OF assms(1) run assms(2), case_names refused read applied])
    case refused
    then show ?thesis using assms(4) by simp
  next
    case read
    then show ?thesis using Get_row [OF assms(1,4), of now i] by blast
  next
    case applied
    then show ?thesis using invocations_update(2) [OF assms(1) _ assms(3), of s' P j] assms(4) by auto
  qed
  with run show ?thesis by simp
qed

lemma exec_inv_ok: "invocations_ok s \<Longrightarrow> invocations_ok (exec_inv sha k s)"
proof (cases k)
  case (InvCreate v key now)
  assume ok: "invocations_ok s"
  have "invocations_ok (snd (CreateInvocation sha s now v key))"
  proof (cases rule: CreateInvocation_cases [OF ok, of sha now v key, case_names unchanged purged read inserted])
    case (purged Q s1)
    then show ?thesis using purge_state(1) [OF ok purged(1)] by simp
  next
    case (read Q s1 i)
    then show ?thesis using Get_state(1) [OF purge_state(1) [OF ok read(1)]] by simp
  next
    case (inserted Q s1 s2 row)
    show ?thesis
      using Get_state(1) [OF append_state(1) [OF purge_state(1) [OF ok inserted(1)] inserted(3-5,2)]] inserted(6) by simp
  qed (simp add: ok)
  with InvCreate show ?thesis by (simp add: exec_inv_def)
next
  case (InvFind caller key now)
  assume "invocations_ok s"
  with InvFind show ?thesis by (auto simp: exec_inv_def FindInvocation_def Get_state(1) split: option.splits)
next
  case (InvGet i now)
  assume "invocations_ok s"
  with InvGet show ?thesis by (simp add: exec_inv_def Get_state(1))
next
  case (InvClaim owner c i now)
  assume ok: "invocations_ok s"
  have "invocations_ok (snd (ClaimInvocation s now owner c i))"
    unfolding ClaimInvocation_def by (rule transition_ok [OF ok]) (simp_all add: can_claim_def)
  with InvClaim show ?thesis by (simp add: exec_inv_def)
next
  case (InvAck owner c i now)
  assume ok: "invocations_ok s"
  have "invocations_ok (snd (AcknowledgeInvocation s now owner c i))"
    unfolding AcknowledgeInvocation_def by (rule transition_ok [OF ok]) (simp_all add: can_acknowledge_def)
  with InvAck show ?thesis by (simp add: exec_inv_def)
next
  case (InvRelease owner c i now)
  assume ok: "invocations_ok s"
  have "invocations_ok (snd (ReleaseInvocation s now owner c i))"
    unfolding ReleaseInvocation_def by (rule transition_ok [OF ok]) (simp_all add: can_release_def)
  with InvRelease show ?thesis by (simp add: exec_inv_def)
next
  case (InvComplete owner c result now)
  assume ok: "invocations_ok s"
  obtain res s' where run: "CompleteInvocation s now owner c result = (res, s')" by fastforce
  have "invocations_ok s'"
  proof (cases rule: CompleteInvocation_cases [OF ok run, case_names refused read applied])
    case applied
    show ?thesis by (rule invocations_update(1) [OF ok, of _ _ "completed_row now result"]) (simp_all add: applied(2))
  qed (simp_all add: ok Get_state(1))
  with InvComplete run show ?thesis by (simp add: exec_inv_def)
qed

lemma exec_inv_row:
  assumes "invocations_ok s" and "find_invocation s i = Some r" and "inv_now k < iv_expires_at r"
  shows "\<exists>r'. find_invocation (exec_inv sha k s) i = Some r' \<and> inv_row_step s k r r'"
proof (cases k)
  case (InvCreate v key now)
  have live: "now < iv_expires_at r" using assms(3) InvCreate by (simp add: inv_now_def)
  have "\<exists>r'. find_invocation (snd (CreateInvocation sha s now v key)) i = Some r' \<and> (r' = r \<or> overdue now r \<and> r' = settled_overdue now r)"
  proof (cases rule: CreateInvocation_cases [OF assms(1), of sha now v key, case_names unchanged purged read inserted])
    case unchanged
    then show ?thesis using assms(2) by simp
  next
    case (purged Q s1)
    then show ?thesis using purge_state(2) [OF assms(1) purged(1) assms(2) live] by simp
  next
    case (read Q s1 j)
    show ?thesis
      using Get_row [OF purge_state(1) [OF assms(1) read(1)] purge_state(2) [OF assms(1) read(1) assms(2) live], of now j] read(2)
      by simp
  next
    case (inserted Q s1 s2 row)
    note s1 = purge_state(1) [OF assms(1) inserted(1)] purge_state(2) [OF assms(1) inserted(1) assms(2) live]
    note s2 = append_state(1) [OF s1(1) inserted(3-5,2)] append_state(2) [OF s1(1) inserted(3-5,2) s1(2)]
    from Get_row [OF s2, of now "iv_id v"] inserted(6) show ?thesis by simp
  qed
  with InvCreate show ?thesis by (simp add: exec_inv_def inv_row_step_def inv_now_def)
next
  case (InvFind caller key now)
  then show ?thesis using assms Get_row [OF assms(1,2), of now]
    by (auto simp: exec_inv_def FindInvocation_def inv_row_step_def inv_now_def split: option.splits)
next
  case (InvGet j now)
  then show ?thesis using Get_row [OF assms(1,2), of now j] by (simp add: exec_inv_def inv_row_step_def inv_now_def)
next
  case (InvClaim owner c j now)
  then show ?thesis
    using transition_row [OF assms(1) _ _ assms(2), of "can_claim s now owner c j" j "reserved_row now c" now c owner]
    by (auto simp: exec_inv_def inv_row_step_def inv_now_def ClaimInvocation_def can_claim_def)
next
  case (InvAck owner c j now)
  then show ?thesis
    using transition_row [OF assms(1) _ _ assms(2), of "can_acknowledge now owner c j" j "acknowledged_row now" now c owner]
    by (auto simp: exec_inv_def inv_row_step_def inv_now_def AcknowledgeInvocation_def can_acknowledge_def)
next
  case (InvRelease owner c j now)
  then show ?thesis
    using transition_row [OF assms(1) _ _ assms(2), of "can_release now owner c j" j "released_row now" now c owner]
    by (auto simp: exec_inv_def inv_row_step_def inv_now_def ReleaseInvocation_def can_release_def)
next
  case (InvComplete owner c result now)
  obtain res s' where run: "CompleteInvocation s now owner c result = (res, s')" by fastforce
  have "\<exists>r'. find_invocation s' i = Some r' \<and> inv_row_step s k r r'"
  proof (cases rule: CompleteInvocation_cases [OF assms(1) run, case_names refused read applied])
    case refused
    then show ?thesis using assms(2) by (simp add: inv_row_step_def)
  next
    case read
    then show ?thesis using Get_row [OF assms(1,2), of now "rr_invocation_id result"] InvComplete
      by (auto simp: inv_row_step_def inv_now_def)
  next
    case applied
    then show ?thesis
      using invocations_update(2) [OF assms(1), of s' "can_complete now owner c (rr_invocation_id result)" "completed_row now result" i]
        assms(2) InvComplete by (auto simp: inv_row_step_def)
  qed
  with InvComplete run show ?thesis by (simp add: exec_inv_def)
qed

lemma exec_invs_ok: "invocations_ok s \<Longrightarrow> invocations_ok (exec_invs sha ks s)"
  by (induction ks arbitrary: s) (simp_all add: exec_invs_def exec_inv_ok)

text \<open>An invocation stays in the table until it expires.\<close>

lemma exec_invs_row:
  assumes "invocations_ok s" and "find_invocation s i = Some r" and "list_all (\<lambda>k. inv_now k < iv_expires_at r) ks"
  shows "\<exists>r'. find_invocation (exec_invs sha ks s) i = Some r' \<and> same_invocation r r'"
  using assms
proof (induction ks arbitrary: s r)
  case Nil
  then show ?case by (simp add: exec_invs_def)
next
  case (Cons k ks)
  obtain r1 where r1: "find_invocation (exec_inv sha k s) i = Some r1" "inv_row_step s k r r1"
    using exec_inv_row [OF Cons.prems(1,2)] Cons.prems(3) by auto
  then have same: "same_invocation r r1" by (auto simp: inv_row_step_def split: invocation_cmd.splits)
  then have "iv_expires_at r1 = iv_expires_at r" by (simp add: same_invocation_def)
  with Cons.IH [OF exec_inv_ok [OF Cons.prems(1)] r1(1)] Cons.prems(3) obtain r' where
    "find_invocation (exec_invs sha ks (exec_inv sha k s)) i = Some r'" "same_invocation r1 r'" by auto
  with same show ?case by (auto simp: exec_invs_def same_invocation_def)
qed

lemma terminal_step: "inv_row_step s k r r' \<Longrightarrow> Terminal (iv_state r) \<Longrightarrow> r' = r"
  by (auto simp: inv_row_step_def overdue_def can_claim_def can_acknowledge_def can_release_def can_complete_def Terminal_def
      split: invocation_cmd.splits)

inductive invocation_step :: "(string \<Rightarrow> string) \<Rightarrow> time \<Rightarrow> db \<Rightarrow> db \<Rightarrow> bool" for sha expiry where
  call: "inv_now k < expiry \<Longrightarrow> invocation_step sha expiry s (exec_inv sha k s)"

inductive_cases invocation_stepE: "invocation_step sha expiry s t"

interpretation invocation_rows: settled_rows "invocation_step sha expiry" invocations_ok find_invocation
  "\<lambda>r. Terminal (iv_state r) \<and> expiry \<le> iv_expires_at r" "(=)"
  for sha :: "string \<Rightarrow> string" and expiry :: time
proof unfold_locales
  show "invocation_step sha expiry s t \<Longrightarrow> invocations_ok s \<Longrightarrow> invocations_ok t" for s t
    by (auto elim!: invocation_stepE intro: exec_inv_ok)
next
  fix s t i r
  assume step: "invocation_step sha expiry s t" and ok: "invocations_ok s" and r: "find_invocation s i = Some r"
    and settled: "Terminal (iv_state r) \<and> expiry \<le> iv_expires_at r"
  from step obtain k where k: "inv_now k < expiry" "t = exec_inv sha k s" by (rule invocation_stepE)
  with exec_inv_row [OF ok r, of k sha] settled obtain r' where r': "find_invocation t i = Some r'" "inv_row_step s k r r'" by auto
  with terminal_step [OF r'(2)] settled show "\<exists>r'. find_invocation t i = Some r' \<and> (Terminal (iv_state r') \<and> expiry \<le> iv_expires_at r') \<and> r = r'"
    by auto
qed auto

lemma exec_invs_steps:
  "list_all (\<lambda>k. inv_now k < expiry) ks \<Longrightarrow> (invocation_step sha expiry)\<^sup>*\<^sup>* s (exec_invs sha ks s)"
proof (induction ks arbitrary: s)
  case (Cons k ks)
  then have "invocation_step sha expiry s (exec_inv sha k s)" by (simp add: invocation_step.call)
  with Cons.IH [of "exec_inv sha k s"] Cons.prems show ?case
    by (simp add: exec_invs_def converse_rtranclp_into_rtranclp)
qed (simp add: exec_invs_def)

lemma Get_terminal:
  assumes "invocations_ok s" and "find_invocation s i = Some r" and "Terminal (iv_state r)" and "now < iv_expires_at r"
  shows "GetInvocation s now i = (Inr r, s)"
proof -
  have no: "\<not> overdue now r" using assms(3) by (auto simp: overdue_def Terminal_def)
  have "\<forall>x \<in> set (function_invocations s). \<not> (iv_id x = i \<and> overdue now x)"
    using no find_invocationI [OF assms(1)] assms(2) by auto
  then have "sql_update (\<lambda>x. iv_id x = i \<and> overdue now x) (settled_overdue now) (function_invocations s) = function_invocations s"
    by (rule sql_update_none)
  then have "snd (GetInvocation s now i) = s" by (simp add: GetInvocation_def Let_def)
  moreover have "fst (GetInvocation s now i) = Inr r" using Get_found [OF assms(1,2,4)] no by simp
  ultimately show ?thesis by (metis prod.collapse)
qed

text \<open>The connection that has acknowledged an invocation keeps it while it neither releases nor completes it.\<close>

definition foreign_inv :: "string \<Rightarrow> string \<Rightarrow> time \<Rightarrow> invocation_cmd \<Rightarrow> bool" where
  "foreign_inv c i deadline k \<longleftrightarrow>
     inv_now k < deadline \<and>
     (case k of
        InvRelease _ c' i' _ \<Rightarrow> \<not> (c' = c \<and> i' = i)
      | InvComplete _ c' result _ \<Rightarrow> \<not> (c' = c \<and> rr_invocation_id result = i)
      | _ \<Rightarrow> True)"

lemma held_step:
  assumes "inv_row_step s k r r'" and "foreign_inv c (iv_id r) (iv_deadline r) k"
    and "iv_state r = InvocationClaimed" and "iv_connection_id r = Some c"
  shows "r' = r"
  using assms by (auto simp: inv_row_step_def foreign_inv_def overdue_def can_claim_def can_acknowledge_def can_release_def
      can_complete_def split: invocation_cmd.splits)

lemma held_run:
  assumes "invocations_ok s" and "find_invocation s i = Some r" and "iv_state r = InvocationClaimed" and "iv_connection_id r = Some c"
    and "list_all (foreign_inv c i (iv_deadline r)) ks"
  shows "find_invocation (exec_invs sha ks s) i = Some r"
  using assms
proof (induction ks arbitrary: s)
  case (Cons k ks)
  have id: "iv_id r = i" using find_invocation_in [OF Cons.prems(2)] by simp
  have "invocation_check r" using find_invocation_in [OF Cons.prems(2)] Cons.prems(1) by (auto simp: invocations_ok_def list_all_iff)
  then have "inv_now k < iv_expires_at r" using Cons.prems(5) by (simp add: invocation_check_def foreign_inv_def)
  then obtain r1 where r1: "find_invocation (exec_inv sha k s) i = Some r1" "inv_row_step s k r r1"
    using exec_inv_row [OF Cons.prems(1,2), of k sha] by blast
  have "r1 = r" using held_step [OF r1(2), of c] Cons.prems(3,4,5) id by simp
  with Cons.IH [OF exec_inv_ok [OF Cons.prems(1)]] r1(1) Cons.prems show ?case by (simp add: exec_invs_def)
qed (simp add: exec_invs_def)

lemma Acknowledge_row:
  assumes "invocations_ok s" and "AcknowledgeInvocation s at owner c i = (Inr (), s1)" and "find_invocation s i = Some r"
  shows "find_invocation s1 i = Some (acknowledged_row at r)" "can_acknowledge at owner c i r" "invocations_ok s1" "owner \<noteq> [] \<and> c \<noteq> []"
proof -
  have run: "transitionInvocation s at (can_acknowledge at owner c i) (acknowledged_row at) i c owner = (Inr (), s1)"
    using assms(2) by (simp add: AcknowledgeInvocation_def)
  then show "owner \<noteq> [] \<and> c \<noteq> []" by (auto simp: transitionInvocation_def)
  have ids: "\<forall>r. can_acknowledge at owner c i r \<longrightarrow> iv_id r = i" by (simp add: can_acknowledge_def)
  have applied: "s1 = s\<lparr>function_invocations := sql_update (can_acknowledge at owner c i) (acknowledged_row at) (function_invocations s)\<rparr>"
      "\<exists>r \<in> set (function_invocations s). can_acknowledge at owner c i r"
    by (rule transition_cases [OF assms(1) run ids]; simp)+
  then obtain x where x: "x \<in> set (function_invocations s)" "can_acknowledge at owner c i x" by blast
  then have "x = r" using find_invocationI [OF assms(1) x(1)] ids assms(3) by simp
  with x(2) show can: "can_acknowledge at owner c i r" by simp
  show "invocations_ok s1" by (rule invocations_update(1) [OF assms(1), of _ _ "acknowledged_row at"]) (simp_all add: applied(1))
  show "find_invocation s1 i = Some (acknowledged_row at r)"
    using invocations_update(2) [OF assms(1), of s1 _ "acknowledged_row at" i] applied(1) assms(3) can by simp
qed

lemma Complete_held:
  assumes "invocations_ok s" and "find_invocation s (rr_invocation_id result) = Some r"
    and "can_complete now owner c (rr_invocation_id result) r" and "ValidRPCResult result" and "owner \<noteq> []" and "c \<noteq> []"
  shows "\<exists>s'. CompleteInvocation s now owner c result = (Inr (), s') \<and> invocations_ok s' \<and>
    find_invocation s' (rr_invocation_id result) = Some (completed_row now result r)"
proof -
  obtain res s' where run: "CompleteInvocation s now owner c result = (res, s')" by fastforce
  have in': "r \<in> set (function_invocations s)" using find_invocation_in [OF assms(2)] by simp
  show ?thesis
  proof (cases rule: CompleteInvocation_cases [OF assms(1) run, case_names refused read applied])
    case refused
    have "sql_count (can_complete now owner c (rr_invocation_id result)) (function_invocations s) = 1"
      using assms(1,3) in' by (intro sql_count_key_1 [of iv_id _ r]) (auto simp: invocations_ok_def can_complete_def)
    with run refused(1) assms(4-6) show ?thesis by (simp add: CompleteInvocation_def Let_def)
  next
    case read
    with in' assms(3) show ?thesis by blast
  next
    case applied
    have "invocations_ok s'" by (rule invocations_update(1) [OF assms(1), of _ _ "completed_row now result"]) (simp_all add: applied(2))
    moreover have "find_invocation s' (rr_invocation_id result) = Some (completed_row now result r)"
      using invocations_update(2) [OF assms(1), of s' _ "completed_row now result" "rr_invocation_id result"] applied(2) assms(2,3) by simp
    ultimately show ?thesis using run applied(1) by simp
  qed
qed

text \<open>A caller that repeats the key of a finished invocation gets its outcome.\<close>

lemma Invoke_replay:
  assumes "invocations_ok s" and "find_invocation s i = Some r" and "Terminal (iv_state r)" and "ie_db_now env < iv_expires_at r"
    and "invocationKeyHash sha (iv_caller_app_id r) key = iv_idempotency_hash r" and "\<not> ie_cancelled env"
    and "iv_caller_app_id r \<noteq> []" and "f \<noteq> []" and "length key \<le> 256" and "go_trim_space key \<noteq> []"
    and "length input \<le> 1048576" and "JSONObject input"
  shows "FunctionService_Invoke sha env fuel s (iv_caller_app_id r) f key input = Some (invocationResponse r, True, s, [])"
proof -
  have "r \<in> set (function_invocations s)" "iv_id r = i" using find_invocation_in [OF assms(2)] by auto
  then have "sql_row (\<lambda>x. iv_caller_app_id x = iv_caller_app_id r \<and>
      iv_idempotency_hash x = invocationKeyHash sha (iv_caller_app_id r) key \<and> ie_db_now env < iv_expires_at x) (function_invocations s) = Some r"
    using assms(1,4,5) by (intro sql_row_only [of "\<lambda>r. (iv_caller_app_id r, iv_idempotency_hash r)"]) (auto simp: invocations_ok_def)
  then have "FindInvocation sha s (ie_db_now env) (iv_caller_app_id r) key = (Inr r, s)"
    using Get_terminal [OF assms(1-4)] \<open>iv_id r = i\<close> by (simp add: FindInvocation_def)
  with assms(3,6-) show ?thesis by (simp add: FunctionService_Invoke_def find_or_create_def)
qed

text \<open>One round of a wait: the invocation is found, and past its deadline it is settled.\<close>

lemma await_round:
  assumes "invocations_ok s" and "find_invocation s i = Some r" and "list_all (\<lambda>k. inv_now k < iv_expires_at r) ks"
    and "now < iv_expires_at r"
  obtains r1 s1 where "GetInvocation (exec_invs sha ks s) now i = (Inr r1, s1)" and "invocations_ok s1"
    and "find_invocation s1 i = Some r1" and "same_invocation r r1" and "iv_deadline r \<le> now \<longrightarrow> Terminal (iv_state r1)"
proof -
  let ?s0 = "exec_invs sha ks s"
  note ok = exec_invs_ok [OF assms(1), of sha ks]
  obtain r0 where r0: "find_invocation ?s0 i = Some r0" "same_invocation r r0" using exec_invs_row [OF assms(1-3)] by blast
  have live: "now < iv_expires_at r0" using r0(2) assms(4) by (simp add: same_invocation_def)
  define r1 where "r1 = (if overdue now r0 then settled_overdue now r0 else r0)"
  have "invocation_check r0" using find_invocation_in [OF r0(1)] ok by (auto simp: invocations_ok_def list_all_iff)
  then have "iv_deadline r \<le> now \<longrightarrow> Terminal (iv_state r1)"
    using r0(2) live
    by (cases "iv_state r0") (auto simp: r1_def overdue_def settled_overdue_def Terminal_def invocation_check_def same_invocation_def)
  moreover have "find_invocation (snd (GetInvocation ?s0 now i)) i = Some r1"
    using Get_state(2) [OF ok, of now i i] r0(1) find_invocation_in [OF r0(1)] by (simp add: r1_def)
  moreover have "GetInvocation ?s0 now i = (Inr r1, snd (GetInvocation ?s0 now i))"
    using Get_found [OF ok r0(1) live] by (metis prod.collapse r1_def)
  moreover have "same_invocation r r1" using r0(2) by (simp add: r1_def same_invocation_def settled_overdue_def)
  ultimately show thesis using Get_state(1) [OF ok, of now i] by (intro that)
qed

lemma await_from:
  assumes "invocations_ok s" and "find_invocation s i = Some r" and "n + d = j"
    and "\<forall>m. n \<le> m \<and> m \<le> j \<longrightarrow> (\<exists>ks. wr_between (rounds m) = exec_invs sha ks \<and> list_all (\<lambda>k. inv_now k < iv_expires_at r) ks)"
    and "\<forall>m. n \<le> m \<and> m \<le> j \<longrightarrow> wr_now (rounds m) < iv_expires_at r" and "iv_deadline r \<le> wr_now (rounds j)"
  shows "\<exists>res s'. await_result rounds i n (Suc d) s = Some (res, s') \<and>
    (res = Inl SvcContext \<and> (\<exists>m \<le> j. wr_cancelled (rounds m) \<or> wr_done (rounds m)) \<or>
     (\<exists>r'. find_invocation s' i = Some r' \<and> Terminal (iv_state r') \<and> res = invocationResponse r'))"
  using assms
proof (induction d arbitrary: n s r)
  case (0 n s r)
  then obtain ks where ks: "wr_between (rounds n) = exec_invs sha ks" "list_all (\<lambda>k. inv_now k < iv_expires_at r) ks" by auto
  have live: "wr_now (rounds n) < iv_expires_at r" using 0(3,5) by simp
  obtain r1 s1 where r1: "GetInvocation (exec_invs sha ks s) (wr_now (rounds n)) i = (Inr r1, s1)" "invocations_ok s1"
      "find_invocation s1 i = Some r1" "same_invocation r r1" "iv_deadline r \<le> wr_now (rounds n) \<longrightarrow> Terminal (iv_state r1)"
    by (rule await_round [OF 0(1,2) ks(2) live])
  have "Terminal (iv_state r1)" using r1(5) 0(3,6) by simp
  with r1(1,3) 0(3) ks(1) show ?case by (cases "wr_cancelled (rounds n)") (auto simp: Let_def)
next
  case (Suc d n s r)
  then obtain ks where ks: "wr_between (rounds n) = exec_invs sha ks" "list_all (\<lambda>k. inv_now k < iv_expires_at r) ks" by auto
  have live: "wr_now (rounds n) < iv_expires_at r" using Suc.prems(3,5) by simp
  obtain r1 s1 where r1: "GetInvocation (exec_invs sha ks s) (wr_now (rounds n)) i = (Inr r1, s1)" "invocations_ok s1"
      "find_invocation s1 i = Some r1" "same_invocation r r1" "iv_deadline r \<le> wr_now (rounds n) \<longrightarrow> Terminal (iv_state r1)"
    by (rule await_round [OF Suc.prems(1,2) ks(2) live])
  show ?case
  proof (cases "wr_cancelled (rounds n) \<or> Terminal (iv_state r1) \<or> wr_done (rounds n)")
    case True
    have "n \<le> j" using Suc.prems(3) by simp
    with True r1(1,3) ks(1) show ?thesis by (auto simp: Let_def)
  next
    case False
    then have step: "await_result rounds i n (Suc (Suc d)) s = await_result rounds i (Suc n) (Suc d) s1"
      using r1(1) ks(1) by (simp add: Let_def)
    have "iv_expires_at r1 = iv_expires_at r" "iv_deadline r1 = iv_deadline r" using r1(4) by (simp_all add: same_invocation_def)
    then show ?thesis using Suc.IH [OF r1(2,3), of "Suc n"] Suc.prems(3-6) unfolding step by simp
  qed
qed

section \<open>Properties\<close>

text \<open>C17. The outcome of an invocation is final.  Once it has succeeded, failed in the handler, timed out or been found
  unavailable, no sequence of calls of callers and connections changes its row until it expires: no second handler
  result, no late result after a timeout, and every read gives the same outcome.\<close>

theorem invocation_outcome_final:
  assumes "invocations_ok s" and "find_invocation s i = Some r" and "Terminal (iv_state r)"
    and "(invocation_step sha (iv_expires_at r))\<^sup>*\<^sup>* s t" and "now < iv_expires_at r"
  shows "find_invocation t i = Some r \<and> GetInvocation t now i = (Inr r, t)"
proof -
  have found: "find_invocation t i = Some r"
    using invocation_rows.run_settled [OF assms(4,1,2)] assms(3) by auto
  moreover have "invocations_ok t" using invocation_rows.run_inv [OF assms(4,1)] .
  ultimately show ?thesis using Get_terminal assms(3,5) by blast
qed

text \<open>C11. The result of a handler reaches the caller.  A connection that has acknowledged an invocation holds it against
  every other connection: whatever calls others make before the deadline, the result it sends before the deadline is
  accepted.  From then on, whatever calls follow until the invocation expires, every call of the caller with the same
  key is answered with that result, marked as a replay, and changes nothing.\<close>

theorem handler_result_returned:
  assumes "invocations_ok s" and "find_invocation s i = Some r" and "AcknowledgeInvocation s at owner c i = (Inr (), s1)"
    and "list_all (foreign_inv c i (iv_deadline r)) others"
    and "now < iv_deadline r" and "ValidRPCResult result" and "rr_invocation_id result = i"
    and "invocationKeyHash sha (iv_caller_app_id r) key = iv_idempotency_hash r"
    and "iv_caller_app_id r \<noteq> []" and "length key \<le> 256" and "go_trim_space key \<noteq> []"
  shows "\<exists>s3. CompleteInvocation (exec_invs sha others s1) now owner c result = (Inr (), s3) \<and>
     (\<forall>later env fuel f input.
        list_all (\<lambda>k. inv_now k < iv_expires_at r) later \<and> ie_db_now env < iv_expires_at r \<and> \<not> ie_cancelled env \<and>
        f \<noteq> [] \<and> length input \<le> 1048576 \<and> JSONObject input \<longrightarrow>
        FunctionService_Invoke sha env fuel (exec_invs sha later s3) (iv_caller_app_id r) f key input =
          Some (Inr (stored_reply result), True, exec_invs sha later s3, []))"
proof -
  note ack = Acknowledge_row [OF assms(1,3,2)]
  let ?r1 = "acknowledged_row at r" and ?s2 = "exec_invs sha others s1"
  have r1: "iv_state ?r1 = InvocationClaimed" "iv_connection_id ?r1 = Some c" "iv_deadline ?r1 = iv_deadline r"
    "iv_owner_app_id ?r1 = owner" "iv_id ?r1 = i"
    using ack(2) by (simp_all add: acknowledged_row_def can_acknowledge_def)
  have held: "find_invocation ?s2 i = Some ?r1"
    using held_run [OF ack(3,1) r1(1,2)] assms(4) r1(3) by simp
  have can: "can_complete now owner c (rr_invocation_id result) ?r1"
    using r1 assms(5,7) by (simp add: can_complete_def)
  have found: "find_invocation ?s2 (rr_invocation_id result) = Some ?r1" using held assms(7) by simp
  obtain s3 where s3: "CompleteInvocation ?s2 now owner c result = (Inr (), s3)" "invocations_ok s3"
      "find_invocation s3 i = Some (completed_row now result ?r1)"
    using Complete_held [OF exec_invs_ok [OF ack(3)] found can assms(6)] ack(4) assms(7) by auto
  define r3 where "r3 = completed_row now result ?r1"
  have r3: "Terminal (iv_state r3)" "iv_expires_at r3 = iv_expires_at r" "iv_caller_app_id r3 = iv_caller_app_id r"
    "iv_idempotency_hash r3 = iv_idempotency_hash r" "invocationResponse r3 = Inr (stored_reply result)"
    by (simp_all add: r3_def completed_row_def acknowledged_row_def Terminal_def invocationResponse_def)
  have "FunctionService_Invoke sha env fuel (exec_invs sha later s3) (iv_caller_app_id r) f key input =
      Some (Inr (stored_reply result), True, exec_invs sha later s3, [])"
    if asm: "list_all (\<lambda>k. inv_now k < iv_expires_at r) later" "ie_db_now env < iv_expires_at r" "\<not> ie_cancelled env"
      "f \<noteq> []" "length input \<le> 1048576" "JSONObject input" for later env fuel f input
  proof -
    have "find_invocation (exec_invs sha later s3) i = Some r3"
      using invocation_rows.run_settled [OF exec_invs_steps [OF asm(1), of sha s3] s3(2,3)] r3(1,2) by (simp add: r3_def)
    from Invoke_replay [OF exec_invs_ok [OF s3(2)] this r3(1), of env sha key f input fuel] asm r3 assms(8-11) show ?thesis
      by simp
  qed
  with s3(1) show ?thesis by blast
qed

text \<open>C35. The wait for a result ends.  As soon as a round of the wait reads the clock of the database at or after the
  deadline of the invocation, the wait has returned: with the outcome of the invocation, which is settled in the
  store, or because the caller's context ended; whatever calls of others happen between the rounds before the
  invocation expires.\<close>

theorem await_result_ends:
  assumes "invocations_ok s" and "find_invocation s i = Some r"
    and "\<forall>m \<le> j. \<exists>ks. wr_between (rounds m) = exec_invs sha ks \<and> list_all (\<lambda>k. inv_now k < iv_expires_at r) ks"
    and "\<forall>m \<le> j. wr_now (rounds m) < iv_expires_at r" and "iv_deadline r \<le> wr_now (rounds j)"
  shows "\<exists>res s'. await_result rounds i 0 (Suc j) s = Some (res, s') \<and>
    (res = Inl SvcContext \<and> (\<exists>m \<le> j. wr_cancelled (rounds m) \<or> wr_done (rounds m)) \<or>
     (\<exists>r'. find_invocation s' i = Some r' \<and> Terminal (iv_state r') \<and> res = invocationResponse r'))"
  using await_from [OF assms(1,2), of 0 j j rounds sha] assms(3-5) by simp

section \<open>Witnesses\<close>

definition example_invocation :: invocation_row where
  "example_invocation =
     \<lparr>iv_id = ''inv_1'', iv_function_id = ''fn_1'', iv_owner_app_id = ''b'', iv_caller_app_id = ''a'',
      iv_idempotency_hash = invocationKeyHash rev ''a'' ''key'', iv_function_name = ''sum'', iv_input = ''{}'',
      iv_state = InvocationReserved, iv_connection_id = Some ''c1'', iv_reply = None, iv_created_at = 0,
      iv_claim_by = 250 * millisecond, iv_deadline = 5 * second, iv_expires_at = InvocationRetention, iv_updated_at = 0\<rparr>"

definition function_db :: db where
  "function_db = empty_db\<lparr>function_invocations := [example_invocation]\<rparr>"

definition example_result :: rpc_result where
  "example_result = \<lparr>rr_invocation_id = ''inv_1'', rr_ok = True, rr_result = ''42'', rr_error = []\<rparr>"

definition example_invoke :: invoke_env where
  "example_invoke = \<lparr>ie_cancelled = False, ie_now = 3 * second, ie_new_id = ''2'', ie_db_now = 3 * second, ie_claim_timeout = 0,
     ie_watch_fails = False, ie_rounds = (\<lambda>_. \<lparr>wr_between = id, wr_now = 0, wr_cancelled = False, wr_done = False\<rparr>)\<rparr>"

text \<open>Another connection tries to take the invocation over in between.\<close>

definition other_connection :: "invocation_cmd list" where
  "other_connection = [InvClaim ''b'' ''c2'' ''inv_1'' second, InvAck ''b'' ''c2'' ''inv_1'' second,
     InvComplete ''b'' ''c2'' example_result second, InvGet ''inv_1'' (2 * second)]"

lemma function_db_facts:
  "invocations_ok function_db" "find_invocation function_db ''inv_1'' = Some example_invocation"
  by code_simp+

theorem handler_result_returned_witness:
  "\<exists>s1 s3. AcknowledgeInvocation function_db (100 * millisecond) ''b'' ''c1'' ''inv_1'' = (Inr (), s1) \<and>
     CompleteInvocation (exec_invs rev other_connection s1) (3 * second) ''b'' ''c1'' example_result = (Inr (), s3) \<and>
     FunctionService_Invoke rev example_invoke 0 (exec_invs rev other_connection s3) ''a'' ''fn_1'' ''key'' ''{}'' =
       Some (Inr (stored_reply example_result), True, exec_invs rev other_connection s3, [])"
proof -
  have "fst (AcknowledgeInvocation function_db (100 * millisecond) ''b'' ''c1'' ''inv_1'') = Inr ()" by code_simp
  then obtain s1 where s1: "AcknowledgeInvocation function_db (100 * millisecond) ''b'' ''c1'' ''inv_1'' = (Inr (), s1)"
    by (metis prod.collapse)
  have facts: "list_all (foreign_inv ''c1'' ''inv_1'' (iv_deadline example_invocation)) other_connection"
    "3 * second < iv_deadline example_invocation" "ValidRPCResult example_result" "rr_invocation_id example_result = ''inv_1''"
    "invocationKeyHash rev (iv_caller_app_id example_invocation) ''key'' = iv_idempotency_hash example_invocation"
    "iv_caller_app_id example_invocation \<noteq> []" "length ''key'' \<le> 256" "go_trim_space ''key'' \<noteq> []"
    by code_simp+
  have later: "list_all (\<lambda>k. inv_now k < iv_expires_at example_invocation) other_connection"
    "ie_db_now example_invoke < iv_expires_at example_invocation" "\<not> ie_cancelled example_invoke" "JSONObject ''{}''"
    "iv_caller_app_id example_invocation = ''a''"
    by code_simp+
  obtain s3 where s3: "CompleteInvocation (exec_invs rev other_connection s1) (3 * second) ''b'' ''c1'' example_result = (Inr (), s3)"
    and replay: "\<forall>later env fuel f input.
        list_all (\<lambda>k. inv_now k < iv_expires_at example_invocation) later \<and> ie_db_now env < iv_expires_at example_invocation \<and>
        \<not> ie_cancelled env \<and> f \<noteq> [] \<and> length input \<le> 1048576 \<and> JSONObject input \<longrightarrow>
        FunctionService_Invoke rev env fuel (exec_invs rev later s3) (iv_caller_app_id example_invocation) f ''key'' input =
          Some (Inr (stored_reply example_result), True, exec_invs rev later s3, [])"
    using handler_result_returned [OF function_db_facts s1 facts] by blast
  have "FunctionService_Invoke rev example_invoke 0 (exec_invs rev other_connection s3) ''a'' ''fn_1'' ''key'' ''{}'' =
      Some (Inr (stored_reply example_result), True, exec_invs rev other_connection s3, [])"
    using replay [rule_format, of other_connection example_invoke "''fn_1''" "''{}''" 0] later by simp
  with s1 s3 show ?thesis by blast
qed

theorem invocation_outcome_final_witness:
  "let r = example_invocation\<lparr>iv_state := InvocationTimeout, iv_connection_id := None\<rparr>;
       s = function_db\<lparr>function_invocations := [r]\<rparr> in
   find_invocation (exec_invs rev other_connection s) ''inv_1'' = Some r \<and>
   GetInvocation (exec_invs rev other_connection s) (6 * second) ''inv_1'' = (Inr r, exec_invs rev other_connection s)"
proof -
  define r where "r = example_invocation\<lparr>iv_state := InvocationTimeout, iv_connection_id := None\<rparr>"
  define s where "s = function_db\<lparr>function_invocations := [r]\<rparr>"
  have facts: "invocations_ok s" "find_invocation s ''inv_1'' = Some r" "Terminal (iv_state r)" "6 * second < iv_expires_at r"
    "list_all (\<lambda>k. inv_now k < iv_expires_at r) other_connection"
    unfolding s_def r_def by code_simp+
  from invocation_outcome_final [OF facts(1-3) exec_invs_steps [OF facts(5), of rev s] facts(4)] show ?thesis
    by (simp add: s_def r_def Let_def)
qed

text \<open>Nobody serves the invocation: the second round reads the clock after the deadline.\<close>

definition example_wait_rounds :: "nat \<Rightarrow> wait_round" where
  "example_wait_rounds n = \<lparr>wr_between = exec_invs rev [], wr_now = int n * (6 * second), wr_cancelled = False, wr_done = False\<rparr>"

theorem await_result_ends_witness:
  "\<exists>res s'. await_result example_wait_rounds ''inv_1'' 0 2 function_db = Some (res, s') \<and>
    (\<exists>r'. find_invocation s' ''inv_1'' = Some r' \<and> Terminal (iv_state r') \<and> res = invocationResponse r')"
proof -
  have "\<exists>res s'. await_result example_wait_rounds ''inv_1'' 0 (Suc 1) function_db = Some (res, s') \<and>
    (res = Inl SvcContext \<and> (\<exists>m \<le> 1. wr_cancelled (example_wait_rounds m) \<or> wr_done (example_wait_rounds m)) \<or>
     (\<exists>r'. find_invocation s' ''inv_1'' = Some r' \<and> Terminal (iv_state r') \<and> res = invocationResponse r'))"
  proof (rule await_result_ends [OF function_db_facts, where sha = rev])
    show "\<forall>m\<le>1. \<exists>ks. wr_between (example_wait_rounds m) = exec_invs rev ks \<and>
        list_all (\<lambda>k. inv_now k < iv_expires_at example_invocation) ks"
      by (auto simp: example_wait_rounds_def intro!: exI [of _ "[]"])
  qed (auto simp: example_wait_rounds_def example_invocation_def InvocationRetention_def le_Suc_eq)
  then show ?thesis by (auto simp: example_wait_rounds_def numeral_2_eq_2)
qed

end
