(* ===== verification/Routing.thy ===== *)
theory Routing
  imports Services
begin

text \<open>
  Routing rules: \<^verbatim>\<open>store/postgres/routing.go\<close> and \<^verbatim>\<open>service/routing.go\<close>, with the lookup of an application
  (\<^verbatim>\<open>store/postgres/apps.go\<close>) that both use.  A deleted rule stays in the table with the instant of its
  deletion.
\<close>

section \<open>The store\<close>

definition GetApplication :: "db \<Rightarrow> string \<Rightarrow> store_error + application" where
  "GetApplication s i = (case sql_row (\<lambda>a. app_id a = i) (applications s) of None \<Rightarrow> Inl ErrNotFound | Some a \<Rightarrow> Inr a)"

definition btrim :: "string \<Rightarrow> string" where
  "btrim t = rev (dropWhile (\<lambda>c. c = CHR '' '') (rev (dropWhile (\<lambda>c. c = CHR '' '') t)))"

definition trimmed_text :: "string \<Rightarrow> bool" where "trimmed_text t \<longleftrightarrow> t = btrim t \<and> t \<noteq> []"

definition routing_check :: "routing_rule \<Rightarrow> bool" where
  "routing_check r \<longleftrightarrow>
     trimmed_text (rl_event_type r) \<and> trimmed_text (rl_target_app_id r) \<and>
     (case rl_realtime_channel r of None \<Rightarrow> True | Some c \<Rightarrow> trimmed_text c)"

definition routing_references :: "db \<Rightarrow> routing_rule \<Rightarrow> bool" where
  "routing_references s r \<longleftrightarrow>
     sql_exists (\<lambda>a. app_id a = rl_target_app_id r) (applications s) \<and>
     (case rl_source_app_id r of None \<Rightarrow> True | Some i \<Rightarrow> sql_exists (\<lambda>a. app_id a = i) (applications s))"

definition CreateRoutingRule :: "db \<Rightarrow> routing_rule \<Rightarrow> (store_error + unit) \<times> db" where
  "CreateRoutingRule s rule =
     (let row = rule\<lparr>rl_deleted_at := None\<rparr> in
      if \<not> routing_check row then (Inl ErrDB, s)
      else if sql_exists (\<lambda>r. rl_id r = rl_id row) (routing_rules s) then (Inl ErrConflict, s)
      else if \<not> routing_references s row then (Inl ErrInvalidTarget, s)
      else (Inr (), s\<lparr>routing_rules := routing_rules s @ [row]\<rparr>))"

definition ListRoutingRules :: "db \<Rightarrow> routing_rule list" where
  "ListRoutingRules s =
     sort_key (\<lambda>r. (rl_created_at r, rl_id r)) (filter (\<lambda>r. rl_deleted_at r = None) (routing_rules s))"

definition GetRoutingRule :: "db \<Rightarrow> string \<Rightarrow> store_error + routing_rule" where
  "GetRoutingRule s i =
     (case sql_row (\<lambda>r. rl_id r = i \<and> rl_deleted_at r = None) (routing_rules s) of None \<Rightarrow> Inl ErrNotFound | Some r \<Rightarrow> Inr r)"

definition updated_rule :: "routing_rule \<Rightarrow> routing_rule \<Rightarrow> routing_rule" where
  "updated_rule rule r =
     r\<lparr>rl_source_app_id := rl_source_app_id rule, rl_event_type := rl_event_type rule, rl_target_app_id := rl_target_app_id rule,
       rl_realtime_channel := rl_realtime_channel rule, rl_enabled := rl_enabled rule,
       rl_updated_at := max (rl_updated_at r) (rl_updated_at rule)\<rparr>"

definition UpdateRoutingRule :: "db \<Rightarrow> routing_rule \<Rightarrow> (store_error + routing_rule) \<times> db" where
  "UpdateRoutingRule s rule =
     (let P = (\<lambda>r. rl_id r = rl_id rule \<and> rl_deleted_at r = None) in
      case sql_row P (routing_rules s) of
        None \<Rightarrow> (Inl ErrNotFound, s)
      | Some r \<Rightarrow>
          if \<not> routing_check (updated_rule rule r) then (Inl ErrDB, s)
          else if \<not> routing_references s (updated_rule rule r) then (Inl ErrInvalidTarget, s)
          else (Inr (updated_rule rule r), s\<lparr>routing_rules := sql_update P (updated_rule rule) (routing_rules s)\<rparr>))"

definition DeleteRoutingRule :: "db \<Rightarrow> string \<Rightarrow> time \<Rightarrow> (store_error + unit) \<times> db" where
  "DeleteRoutingRule s i now =
     (let P = (\<lambda>r. rl_id r = i \<and> rl_deleted_at r = None) in
      if \<not> sql_exists P (routing_rules s) then (Inl ErrNotFound, s)
      else (Inr (), s\<lparr>routing_rules :=
              sql_update P (\<lambda>r. r\<lparr>rl_deleted_at := Some now, rl_updated_at := max (rl_updated_at r) now\<rparr>) (routing_rules s)\<rparr>))"

text \<open>Rules of the source first, by source, then the rules for every source.\<close>

definition routing_order :: "routing_rule \<Rightarrow> bool \<times> string \<times> time \<times> string" where
  "routing_order r = (rl_source_app_id r = None, coalesce (rl_source_app_id r) [], rl_created_at r, rl_id r)"

definition ResolveRoutingRules :: "db \<Rightarrow> string \<Rightarrow> string \<Rightarrow> routing_rule list" where
  "ResolveRoutingRules s source eventType =
     sort_key routing_order
       (filter (\<lambda>r. rl_deleted_at r = None \<and> rl_enabled r \<and> rl_event_type r = eventType \<and>
                    (rl_source_app_id r = None \<or> rl_source_app_id r = Some source)) (routing_rules s))"

section \<open>The service\<close>

record rule_input =
  ri_source_app_id :: "string option"
  ri_event_type :: string
  ri_target_app_id :: string
  ri_realtime_channel :: "string option"
  ri_enabled :: "bool option"

text \<open>A change of an optional field is given by \<open>Some\<close> of its new value.\<close>

record rule_change =
  rg_source_app_id :: "string option option"
  rg_event_type :: "string option"
  rg_target_app_id :: "string option"
  rg_realtime_channel :: "string option option"
  rg_enabled :: "bool option"

definition normalizeStringPointer :: "string option \<Rightarrow> string option" where
  "normalizeStringPointer v =
     (case v of None \<Rightarrow> None | Some t \<Rightarrow> (let trimmed = go_trim_space t in if trimmed = [] then None else Some trimmed))"

definition enabled_application :: "db \<Rightarrow> string \<Rightarrow> bool" where
  "enabled_application s i = (case GetApplication s i of Inl _ \<Rightarrow> False | Inr a \<Rightarrow> app_enabled a)"

definition validateRule :: "db \<Rightarrow> routing_rule \<Rightarrow> bool" where
  "validateRule s rule \<longleftrightarrow>
     go_trim_space (rl_id rule) \<noteq> [] \<and> go_trim_space (rl_event_type rule) \<noteq> [] \<and> go_trim_space (rl_target_app_id rule) \<noteq> [] \<and>
     (case rl_source_app_id rule of None \<Rightarrow> True | Some i \<Rightarrow> enabled_application s i) \<and>
     enabled_application s (rl_target_app_id rule) \<and>
     (case rl_realtime_channel rule of None \<Rightarrow> True | Some c \<Rightarrow> ValidRealtimeChannel c)"

text \<open>\<open>newID\<close> is the identifier the generator gives, \<open>None\<close> when it fails.\<close>

definition newRule :: "db \<Rightarrow> rule_input \<Rightarrow> string option \<Rightarrow> time \<Rightarrow> service_error + routing_rule" where
  "newRule s input newID now =
     (case newID of
        None \<Rightarrow> Inl SvcRandom
      | Some i \<Rightarrow>
          let rule = \<lparr>rl_id = i, rl_source_app_id = normalizeStringPointer (ri_source_app_id input),
                rl_event_type = go_trim_space (ri_event_type input), rl_target_app_id = go_trim_space (ri_target_app_id input),
                rl_realtime_channel = normalizeStringPointer (ri_realtime_channel input),
                rl_enabled = coalesce (ri_enabled input) True, rl_created_at = now, rl_updated_at = now, rl_deleted_at = None\<rparr> in
          if validateRule s rule then Inr rule else Inl SvcInvalidInput)"

definition RoutingService_Create :: "db \<Rightarrow> rule_input \<Rightarrow> string option \<Rightarrow> time \<Rightarrow> (service_error + routing_rule) \<times> db" where
  "RoutingService_Create s input newID now =
     (case newRule s input newID now of
        Inl e \<Rightarrow> (Inl e, s)
      | Inr rule \<Rightarrow> (case CreateRoutingRule s rule of (Inl e, s') \<Rightarrow> (Inl (mapStoreError e), s') | (Inr _, s') \<Rightarrow> (Inr rule, s')))"

definition RoutingService_Update :: "db \<Rightarrow> string \<Rightarrow> rule_change \<Rightarrow> time \<Rightarrow> (service_error + routing_rule) \<times> db" where
  "RoutingService_Update s i input now =
     (if go_trim_space i = [] then (Inl SvcInvalidInput, s)
      else
        (case GetRoutingRule s i of
           Inl e \<Rightarrow> (Inl (mapStoreError e), s)
         | Inr current \<Rightarrow>
             let rule = current
                   \<lparr>rl_source_app_id := (case rg_source_app_id input of Some v \<Rightarrow> normalizeStringPointer v | None \<Rightarrow> rl_source_app_id current),
                    rl_event_type := (case rg_event_type input of Some t \<Rightarrow> go_trim_space t | None \<Rightarrow> rl_event_type current),
                    rl_target_app_id := (case rg_target_app_id input of Some t \<Rightarrow> go_trim_space t | None \<Rightarrow> rl_target_app_id current),
                    rl_realtime_channel :=
                      (case rg_realtime_channel input of Some v \<Rightarrow> normalizeStringPointer v | None \<Rightarrow> rl_realtime_channel current),
                    rl_enabled := coalesce (rg_enabled input) (rl_enabled current), rl_updated_at := now\<rparr> in
             if \<not> validateRule s rule then (Inl SvcInvalidInput, s)
             else (case UpdateRoutingRule s rule of (r, s') \<Rightarrow> (map_store r, s'))))"

definition RoutingService_Delete :: "db \<Rightarrow> string \<Rightarrow> time \<Rightarrow> (service_error + unit) \<times> db" where
  "RoutingService_Delete s i now =
     (if go_trim_space i = [] then (Inl SvcInvalidInput, s)
      else (case DeleteRoutingRule s i now of (r, s') \<Rightarrow> (map_store r, s')))"

definition RoutingService_List :: "db \<Rightarrow> routing_rule list" where
  "RoutingService_List s = ListRoutingRules s"

definition RoutingService_Resolve :: "db \<Rightarrow> string \<Rightarrow> string \<Rightarrow> routing_rule list" where
  "RoutingService_Resolve s source eventType = ResolveRoutingRules s source eventType"

end
