(* ===== verification/Events.thy ===== *)
theory Events
  imports QueueSchedules Routing
begin

text \<open>
  Publication of events: \<^verbatim>\<open>store/postgres/events.go\<close> and the publishing and reading half of
  \<^verbatim>\<open>service/events.go\<close>.  One transaction writes the event, its queue deliveries with their deduplication
  keys, a delivery with its outbox message for every sink of every target, and the idempotency record.
  SHA-256, the database's \<^verbatim>\<open>md5\<close> and the subject token of an identifier are parameters; \<open>dbNow\<close> is the
  database's clock.
\<close>

section \<open>Identities and subjects\<close>

definition idempotencyHash :: "(string \<Rightarrow> string) \<Rightarrow> string \<Rightarrow> string \<Rightarrow> string" where
  "idempotencyHash sha source key = hex_encode (sha (source @ CHR 0x00 # key))"

definition derivedCallbackDeliveryID :: "(string \<Rightarrow> string) \<Rightarrow> string \<Rightarrow> string" where
  "derivedCallbackDeliveryID sha jobID = ''dlv_cb_'' @ hex_encode (take 16 (sha (''callback'' @ CHR 0x00 # jobID)))"

definition outboxIdentities :: "(string \<Rightarrow> string) \<Rightarrow> string \<Rightarrow> string \<times> string" where
  "outboxIdentities sha deliveryID =
     (let encoded = hex_encode (sha (''outbox'' @ CHR 0x00 # deliveryID)) in
      (''obx_'' @ take 32 encoded, ''rh-v1-'' @ encoded))"

definition big_endian :: "string \<Rightarrow> int" where
  "big_endian bs = foldl (\<lambda>n c. n * 256 + byte_of c) 0 bs"

definition deliverySubject ::
    "(string \<Rightarrow> string) \<Rightarrow> (string \<Rightarrow> string) \<Rightarrow> string \<Rightarrow> sink \<Rightarrow> string option" where
  "deliverySubject sha token_of appID sink =
     (case sink of
        StreamSink \<Rightarrow> map_option as_deliveries (SubjectsForApp token_of appID)
      | CallbackSink \<Rightarrow> CallbackSubject (big_endian (take 2 (sha appID)) mod 64))"

section \<open>Policies of the targets\<close>

definition callbackEnabled :: "application \<Rightarrow> bool" where
  "callbackEnabled a \<longleftrightarrow>
     (case app_callback_url a of None \<Rightarrow> False | Some u \<Rightarrow> go_trim_space u \<noteq> []) \<and>
     app_delivery_mode a \<in> {DeliveryCallback, DeliveryAll}"

definition enabledSinks :: "application \<Rightarrow> sink list" where
  "enabledSinks a =
     (if app_delivery_mode a \<in> {DeliveryQueue, DeliveryWebSocket, DeliveryAll} then [StreamSink] else []) @
     (if callbackEnabled a then [CallbackSink] else [])"

definition lockTargetPolicies :: "db \<Rightarrow> string list \<Rightarrow> store_error + (string \<times> application) list" where
  "lockTargetPolicies s targets =
     (let policies = map (\<lambda>a. (app_id a, a))
            (sort_key app_id (filter (\<lambda>a. app_id a \<in> set targets \<and> app_enabled a) (applications s))) in
      if length policies \<noteq> length targets then Inl ErrInvalidTarget
      else if list_ex (\<lambda>t. case map_of policies t of None \<Rightarrow> True | Some a \<Rightarrow> enabledSinks a = []) (sort targets)
      then Inl ErrInvalidTarget
      else Inr policies)"

section \<open>The publication\<close>

record event_retention =
  rt_event :: duration
  rt_job :: duration
  rt_idempotency :: duration

definition validatePublication :: "event_publication \<Rightarrow> string \<Rightarrow> event_retention \<Rightarrow> bool" where
  "validatePublication p key retention \<longleftrightarrow>
     (let e = pb_event p; targets = e_target_app_ids e in
      go_trim_space key \<noteq> [] \<and> e_id e \<noteq> [] \<and> e_type e \<noteq> [] \<and> e_source_app_id e \<noteq> [] \<and> targets \<noteq> [] \<and>
      JSONObject (e_data e) \<and> 0 < rt_event retention \<and> 0 < rt_idempotency retention \<and>
      length (pb_jobs p) = length targets \<and> [] \<notin> set targets \<and> distinct targets \<and>
      list_all (\<lambda>j. j_id j \<noteq> [] \<and> j_event_id j = e_id e \<and> j_source_app_id j = e_source_app_id e \<and>
                    j_target_app_id j \<in> set targets) (pb_jobs p) \<and>
      distinct (map j_target_app_id (pb_jobs p)))"

text \<open>
  The record is kept as the encoded publication and decoded when it is read.  The event goes through its
  encoder and decoder; the fields of a job are texts the database has accepted, numbers and instants in UTC,
  which come back as they were.
\<close>

definition stored_publication :: "event_publication \<Rightarrow> event_publication option" where
  "stored_publication p =
     map_option (\<lambda>e. p\<lparr>pb_event := e\<rparr>) (Option.bind (event_text (pb_event p)) unmarshal_event)"

definition idempotency_key :: "string \<Rightarrow> string \<Rightarrow> idempotency_row \<Rightarrow> bool" where
  "idempotency_key source hash r \<longleftrightarrow> ei_source_app_id r = source \<and> ei_key_hash r = hash"

definition FindPublication ::
    "(string \<Rightarrow> string) \<Rightarrow> db \<Rightarrow> time \<Rightarrow> string \<Rightarrow> string \<Rightarrow> store_error + event_publication" where
  "FindPublication sha s dbNow source key =
     (case sql_row (\<lambda>r. idempotency_key source (idempotencyHash sha source key) r \<and> ei_expires_at r > dbNow)
             (event_idempotency s) of
        None \<Rightarrow> Inl ErrNotFound
      | Some r \<Rightarrow> Inr (ei_publication r))"

text \<open>The row of an event, with the values the queue takes from it.\<close>

definition event_row_of :: "event \<Rightarrow> duration \<Rightarrow> event_row" where
  "event_row_of e keep =
     \<lparr>ev_id = e_id e, ev_type = e_type e, ev_source_app_id = e_source_app_id e,
      ev_target_app_ids = e_target_app_ids e, ev_data = e_data e, ev_created_at = fst (e_created_at e),
      ev_expires_at = fst (e_created_at e) + keep,
      ev_queue_available_at =
        map_option (\<lambda>q. if fst (qe_available_at q) = zero_time then fst (e_created_at e) else fst (qe_available_at q)) (e_queue e),
      ev_queue_ordering_key = Option.bind (e_queue e) (\<lambda>q. nullif_empty (qe_ordering_key q)),
      ev_queue_priority = (case e_queue e of None \<Rightarrow> 0 | Some q \<Rightarrow> qe_priority q),
      ev_queue_metadata =
        (case e_queue e of None \<Rightarrow> ''{}'' | Some q \<Rightarrow> if qe_metadata q = [] then ''{}'' else qe_metadata q)\<rparr>"

definition dedup_hash_of :: "event \<Rightarrow> string" where
  "dedup_hash_of e = (case e_queue e of None \<Rightarrow> [] | Some q \<Rightarrow> qe_dedup_hash q)"

definition insert_event :: "event_row \<Rightarrow> db \<Rightarrow> store_error + db" where
  "insert_event e s =
     (if \<not> event_check e then Inl ErrDB
      else if sql_exists (\<lambda>x. ev_id x = ev_id e) (events s) then Inl ErrConflict
      else if \<not> sql_exists (\<lambda>a. app_id a = ev_source_app_id e) (applications s) then Inl ErrDB
      else Inr (s\<lparr>events := events s @ [e]\<rparr>))"

section \<open>Queue deliveries of an event\<close>

text \<open>\<^verbatim>\<open>length\<close> of a text counts characters, not bytes.\<close>

definition char_length :: "string \<Rightarrow> int" where
  "char_length t = int (length (filter (\<lambda>c. \<not> byte_in 128 191 c) t))"

definition queue_delivery_of :: "(string \<Rightarrow> string) \<Rightarrow> event_row \<Rightarrow> queue_subscription \<Rightarrow> queue_delivery" where
  "queue_delivery_of md5 e q =
     \<lparr>qd_id = ''qdl_'' @ md5 (show_int (char_length (ev_id e)) @ CHR '':'' # ev_id e @ qs_id q),
      qd_subscription_id = qs_id q, qd_app_id = qs_app_id q, qd_event_id = ev_id e, qd_generation = 1,
      qd_status = QAvailable, qd_attempts = 0,
      qd_available_at = max (ev_created_at e) (coalesce (ev_queue_available_at e) (ev_created_at e)),
      qd_receipt_hash = None, qd_lease_started_at = None, qd_lease_expires_at = None, qd_lease_max_expires_at = None,
      qd_ordering_key = ev_queue_ordering_key e, qd_priority = ev_queue_priority e, qd_metadata = ev_queue_metadata e,
      qd_last_reason = None, qd_created_at = ev_created_at e, qd_updated_at = ev_created_at e,
      qd_expires_at = min (ev_expires_at e) (ev_created_at e + qs_retention_seconds q * second)\<rparr>"

definition subscription_takes :: "event_row \<Rightarrow> string \<Rightarrow> dedup_key list \<Rightarrow> queue_subscription \<Rightarrow> bool" where
  "subscription_takes e hash keys q \<longleftrightarrow>
     qs_app_id q \<in> set (ev_target_app_ids e) \<and> qs_enabled q \<and> qs_paused_at q = None \<and>
     (qs_event_types q = [] \<or> ev_type e \<in> set (qs_event_types q)) \<and>
     (hash = [] \<or> qs_deduplication_seconds q = 0 \<or>
      \<not> sql_exists (\<lambda>k. dk_subscription_id k = qs_id q \<and> dk_key_hash k = hash \<and> dk_expires_at k > ev_created_at e) keys)"

definition purge_dedup_keys :: "event_row \<Rightarrow> db \<Rightarrow> db" where
  "purge_dedup_keys e s =
     s\<lparr>queue_dedup_keys := filter (\<lambda>k. \<not> (dk_expires_at k \<le> ev_created_at e \<and>
         sql_exists (\<lambda>q. qs_id q = dk_subscription_id k \<and> qs_app_id q \<in> set (ev_target_app_ids e)) (queue_subscriptions s)))
       (queue_dedup_keys s)\<rparr>"

text \<open>A second delivery of a subscription and an event is passed over, a clash of identifiers fails.\<close>

fun insert_queue_deliveries :: "queue_delivery list \<Rightarrow> queue_delivery list \<Rightarrow> queue_delivery list option" where
  "insert_queue_deliveries [] rows = Some rows"
| "insert_queue_deliveries (d # ds) rows =
     (if sql_exists (\<lambda>x. qd_subscription_id x = qd_subscription_id d \<and> qd_event_id x = qd_event_id d) rows
      then insert_queue_deliveries ds rows
      else if sql_exists (\<lambda>x. qd_id x = qd_id d) rows then None
      else insert_queue_deliveries ds (rows @ [d]))"

fun insert_dedup_keys :: "dedup_key list \<Rightarrow> dedup_key list \<Rightarrow> dedup_key list" where
  "insert_dedup_keys [] rows = rows"
| "insert_dedup_keys (k # ks) rows =
     insert_dedup_keys ks
       (if sql_exists (\<lambda>x. dk_subscription_id x = dk_subscription_id k \<and> dk_key_hash x = dk_key_hash k) rows
        then rows else rows @ [k])"

definition dedup_keys_of :: "event_row \<Rightarrow> string \<Rightarrow> db \<Rightarrow> dedup_key list" where
  "dedup_keys_of e hash s =
     map (\<lambda>q. \<lparr>dk_subscription_id = qs_id q, dk_key_hash = hash, dk_event_id = ev_id e,
               dk_expires_at = ev_created_at e + qs_deduplication_seconds q * second\<rparr>)
       (filter (\<lambda>q. 0 < qs_deduplication_seconds q \<and>
                   sql_exists (\<lambda>d. qd_subscription_id d = qs_id q \<and> qd_event_id d = ev_id e) (queue_deliveries s))
          (queue_subscriptions s))"

definition enqueue_event :: "(string \<Rightarrow> string) \<Rightarrow> event_row \<Rightarrow> string \<Rightarrow> db \<Rightarrow> db option" where
  "enqueue_event md5 e hash s =
     (let s1 = (if hash = [] then s else purge_dedup_keys e s) in
      case insert_queue_deliveries
             (map (queue_delivery_of md5 e) (filter (subscription_takes e hash (queue_dedup_keys s1)) (queue_subscriptions s1)))
             (queue_deliveries s1) of
        None \<Rightarrow> None
      | Some rows \<Rightarrow>
          let s2 = s1\<lparr>queue_deliveries := rows\<rparr> in
          Some (if hash = [] then s2
                else s2\<lparr>queue_dedup_keys := insert_dedup_keys (dedup_keys_of e hash s2) (queue_dedup_keys s2)\<rparr>))"

section \<open>Deliveries and outbox messages of an event\<close>

definition new_delivery :: "event \<Rightarrow> job \<Rightarrow> string \<Rightarrow> sink \<Rightarrow> delivery" where
  "new_delivery e j deliveryID sink =
     \<lparr>d_id = deliveryID, d_public_job_id = j_id j, d_event_id = e_id e, d_source_app_id = e_source_app_id e,
      d_target_app_id = j_target_app_id j, d_sink = sink, d_status = Pending, d_attempts = 0, d_generation = 1,
      d_assigned_connection_id = None, d_assignment_token = None, d_assignment_started_at = None,
      d_assignment_expires_at = None, d_assignment_max_expires_at = None, d_callback_token = None,
      d_callback_expires_at = None, d_callback_retry_at = None, d_callback_url = None,
      d_callback_credential_version = None, d_callback_reason = None, d_callback_dlq_published_at = None,
      d_created_at = fst (e_created_at e), d_updated_at = fst (e_created_at e)\<rparr>"

definition new_outbox :: "(string \<Rightarrow> string) \<Rightarrow> event \<Rightarrow> string \<Rightarrow> string \<Rightarrow> string \<Rightarrow> outbox_row" where
  "new_outbox sha e deliveryID subject payload =
     (let (outboxID, messageID) = outboxIdentities sha deliveryID; at = fst (e_created_at e) in
      \<lparr>ob_id = outboxID, ob_event_id = e_id e, ob_delivery_id = deliveryID, ob_subject = subject, ob_payload = payload,
       ob_message_id = messageID, ob_attempts = 0, ob_generation = 1, ob_available_at = at, ob_claimed_at = None,
       ob_claim_token = None, ob_dispatched_at = None, ob_failed_at = None, ob_last_error = None,
       ob_created_at = at, ob_updated_at = at\<rparr>)"

definition insertDeliveryAndOutbox ::
    "(string \<Rightarrow> string) \<Rightarrow> (string \<Rightarrow> string) \<Rightarrow> event \<Rightarrow> job \<Rightarrow> string \<Rightarrow> sink \<Rightarrow> db \<Rightarrow> store_error + db" where
  "insertDeliveryAndOutbox sha token_of e j deliveryID sink s =
     (let d = new_delivery e j deliveryID sink in
      if sql_exists (\<lambda>x. d_id x = deliveryID \<or>
           d_event_id x = e_id e \<and> d_target_app_id x = j_target_app_id j \<and> d_sink x = sink) (deliveries s)
      then Inl ErrConflict
      else
        (case deliverySubject sha token_of (j_target_app_id j) sink of
           None \<Rightarrow> Inl ErrDB
         | Some subject \<Rightarrow>
             (case envelope_text \<lparr>en_delivery_id = deliveryID, en_generation = 1, en_event = e\<rparr> of
                None \<Rightarrow> Inl ErrDB
              | Some payload \<Rightarrow>
                  let r = new_outbox sha e deliveryID subject payload in
                  if sql_exists (\<lambda>x. ob_id x = ob_id r \<or> ob_delivery_id x = deliveryID \<or> ob_message_id x = ob_message_id r) (outbox s)
                  then Inl ErrConflict
                  else Inr (s\<lparr>deliveries := deliveries s @ [d],
                              delivery_lifecycle := delivery_lifecycle s @
                                [\<lparr>dl_delivery_id = deliveryID, dl_generation = 1, dl_type = ''delivery.created'',
                                  dl_outcome = ''pending'', dl_reason = None, dl_attempt = None,
                                  dl_occurred_at = fst (e_created_at e)\<rparr>],
                              outbox := outbox s @ [r]\<rparr>))))"

text \<open>The job of a target and its sinks in order; only the first sink has the identifier of the job.\<close>

definition job_deliveries :: "(string \<Rightarrow> string) \<Rightarrow> (string \<times> application) list \<Rightarrow> job \<Rightarrow> (job \<times> string \<times> sink) list" where
  "job_deliveries sha policies j =
     (case map_of policies (j_target_app_id j) of
        None \<Rightarrow> []
      | Some a \<Rightarrow>
          map (\<lambda>(n, sink). (j, if n > 0 then derivedCallbackDeliveryID sha (j_id j) else j_id j, sink))
            (enumerate 0 (enabledSinks a)))"

fun insert_deliveries ::
    "(string \<Rightarrow> string) \<Rightarrow> (string \<Rightarrow> string) \<Rightarrow> event \<Rightarrow> (job \<times> string \<times> sink) list \<Rightarrow> db \<Rightarrow> store_error + db" where
  "insert_deliveries sha token_of e [] s = Inr s"
| "insert_deliveries sha token_of e ((j, deliveryID, sink) # rest) s =
     (case insertDeliveryAndOutbox sha token_of e j deliveryID sink s of
        Inl err \<Rightarrow> Inl err
      | Inr s' \<Rightarrow> insert_deliveries sha token_of e rest s')"

definition with_callbacks :: "(string \<times> application) list \<Rightarrow> event_publication \<Rightarrow> event_publication" where
  "with_callbacks policies p =
     p\<lparr>pb_jobs := map (\<lambda>j. j\<lparr>j_callback := (case map_of policies (j_target_app_id j) of None \<Rightarrow> False | Some a \<Rightarrow> callbackEnabled a)\<rparr>)
                    (pb_jobs p)\<rparr>"

section \<open>The transaction\<close>

definition insert_idempotency ::
    "string \<Rightarrow> event_publication \<Rightarrow> duration \<Rightarrow> db \<Rightarrow> store_error + db" where
  "insert_idempotency hash p keep s =
     (case stored_publication p of
        None \<Rightarrow> Inl ErrDB
      | Some stored \<Rightarrow>
          let e = pb_event p in
          if sql_exists (idempotency_key (e_source_app_id e) hash) (event_idempotency s) then Inl ErrDB
          else Inr (s\<lparr>event_idempotency := event_idempotency s @
                  [\<lparr>ei_source_app_id = e_source_app_id e, ei_key_hash = hash, ei_event_id = e_id e, ei_publication = stored,
                    ei_created_at = fst (e_created_at e), ei_expires_at = fst (e_created_at e) + keep\<rparr>]\<rparr>))"

text \<open>The statements after the lookup of the key.\<close>

definition write_publication ::
    "(string \<Rightarrow> string) \<Rightarrow> (string \<Rightarrow> string) \<Rightarrow> (string \<Rightarrow> string) \<Rightarrow> db \<Rightarrow> event_publication \<Rightarrow> string \<Rightarrow>
     event_retention \<Rightarrow> store_error + (event_publication \<times> db)" where
  "write_publication sha md5 token_of s p hash retention =
     (let e = pb_event p; row = event_row_of e (rt_event retention) in
      case lockTargetPolicies s (e_target_app_ids e) of
        Inl err \<Rightarrow> Inl err
      | Inr policies \<Rightarrow>
          let p' = with_callbacks policies p in
          (case insert_event row s of
             Inl err \<Rightarrow> Inl err
           | Inr s1 \<Rightarrow>
               (case enqueue_event md5 row (dedup_hash_of e) s1 of
                  None \<Rightarrow> Inl ErrDB
                | Some s2 \<Rightarrow>
                    (case insert_deliveries sha token_of e (concat (map (job_deliveries sha policies) (pb_jobs p'))) s2 of
                       Inl err \<Rightarrow> Inl err
                     | Inr s3 \<Rightarrow>
                         (case insert_idempotency hash p' (rt_idempotency retention) s3 of
                            Inl err \<Rightarrow> Inl err
                          | Inr s4 \<Rightarrow> Inr (p', s4))))))"

definition purge_idempotency :: "string \<Rightarrow> string \<Rightarrow> time \<Rightarrow> db \<Rightarrow> db" where
  "purge_idempotency source hash dbNow s =
     s\<lparr>event_idempotency :=
         filter (\<lambda>r. \<not> (idempotency_key source hash r \<and> ei_expires_at r \<le> dbNow)) (event_idempotency s)\<rparr>"

definition PublishEvent ::
    "(string \<Rightarrow> string) \<Rightarrow> (string \<Rightarrow> string) \<Rightarrow> (string \<Rightarrow> string) \<Rightarrow> db \<Rightarrow> time \<Rightarrow> event_publication \<Rightarrow> string \<Rightarrow>
     event_retention \<Rightarrow> (store_error + (event_publication \<times> bool)) \<times> db" where
  "PublishEvent sha md5 token_of s dbNow p key retention =
     (if \<not> validatePublication p key retention then (Inl ErrConflict, s)
      else
        let source = e_source_app_id (pb_event p); hash = idempotencyHash sha source key;
            s1 = purge_idempotency source hash dbNow s in
        case sql_row (idempotency_key source hash) (event_idempotency s1) of
          Some r \<Rightarrow> (Inr (ei_publication r, True), s1)
        | None \<Rightarrow>
            (case write_publication sha md5 token_of s1 p hash retention of
               Inl err \<Rightarrow> (Inl err, s)
             | Inr (p', s2) \<Rightarrow> (Inr (p', False), s2)))"

section \<open>Reading\<close>

text \<open>Instants are read in UTC.  A job has at most one delivery for the callback sink.\<close>

definition GetEvent :: "db \<Rightarrow> string \<Rightarrow> store_error + event" where
  "GetEvent s i =
     (case sql_row (\<lambda>e. ev_id e = i) (events s) of
        None \<Rightarrow> Inl ErrNotFound
      | Some e \<Rightarrow>
          Inr \<lparr>e_id = ev_id e, e_type = ev_type e, e_source_app_id = ev_source_app_id e,
               e_target_app_ids = ev_target_app_ids e, e_data = ev_data e, e_created_at = (ev_created_at e, 0),
               e_queue = map_option (\<lambda>t. \<lparr>qe_available_at = (t, 0), qe_ordering_key = queueStringValue (ev_queue_ordering_key e),
                   qe_priority = ev_queue_priority e, qe_metadata = ev_queue_metadata e, qe_dedup_hash = []\<rparr>)
                 (ev_queue_available_at e)\<rparr>)"

definition publicJobStatus :: "delivery_status \<Rightarrow> job_status" where
  "publicJobStatus st =
     (case st of Delivered \<Rightarrow> JobDelivered | Acked \<Rightarrow> JobAcked | DeadLetter \<Rightarrow> JobDeadLetter | _ \<Rightarrow> JobPending)"

definition GetJob :: "db \<Rightarrow> string \<Rightarrow> store_error + job" where
  "GetJob s i =
     (let rows = filter (\<lambda>d. d_public_job_id d = i) (deliveries s);
          callbacks = filter (\<lambda>d. d_sink d = CallbackSink) rows in
      case sort_key (\<lambda>d. if d_sink d = StreamSink then 0 else 1 :: nat) rows of
        [] \<Rightarrow> Inl ErrNotFound
      | d # _ \<Rightarrow>
          Inr \<lparr>j_callback = (callbacks \<noteq> []), j_callback_attempts = (case callbacks of [] \<Rightarrow> 0 | c # _ \<Rightarrow> d_attempts c),
               j_id = d_public_job_id d, j_event_id = d_event_id d, j_source_app_id = d_source_app_id d,
               j_target_app_id = d_target_app_id d, j_status = publicJobStatus (d_status d), j_attempts = d_attempts d,
               j_created_at = d_created_at d, j_updated_at = d_updated_at d\<rparr>)"


section \<open>What the statements change\<close>

lemma insert_event_cases:
  "insert_event e s = Inr s' \<Longrightarrow>
   event_check e \<and> (\<forall>x\<in>set (events s). ev_id x \<noteq> ev_id e) \<and> s' = s\<lparr>events := events s @ [e]\<rparr>"
  by (auto simp: insert_event_def split: if_splits)

lemma insert_queue_deliveries_append:
  "insert_queue_deliveries ds rows = Some rows' \<Longrightarrow>
   \<exists>new. rows' = rows @ new \<and> set new \<subseteq> set ds \<and>
     (distinct (map qd_id rows) \<longrightarrow> distinct (map qd_id rows')) \<and>
     (\<forall>d\<in>set ds. \<exists>x\<in>set rows'. qd_subscription_id x = qd_subscription_id d \<and> qd_event_id x = qd_event_id d)"
proof (induction ds arbitrary: rows)
  case Nil
  then show ?case by simp
next
  case (Cons d ds)
  show ?case
  proof (cases "\<exists>x\<in>set rows. qd_subscription_id x = qd_subscription_id d \<and> qd_event_id x = qd_event_id d")
    case True
    then have "insert_queue_deliveries ds rows = Some rows'" using Cons.prems by simp
    from Cons.IH [OF this] True show ?thesis by auto
  next
    case False
    then have id: "\<forall>x\<in>set rows. qd_id x \<noteq> qd_id d" and step: "insert_queue_deliveries ds (rows @ [d]) = Some rows'"
      using Cons.prems by (auto split: if_splits)
    from Cons.IH [OF step] id show ?thesis by (auto simp: image_iff)
  qed
qed

lemma enqueue_event_cases:
  assumes "enqueue_event md5 e hash s = Some s'"
  shows "\<exists>rows keys new. s' = s\<lparr>queue_deliveries := rows, queue_dedup_keys := keys\<rparr> \<and> rows = queue_deliveries s @ new \<and>
    set new \<subseteq> queue_delivery_of md5 e ` {q \<in> set (queue_subscriptions s). subscription_takes e [] [] q} \<and>
    (distinct (map qd_id (queue_deliveries s)) \<longrightarrow> distinct (map qd_id rows))"
proof -
  define s1 where "s1 = (if hash = [] then s else purge_dedup_keys e s)"
  define ds where "ds = map (queue_delivery_of md5 e)
    (filter (subscription_takes e hash (queue_dedup_keys s1)) (queue_subscriptions s1))"
  have frame: "queue_subscriptions s1 = queue_subscriptions s" "queue_deliveries s1 = queue_deliveries s"
    "s1 = s\<lparr>queue_dedup_keys := queue_dedup_keys s1\<rparr>"
    by (auto simp: s1_def purge_dedup_keys_def)
  obtain rows where ins: "insert_queue_deliveries ds (queue_deliveries s1) = Some rows"
    and s': "s' = (let s2 = s1\<lparr>queue_deliveries := rows\<rparr> in if hash = [] then s2
      else s2\<lparr>queue_dedup_keys := insert_dedup_keys (dedup_keys_of e hash s2) (queue_dedup_keys s2)\<rparr>)"
    using assms unfolding enqueue_event_def s1_def [symmetric] Let_def ds_def [symmetric]
    by (auto split: option.splits if_splits)
  have frame': "s' = s\<lparr>queue_deliveries := rows, queue_dedup_keys := queue_dedup_keys s'\<rparr>"
    by (cases "hash = []") (simp_all add: s' s1_def purge_dedup_keys_def Let_def)
  have src: "set ds \<subseteq> queue_delivery_of md5 e ` {q \<in> set (queue_subscriptions s). subscription_takes e [] [] q}"
    by (auto simp: ds_def frame(1) subscription_takes_def)
  obtain new where "rows = queue_deliveries s @ new" "set new \<subseteq> set ds"
    "distinct (map qd_id (queue_deliveries s)) \<longrightarrow> distinct (map qd_id rows)"
    using insert_queue_deliveries_append [OF ins] unfolding frame(2) by blast
  then show ?thesis using frame' subset_trans [OF _ src] by (intro exI conjI) assumption+
qed

text \<open>The message that carries a delivery.\<close>

definition carries :: "(string \<Rightarrow> string) \<Rightarrow> (string \<Rightarrow> string) \<Rightarrow> event \<Rightarrow> delivery \<Rightarrow> outbox_row \<Rightarrow> bool" where
  "carries sha token_of e d r \<longleftrightarrow>
     ob_delivery_id r = d_id d \<and> ob_event_id r = e_id e \<and> ob_generation r = d_generation d \<and> ob_attempts r = 0 \<and>
     ob_claimed_at r = None \<and> ob_dispatched_at r = None \<and> ob_failed_at r = None \<and> ob_available_at r = fst (e_created_at e) \<and>
     deliverySubject sha token_of (d_target_app_id d) (d_sink d) = Some (ob_subject r) \<and>
     envelope_text \<lparr>en_delivery_id = d_id d, en_generation = d_generation d, en_event = e\<rparr> = Some (ob_payload r)"

abbreviation delivery_of :: "event \<Rightarrow> job \<times> string \<times> sink \<Rightarrow> delivery" where
  "delivery_of e x \<equiv> (case x of (j, i, k) \<Rightarrow> new_delivery e j i k)"

lemma insertDeliveryAndOutbox_cases:
  assumes "insertDeliveryAndOutbox sha token_of e j i k s = Inr s'"
  shows "\<exists>r log. s' = s\<lparr>deliveries := deliveries s @ [new_delivery e j i k], delivery_lifecycle := delivery_lifecycle s @ [log],
      outbox := outbox s @ [r]\<rparr> \<and>
    carries sha token_of e (new_delivery e j i k) r \<and> outbox_check r \<and> (\<forall>x\<in>set (deliveries s). d_id x \<noteq> i) \<and>
    (\<forall>x\<in>set (outbox s). ob_id x \<noteq> ob_id r \<and> ob_delivery_id x \<noteq> ob_delivery_id r \<and> ob_message_id x \<noteq> ob_message_id r)"
proof -
  define d where "d = new_delivery e j i k"
  obtain subject payload where sub: "deliverySubject sha token_of (j_target_app_id j) k = Some subject"
    "envelope_text \<lparr>en_delivery_id = i, en_generation = 1, en_event = e\<rparr> = Some payload"
    using assms by (auto simp: insertDeliveryAndOutbox_def Let_def split: if_splits option.splits)
  define r where "r = new_outbox sha e i subject payload"
  have d: "d_id d = i" "d_target_app_id d = j_target_app_id j" "d_sink d = k" "d_generation d = 1"
    by (simp_all add: d_def new_delivery_def)
  have r: "ob_delivery_id r = i" "ob_event_id r = e_id e" "ob_dispatched_at r = None" "ob_generation r = 1"
    "ob_subject r = subject" "ob_payload r = payload" "outbox_check r" "ob_attempts r = 0" "ob_claimed_at r = None"
    "ob_failed_at r = None" "ob_available_at r = fst (e_created_at e)"
    by (simp_all add: r_def new_outbox_def outbox_check_def Let_def split: prod.splits)
  show ?thesis
    using assms unfolding insertDeliveryAndOutbox_def d_def [symmetric] Let_def sub option.case r_def [symmetric]
    by (auto simp: carries_def sub d r split: if_splits)
qed

lemma new_delivery_check [simp]: "delivery_check (new_delivery e j i k)"
  by (simp add: delivery_check_def new_delivery_def assignment_complete_def callback_lease_complete_def)

lemma insert_deliveries_cases:
  "insert_deliveries sha token_of e xs s = Inr s' \<Longrightarrow>
   \<exists>msgs logs. s' = s\<lparr>deliveries := deliveries s @ map (delivery_of e) xs, delivery_lifecycle := delivery_lifecycle s @ logs,
       outbox := outbox s @ msgs\<rparr> \<and> list_all2 (carries sha token_of e) (map (delivery_of e) xs) msgs \<and>
     (deliveries_ok s \<longrightarrow> deliveries_ok s') \<and> (outbox_ok s \<longrightarrow> outbox_ok s')"
proof (induction xs arbitrary: s)
  case Nil
  then show ?case by (auto intro: exI [of _ "[]"])
next
  case (Cons x xs)
  obtain j i k where x: "x = (j, i, k)" by (cases x)
  obtain s1 where step: "insertDeliveryAndOutbox sha token_of e j i k s = Inr s1"
    and rest: "insert_deliveries sha token_of e xs s1 = Inr s'"
    using Cons.prems by (auto simp: x split: sum.splits)
  obtain r log where s1: "s1 = s\<lparr>deliveries := deliveries s @ [new_delivery e j i k],
      delivery_lifecycle := delivery_lifecycle s @ [log], outbox := outbox s @ [r]\<rparr>"
    and r: "carries sha token_of e (new_delivery e j i k) r" "outbox_check r"
    and fresh: "\<forall>x\<in>set (deliveries s). d_id x \<noteq> i"
      "\<forall>x\<in>set (outbox s). ob_id x \<noteq> ob_id r \<and> ob_delivery_id x \<noteq> ob_delivery_id r \<and> ob_message_id x \<noteq> ob_message_id r"
    using insertDeliveryAndOutbox_cases [OF step] by blast
  have ok: "deliveries_ok s \<longrightarrow> deliveries_ok s1" "outbox_ok s \<longrightarrow> outbox_ok s1"
    using fresh r(2) by (auto simp: s1 deliveries_ok_def outbox_ok_def new_delivery_def [of e j i k, THEN arg_cong, of d_id] image_iff)
  obtain msgs logs where "s' = s1\<lparr>deliveries := deliveries s1 @ map (delivery_of e) xs,
      delivery_lifecycle := delivery_lifecycle s1 @ logs, outbox := outbox s1 @ msgs\<rparr>"
    "list_all2 (carries sha token_of e) (map (delivery_of e) xs) msgs"
    "deliveries_ok s1 \<longrightarrow> deliveries_ok s'" "outbox_ok s1 \<longrightarrow> outbox_ok s'"
    using Cons.IH [OF rest] by blast
  with r ok show ?case
    by (intro exI [of _ "r # msgs"] exI [of _ "log # logs"]) (auto simp: x s1)
qed

lemma insert_idempotency_cases:
  "insert_idempotency hash p keep s = Inr s' \<Longrightarrow>
   \<exists>stored. stored_publication p = Some stored \<and>
     s' = s\<lparr>event_idempotency := event_idempotency s @
       [\<lparr>ei_source_app_id = e_source_app_id (pb_event p), ei_key_hash = hash, ei_event_id = e_id (pb_event p),
         ei_publication = stored, ei_created_at = fst (e_created_at (pb_event p)),
         ei_expires_at = fst (e_created_at (pb_event p)) + keep\<rparr>]\<rparr>"
  by (auto simp: insert_idempotency_def Let_def split: option.splits if_splits)

lemma write_publication_cases:
  assumes "write_publication sha md5 token_of s p hash retention = Inr (p', s')"
  shows "\<exists>policies s1 s2 s3. lockTargetPolicies s (e_target_app_ids (pb_event p)) = Inr policies \<and>
    p' = with_callbacks policies p \<and> insert_event (event_row_of (pb_event p) (rt_event retention)) s = Inr s1 \<and>
    enqueue_event md5 (event_row_of (pb_event p) (rt_event retention)) (dedup_hash_of (pb_event p)) s1 = Some s2 \<and>
    insert_deliveries sha token_of (pb_event p) (concat (map (job_deliveries sha policies) (pb_jobs p'))) s2 = Inr s3 \<and>
    insert_idempotency hash p' (rt_idempotency retention) s3 = Inr s'"
proof -
  let ?row = "event_row_of (pb_event p) (rt_event retention)"
  note run = assms [unfolded write_publication_def Let_def]
  obtain policies where 1: "lockTargetPolicies s (e_target_app_ids (pb_event p)) = Inr policies"
    using run by (cases "lockTargetPolicies s (e_target_app_ids (pb_event p))") simp_all
  obtain s1 where 2: "insert_event ?row s = Inr s1"
    using run 1 by (cases "insert_event ?row s") simp_all
  obtain s2 where 3: "enqueue_event md5 ?row (dedup_hash_of (pb_event p)) s1 = Some s2"
    using run 1 2 by (cases "enqueue_event md5 ?row (dedup_hash_of (pb_event p)) s1") simp_all
  let ?ins = "insert_deliveries sha token_of (pb_event p)
    (concat (map (job_deliveries sha policies) (pb_jobs (with_callbacks policies p)))) s2"
  obtain s3 where 4: "?ins = Inr s3" using run 1 2 3 by (cases ?ins) simp_all
  have "insert_idempotency hash (with_callbacks policies p) (rt_idempotency retention) s3 = Inr s' \<and> p' = with_callbacks policies p"
    using run 1 2 3 4 by (cases "insert_idempotency hash (with_callbacks policies p) (rt_idempotency retention) s3") simp_all
  with 1 2 3 4 show ?thesis by blast
qed


lemma PublishEvent_cases:
  assumes "PublishEvent sha md5 token_of s dbNow p key retention = (r, s')"
  obtains (failed) err where "r = Inl err" "s' = s"
  | (replay) row where "r = Inr (ei_publication row, True)"
      "s' = purge_idempotency (e_source_app_id (pb_event p)) (idempotencyHash sha (e_source_app_id (pb_event p)) key) dbNow s"
      "sql_row (idempotency_key (e_source_app_id (pb_event p)) (idempotencyHash sha (e_source_app_id (pb_event p)) key))
         (event_idempotency s') = Some row"
  | (fresh) s1 p' where "r = Inr (p', False)" "validatePublication p key retention"
      "s1 = purge_idempotency (e_source_app_id (pb_event p)) (idempotencyHash sha (e_source_app_id (pb_event p)) key) dbNow s"
      "\<forall>x\<in>set (event_idempotency s1).
         \<not> idempotency_key (e_source_app_id (pb_event p)) (idempotencyHash sha (e_source_app_id (pb_event p)) key) x"
      "write_publication sha md5 token_of s1 p (idempotencyHash sha (e_source_app_id (pb_event p)) key) retention = Inr (p', s')"
proof -
  define src where "src = e_source_app_id (pb_event p)"
  define h where "h = idempotencyHash sha src key"
  define s1 where "s1 = purge_idempotency src h dbNow s"
  note run = assms [unfolded PublishEvent_def Let_def, folded src_def, folded h_def, folded s1_def]
  note names = src_def [symmetric] h_def [symmetric] s1_def [symmetric]
  show thesis
  proof (cases "validatePublication p key retention")
    case False
    then show thesis using run failed [of ErrConflict] by simp
  next
    case valid: True
    show thesis
    proof (cases "sql_row (idempotency_key src h) (event_idempotency s1)")
      case (Some row)
      then show thesis using run valid replay [unfolded names, of row] by simp
    next
      case None
      show thesis
      proof (cases "write_publication sha md5 token_of s1 p h retention")
        case (Inl err)
        then show thesis using run valid None failed [of err] by simp
      next
        case (Inr w)
        obtain p' t where w: "w = (p', t)" by (cases w)
        have "\<forall>x\<in>set (event_idempotency s1). \<not> idempotency_key src h x" using None by (simp add: sql_row_None)
        then show thesis using run valid None Inr w fresh [unfolded names, of p' s1] by simp
      qed
    qed
  qed
qed

lemma PublishEvent_freshE:
  assumes "PublishEvent sha md5 token_of s dbNow p key retention = (Inr (p', False), s')"
  obtains s1 where "validatePublication p key retention"
      "s1 = purge_idempotency (e_source_app_id (pb_event p)) (idempotencyHash sha (e_source_app_id (pb_event p)) key) dbNow s"
      "\<forall>x\<in>set (event_idempotency s1).
         \<not> idempotency_key (e_source_app_id (pb_event p)) (idempotencyHash sha (e_source_app_id (pb_event p)) key) x"
      "write_publication sha md5 token_of s1 p (idempotencyHash sha (e_source_app_id (pb_event p)) key) retention = Inr (p', s')"
  using assms by (cases rule: PublishEvent_cases) auto

text \<open>Everything a publication writes, in one statement.\<close>

lemma write_publication_effect:
  assumes "write_publication sha md5 token_of s p hash retention = Inr (p', s')"
  defines "e \<equiv> pb_event p"
  defines "row \<equiv> event_row_of e (rt_event retention)"
  obtains policies stored new msgs where
    "lockTargetPolicies s (e_target_app_ids e) = Inr policies" "p' = with_callbacks policies p"
    "stored_publication p' = Some stored"
    "events s' = events s @ [row]" "queue_deliveries s' = queue_deliveries s @ new" "queue_subscriptions s' = queue_subscriptions s"
    "deliveries s' = deliveries s @ map (delivery_of e) (concat (map (job_deliveries sha policies) (pb_jobs p')))"
    "outbox s' = outbox s @ msgs"
    "event_idempotency s' = event_idempotency s @
       [\<lparr>ei_source_app_id = e_source_app_id e, ei_key_hash = hash, ei_event_id = e_id e, ei_publication = stored,
         ei_created_at = fst (e_created_at e), ei_expires_at = fst (e_created_at e) + rt_idempotency retention\<rparr>]"
    "list_all2 (carries sha token_of e) (map (delivery_of e) (concat (map (job_deliveries sha policies) (pb_jobs p')))) msgs"
    "set new \<subseteq> queue_delivery_of md5 row ` {q \<in> set (queue_subscriptions s). subscription_takes row [] [] q}"
    "distinct (map qd_id (queue_deliveries s)) \<longrightarrow> distinct (map qd_id (queue_deliveries s @ new))"
    "deliveries_ok s \<longrightarrow> deliveries_ok s'" "outbox_ok s \<longrightarrow> outbox_ok s'"
proof -
  note names = e_def [symmetric] row_def [symmetric]
  obtain policies s1 s2 s3 where lock: "lockTargetPolicies s (e_target_app_ids e) = Inr policies" "p' = with_callbacks policies p"
    and st: "insert_event row s = Inr s1" "enqueue_event md5 row (dedup_hash_of e) s1 = Some s2"
      "insert_deliveries sha token_of e (concat (map (job_deliveries sha policies) (pb_jobs p'))) s2 = Inr s3"
      "insert_idempotency hash p' (rt_idempotency retention) s3 = Inr s'"
    using write_publication_cases [OF assms(1), unfolded names] by blast
  have pe: "pb_event p' = e" using lock(2) by (simp add: with_callbacks_def e_def)
  have s1: "s1 = s\<lparr>events := events s @ [row]\<rparr>" using insert_event_cases [OF st(1)] by simp
  obtain rows keys new where s2: "s2 = s1\<lparr>queue_deliveries := rows, queue_dedup_keys := keys\<rparr>" "rows = queue_deliveries s1 @ new"
    and q: "set new \<subseteq> queue_delivery_of md5 row ` {q \<in> set (queue_subscriptions s1). subscription_takes row [] [] q}"
      "distinct (map qd_id (queue_deliveries s1)) \<longrightarrow> distinct (map qd_id rows)"
    using enqueue_event_cases [OF st(2)] by blast
  obtain msgs logs where s3: "s3 = s2\<lparr>deliveries := deliveries s2 @ map (delivery_of e) (concat (map (job_deliveries sha policies) (pb_jobs p'))),
      delivery_lifecycle := delivery_lifecycle s2 @ logs, outbox := outbox s2 @ msgs\<rparr>"
    and m: "list_all2 (carries sha token_of e) (map (delivery_of e) (concat (map (job_deliveries sha policies) (pb_jobs p')))) msgs"
    and ok: "deliveries_ok s2 \<longrightarrow> deliveries_ok s3" "outbox_ok s2 \<longrightarrow> outbox_ok s3"
    using insert_deliveries_cases [OF st(3)] by blast
  obtain stored where s4: "stored_publication p' = Some stored"
    "s' = s3\<lparr>event_idempotency := event_idempotency s3 @
         [\<lparr>ei_source_app_id = e_source_app_id e, ei_key_hash = hash, ei_event_id = e_id e, ei_publication = stored,
           ei_created_at = fst (e_created_at e), ei_expires_at = fst (e_created_at e) + rt_idempotency retention\<rparr>]\<rparr>"
    using insert_idempotency_cases [OF st(4), unfolded pe] by blast
  show thesis
  proof (rule that [OF lock s4(1)])
    show "events s' = events s @ [row]" "queue_deliveries s' = queue_deliveries s @ new" "queue_subscriptions s' = queue_subscriptions s"
    "deliveries s' = deliveries s @ map (delivery_of e) (concat (map (job_deliveries sha policies) (pb_jobs p')))"
    "outbox s' = outbox s @ msgs"
    "event_idempotency s' = event_idempotency s @
       [\<lparr>ei_source_app_id = e_source_app_id e, ei_key_hash = hash, ei_event_id = e_id e, ei_publication = stored,
         ei_created_at = fst (e_created_at e), ei_expires_at = fst (e_created_at e) + rt_idempotency retention\<rparr>]"
      by (simp_all add: s4(2) s3 s2 s1)
    show "list_all2 (carries sha token_of e) (map (delivery_of e) (concat (map (job_deliveries sha policies) (pb_jobs p')))) msgs"
      by (rule m)
    show "set new \<subseteq> queue_delivery_of md5 row ` {q \<in> set (queue_subscriptions s). subscription_takes row [] [] q}"
      "distinct (map qd_id (queue_deliveries s)) \<longrightarrow> distinct (map qd_id (queue_deliveries s @ new))"
      using q by (simp_all add: s1 s2(2))
    show "deliveries_ok s \<longrightarrow> deliveries_ok s'" "outbox_ok s \<longrightarrow> outbox_ok s'"
      using ok by (simp_all add: s4(2) s2 s1 deliveries_ok_def outbox_ok_def)
  qed
qed


section \<open>Fan-out\<close>

lemma filter_concat_key:
  "(\<And>x y. x \<in> set xs \<Longrightarrow> y \<in> set (f x) \<Longrightarrow> g y = key x) \<Longrightarrow>
   filter (\<lambda>y. g y = k) (concat (map f xs)) = concat (map f (filter (\<lambda>x. key x = k) xs))"
proof (induction xs)
  case (Cons x xs)
  have "filter (\<lambda>y. g y = k) (f x) = (if key x = k then f x else [])"
    using Cons.prems [of x] by (auto simp: filter_id_conv filter_empty_conv)
  then show ?case using Cons by simp
qed simp

lemma distinct_key_filter: "distinct (map key xs) \<Longrightarrow> x \<in> set xs \<Longrightarrow> filter (\<lambda>y. key y = key x) xs = [x]"
  by (induction xs) (auto simp: filter_empty_conv image_iff)

lemma lockTargetPolicies_target:
  assumes "lockTargetPolicies s ts = Inr policies" and "t \<in> set ts"
  shows "\<exists>a\<in>set (applications s). map_of policies t = Some a \<and> app_id a = t \<and> app_enabled a \<and> enabledSinks a \<noteq> []"
proof -
  have pol: "policies = map (\<lambda>a. (app_id a, a)) (sort_key app_id (filter (\<lambda>a. app_id a \<in> set ts \<and> app_enabled a) (applications s)))"
    and "\<not> list_ex (\<lambda>t. case map_of policies t of None \<Rightarrow> True | Some a \<Rightarrow> enabledSinks a = []) (sort ts)"
    using assms(1) by (auto simp: lockTargetPolicies_def Let_def split: if_splits)
  then obtain a where a: "map_of policies t = Some a" "enabledSinks a \<noteq> []"
    using assms(2) by (fastforce simp: list_ex_iff split: option.splits)
  then have "(t, a) \<in> set policies" by (simp add: map_of_SomeD)
  with a show ?thesis by (auto simp: pol)
qed

lemma validatePublication_jobs:
  assumes "validatePublication p key retention"
  shows "distinct (map j_target_app_id (pb_jobs p))" "set (map j_target_app_id (pb_jobs p)) = set (e_target_app_ids (pb_event p))"
proof -
  note v = assms [unfolded validatePublication_def Let_def list_all_iff]
  show d: "distinct (map j_target_app_id (pb_jobs p))" using v by blast
  have "length (map j_target_app_id (pb_jobs p)) = length (e_target_app_ids (pb_event p))" "distinct (e_target_app_ids (pb_event p))"
    using v by auto
  then have "card (set (map j_target_app_id (pb_jobs p))) = card (set (e_target_app_ids (pb_event p)))"
    using d distinct_card by metis
  moreover have "set (map j_target_app_id (pb_jobs p)) \<subseteq> set (e_target_app_ids (pb_event p))" using v by auto
  ultimately show "set (map j_target_app_id (pb_jobs p)) = set (e_target_app_ids (pb_event p))"
    using card_subset_eq [OF finite_set] by blast
qed

lemma job_deliveries_job: "x \<in> set (job_deliveries sha policies j) \<Longrightarrow> fst x = j"
  by (auto simp: job_deliveries_def split: option.splits)

lemma job_deliveries_sinks:
  "map_of policies (j_target_app_id j) = Some a \<Longrightarrow> map (\<lambda>x. snd (snd x)) (job_deliveries sha policies j) = enabledSinks a"
  by (simp add: job_deliveries_def case_prod_beta comp_def)

lemma delivery_of_simps:
  "d_target_app_id (delivery_of e x) = j_target_app_id (fst x)" "d_sink (delivery_of e x) = snd (snd x)"
  "d_event_id (delivery_of e x) = e_id e" "d_status (delivery_of e x) = Pending" "d_generation (delivery_of e x) = 1"
  by (cases x; simp add: new_delivery_def)+

lemma fan_out_of_target:
  assumes "distinct (map j_target_app_id js)" and "j \<in> set js" and "map_of policies (j_target_app_id j) = Some a"
  shows "map d_sink (filter (\<lambda>d. d_target_app_id d = j_target_app_id j)
      (map (delivery_of e) (concat (map (job_deliveries sha policies) js)))) = enabledSinks a"
proof -
  have "filter (\<lambda>x. j_target_app_id (fst x) = j_target_app_id j) (concat (map (job_deliveries sha policies) js)) =
    concat (map (job_deliveries sha policies) (filter (\<lambda>x. j_target_app_id x = j_target_app_id j) js))"
    by (rule filter_concat_key) (simp add: job_deliveries_job)
  also have "\<dots> = job_deliveries sha policies j" using distinct_key_filter [OF assms(1,2)] by simp
  finally have "filter ((\<lambda>d. d_target_app_id d = j_target_app_id j) \<circ> delivery_of e) (concat (map (job_deliveries sha policies) js)) =
    job_deliveries sha policies j" by (simp add: comp_def delivery_of_simps)
  then show ?thesis using job_deliveries_sinks [OF assms(3), of sha] by (simp add: filter_map comp_def delivery_of_simps)
qed

lemma with_callbacks_targets: "map j_target_app_id (pb_jobs (with_callbacks policies p)) = map j_target_app_id (pb_jobs p)"
  by (simp add: with_callbacks_def comp_def)

lemma fan_out:
  assumes "PublishEvent sha md5 token_of s dbNow p key retention = (Inr (p', False), s')"
  shows "\<exists>new msgs. events s' = events s @ [event_row_of (pb_event p) (rt_event retention)] \<and>
    deliveries s' = deliveries s @ new \<and> outbox s' = outbox s @ msgs \<and> list_all2 (carries sha token_of (pb_event p)) new msgs \<and>
    (\<forall>t\<in>set (e_target_app_ids (pb_event p)). \<exists>a\<in>set (applications s). app_id a = t \<and> app_enabled a \<and> enabledSinks a \<noteq> [] \<and>
       map d_sink (filter (\<lambda>d. d_target_app_id d = t) new) = enabledSinks a) \<and>
    (\<forall>d\<in>set new. d_target_app_id d \<in> set (e_target_app_ids (pb_event p)) \<and> d_event_id d = e_id (pb_event p) \<and>
       d_status d = Pending \<and> d_generation d = 1)"
proof -
  let ?e = "pb_event p"
  obtain s1 where valid: "validatePublication p key retention"
    and s1: "s1 = purge_idempotency (e_source_app_id ?e) (idempotencyHash sha (e_source_app_id ?e) key) dbNow s"
    and wr: "write_publication sha md5 token_of s1 p (idempotencyHash sha (e_source_app_id ?e) key) retention = Inr (p', s')"
    using PublishEvent_freshE [OF assms] by blast
  obtain policies msgs where lock: "lockTargetPolicies s1 (e_target_app_ids ?e) = Inr policies" "p' = with_callbacks policies p"
    and eff: "events s' = events s1 @ [event_row_of ?e (rt_event retention)]" "outbox s' = outbox s1 @ msgs"
      "deliveries s' = deliveries s1 @ map (delivery_of ?e) (concat (map (job_deliveries sha policies) (pb_jobs p')))"
    and msgs: "list_all2 (carries sha token_of ?e) (map (delivery_of ?e) (concat (map (job_deliveries sha policies) (pb_jobs p')))) msgs"
    by (rule write_publication_effect [OF wr])
  define new where "new = map (delivery_of ?e) (concat (map (job_deliveries sha policies) (pb_jobs p')))"
  have same: "events s1 = events s" "outbox s1 = outbox s" "deliveries s1 = deliveries s" "applications s1 = applications s"
    by (simp_all add: s1 purge_idempotency_def)
  note jobs = validatePublication_jobs [OF valid, folded with_callbacks_targets [of policies p] lock(2)]
  have targets: "\<exists>a\<in>set (applications s). app_id a = t \<and> app_enabled a \<and> enabledSinks a \<noteq> [] \<and>
      map d_sink (filter (\<lambda>d. d_target_app_id d = t) new) = enabledSinks a" if t: "t \<in> set (e_target_app_ids ?e)" for t
  proof -
    obtain a where a: "a \<in> set (applications s)" "map_of policies t = Some a" "app_id a = t" "app_enabled a" "enabledSinks a \<noteq> []"
      using lockTargetPolicies_target [OF lock(1) t] same by auto
    obtain j where j: "j \<in> set (pb_jobs p')" "j_target_app_id j = t" using t jobs(2) unfolding set_map by (metis imageE)
    from fan_out_of_target [OF jobs(1) j(1), of policies a ?e sha] j a show ?thesis unfolding new_def by blast
  qed
  have rows: "d_target_app_id d \<in> set (e_target_app_ids ?e) \<and> d_event_id d = e_id ?e \<and> d_status d = Pending \<and> d_generation d = 1"
    if d: "d \<in> set new" for d
  proof -
    obtain x j where x: "d = delivery_of ?e x" "j \<in> set (pb_jobs p')" "x \<in> set (job_deliveries sha policies j)"
      using d by (auto simp: new_def)
    have "j_target_app_id (fst x) \<in> set (e_target_app_ids ?e)" using x(2) jobs(2) job_deliveries_job [OF x(3)] by auto
    then show ?thesis unfolding x(1) delivery_of_simps by simp
  qed
  show ?thesis using eff msgs targets rows unfolding same new_def [symmetric] by blast
qed


text \<open>C5. A fresh publication adds the event and, for every target, which is an enabled application with at least one
  sink, one pending delivery per enabled sink and no other; with every delivery goes an outbox message of its
  generation, due from the creation of the event, on the subject of its target and sink, whose payload is the envelope of the event.
  Existing deliveries and messages keep their rows.\<close>

theorem publish_fan_out:
  assumes "PublishEvent sha md5 token_of s dbNow p key retention = (Inr (p', False), s')"
  shows "\<exists>new msgs. events s' = events s @ [event_row_of (pb_event p) (rt_event retention)] \<and>
    deliveries s' = deliveries s @ new \<and> outbox s' = outbox s @ msgs \<and> list_all2 (carries sha token_of (pb_event p)) new msgs \<and>
    (\<forall>t\<in>set (e_target_app_ids (pb_event p)). \<exists>a\<in>set (applications s). app_id a = t \<and> app_enabled a \<and> enabledSinks a \<noteq> [] \<and>
       map d_sink (filter (\<lambda>d. d_target_app_id d = t) new) = enabledSinks a) \<and>
    (\<forall>d\<in>set new. d_target_app_id d \<in> set (e_target_app_ids (pb_event p)) \<and> d_event_id d = e_id (pb_event p) \<and>
       d_status d = Pending \<and> d_generation d = 1)"
  by (rule fan_out [OF assms])

definition publish_db :: db where
  "publish_db = empty_db\<lparr>applications :=
     [\<lparr>app_id = ''a'', app_name = ''A'', app_callback_url = None, app_delivery_mode = DeliveryQueue, app_enabled = True\<rparr>,
      \<lparr>app_id = ''b'', app_name = ''B'', app_callback_url = Some ''https://b'', app_delivery_mode = DeliveryAll, app_enabled = True\<rparr>]\<rparr>"

definition example_publication :: event_publication where
  "example_publication =
     \<lparr>pb_event = \<lparr>e_id = ''evt_1'', e_type = ''t'', e_source_app_id = ''a'', e_target_app_ids = [''b''], e_data = ''{}'',
        e_created_at = (0, 0), e_queue = None\<rparr>,
      pb_jobs = [\<lparr>j_callback = False, j_callback_attempts = 0, j_id = ''job_1'', j_event_id = ''evt_1'', j_source_app_id = ''a'',
        j_target_app_id = ''b'', j_status = JobPending, j_attempts = 0, j_created_at = 0, j_updated_at = 0\<rparr>]\<rparr>"

definition example_retention :: event_retention where
  "example_retention = \<lparr>rt_event = 60 * second, rt_job = 60 * second, rt_idempotency = 60 * second\<rparr>"

lemma example_publish_fresh:
  "\<exists>p' s'. PublishEvent id id id publish_db 0 example_publication ''k'' example_retention = (Inr (p', False), s')"
proof -
  have "case fst (PublishEvent id id id publish_db 0 example_publication ''k'' example_retention) of
      Inl _ \<Rightarrow> False | Inr (_, replay) \<Rightarrow> \<not> replay" by code_simp
  then show ?thesis
    by (cases "PublishEvent id id id publish_db 0 example_publication ''k'' example_retention") (auto split: sum.splits)
qed

theorem publish_fan_out_witness:
  "case PublishEvent id id id publish_db 0 example_publication ''k'' example_retention of (r, s') \<Rightarrow>
     map d_sink (filter (\<lambda>d. d_target_app_id d = ''b'') (deliveries s')) = [StreamSink, CallbackSink] \<and> length (outbox s') = length (deliveries s')"
proof -
  obtain p' s' where run: "PublishEvent id id id publish_db 0 example_publication ''k'' example_retention = (Inr (p', False), s')"
    using example_publish_fresh by blast
  have ev: "e_target_app_ids (pb_event example_publication) = [''b'']" by (simp add: example_publication_def)
  have sinks: "\<forall>a\<in>set (applications publish_db). app_id a = ''b'' \<longrightarrow> enabledSinks a = [StreamSink, CallbackSink]" by code_simp
  have none: "deliveries publish_db = []" "outbox publish_db = []" by (simp_all add: publish_db_def empty_db_def)
  from publish_fan_out [OF run] obtain new msgs where new: "deliveries s' = new" "outbox s' = msgs"
    "list_all2 (carries id id (pb_event example_publication)) new msgs"
    and t: "\<forall>t\<in>set [''b'']. \<exists>a\<in>set (applications publish_db). app_id a = t \<and> app_enabled a \<and> enabledSinks a \<noteq> [] \<and>
       map d_sink (filter (\<lambda>d. d_target_app_id d = t) new) = enabledSinks a"
    unfolding ev none append_Nil by blast
  have "map d_sink (filter (\<lambda>d. d_target_app_id d = ''b'') new) = [StreamSink, CallbackSink]"
    using bspec [OF t, of "''b''"] sinks by auto
  with run new show ?thesis by (auto dest: list_all2_lengthD)
qed

section \<open>Invariants\<close>

lemma queue_delivery_of_wf: "queue_row_wf (queue_delivery_of md5 e q)"
  by (simp add: queue_row_wf_def queue_row_check_def queue_delivery_of_def)

lemma queue_delivery_of_bounded:
  "list_all subscription_check subs \<Longrightarrow> attempts_bounded subs (queue_delivery_of md5 e q)"
  by (auto simp: attempts_bounded_def queue_delivery_of_def list_all_iff subscription_check_def)

text \<open>Deliveries created after every delivery in flight are behind it in the order of its key.\<close>

lemma heads_append:
  assumes "heads subs rows" and "\<forall>d\<in>set new. qd_status d = QAvailable"
    and "\<forall>x\<in>set rows. \<forall>d\<in>set new. qd_status x = QInFlight \<longrightarrow> qd_created_at x < qd_created_at d"
  shows "heads subs (rows @ new)"
  unfolding heads_def list_all_iff
proof (intro ballI impI)
  fix d
  assume d: "d \<in> set (rows @ new)" and fl: "keyed subs d \<and> qd_status d = QInFlight"
  with assms(2) have d': "d \<in> set rows" by auto
  have "\<not> before_in_key e d" if "e \<in> set new" for e
    using assms(3) d' that fl by (fastforce simp: before_in_key_def)
  moreover have "\<not> before_in_key e d" if "e \<in> set rows" for e
    using assms(1) d' fl that by (auto simp: heads_def list_all_iff)
  ultimately show "\<not> sql_exists (\<lambda>e. before_in_key e d) (rows @ new)" by auto
qed

lemma queue_inv_append:
  assumes "queue_inv s" and "queue_subscriptions s' = queue_subscriptions s" and "queue_deliveries s' = queue_deliveries s @ new"
    and "set new \<subseteq> range (queue_delivery_of md5 e)" and "distinct (map qd_id (queue_deliveries s @ new))"
    and "\<forall>x\<in>set (queue_deliveries s). qd_status x = QInFlight \<longrightarrow> qd_created_at x < ev_created_at e"
  shows "queue_inv s'"
proof -
  note inv = assms(1) [unfolded queue_inv_table table_inv_def]
  have new: "\<exists>q. d = queue_delivery_of md5 e q" if "d \<in> set new" for d using assms(4) that by auto
  have "list_all queue_row_wf new" "list_all (attempts_bounded (queue_subscriptions s)) new"
    using new queue_delivery_of_wf queue_delivery_of_bounded inv unfolding list_all_iff [of _ new] by metis+
  moreover have "heads (queue_subscriptions s) (queue_deliveries s @ new)"
  proof (rule heads_append)
    have "qd_status d = QAvailable \<and> qd_created_at d = ev_created_at e" if "d \<in> set new" for d
      using new [OF that] by (auto simp: queue_delivery_of_def)
    then show "\<forall>d\<in>set new. qd_status d = QAvailable"
      "\<forall>x\<in>set (queue_deliveries s). \<forall>d\<in>set new. qd_status x = QInFlight \<longrightarrow> qd_created_at x < qd_created_at d"
      using assms(6) by simp_all
  qed (use inv in blast)
  ultimately show ?thesis
    using inv assms(5) unfolding queue_inv_table table_inv_def assms(2,3) by (simp del: map_append distinct_append)
qed

lemma PublishEvent_tables_ok:
  assumes "PublishEvent sha md5 token_of s dbNow p key retention = (r, s')" and "deliveries_ok s" and "outbox_ok s"
  shows "deliveries_ok s' \<and> outbox_ok s'"
  using assms(1)
proof (cases rule: PublishEvent_cases)
  case failed
  then show ?thesis using assms by simp
next
  case replay
  then show ?thesis using assms by (simp add: purge_idempotency_def deliveries_ok_def outbox_ok_def)
next
  case (fresh s1 p')
  have "deliveries_ok s1" "outbox_ok s1"
    using assms(2,3) by (simp_all add: fresh(3) purge_idempotency_def deliveries_ok_def outbox_ok_def)
  moreover have "(deliveries_ok s1 \<longrightarrow> deliveries_ok s') \<and> (outbox_ok s1 \<longrightarrow> outbox_ok s')"
    by (rule write_publication_effect [OF fresh(5)]) (intro conjI)
  ultimately show ?thesis by blast
qed

lemma PublishEvent_queue_inv:
  assumes "PublishEvent sha md5 token_of s dbNow p key retention = (r, s')" and "queue_inv s"
    and "\<forall>x\<in>set (queue_deliveries s). qd_status x = QInFlight \<longrightarrow> qd_created_at x < fst (e_created_at (pb_event p))"
  shows "queue_inv s'"
  using assms(1)
proof (cases rule: PublishEvent_cases)
  case failed
  then show ?thesis using assms by simp
next
  case replay
  then show ?thesis using assms(2) by (simp add: purge_idempotency_def queue_inv_table)
next
  case (fresh s1 p')
  let ?row = "event_row_of (pb_event p) (rt_event retention)"
  have same: "queue_inv s1" "queue_deliveries s1 = queue_deliveries s"
    using assms(2) by (simp_all add: fresh(3) purge_idempotency_def queue_inv_table)
  obtain new where q: "queue_subscriptions s' = queue_subscriptions s1" "queue_deliveries s' = queue_deliveries s1 @ new"
    and n: "set new \<subseteq> queue_delivery_of md5 ?row ` {q \<in> set (queue_subscriptions s1). subscription_takes ?row [] [] q}"
      "distinct (map qd_id (queue_deliveries s1)) \<longrightarrow> distinct (map qd_id (queue_deliveries s1 @ new))"
    by (rule write_publication_effect [OF fresh(5)])
  show ?thesis
  proof (rule queue_inv_append [OF same(1) q])
    show "set new \<subseteq> range (queue_delivery_of md5 ?row)" using n(1) by blast
    show "distinct (map qd_id (queue_deliveries s1 @ new))" using n(2) same(1) by (auto simp: queue_inv_table table_inv_def)
    show "\<forall>x\<in>set (queue_deliveries s1). qd_status x = QInFlight \<longrightarrow> qd_created_at x < ev_created_at ?row"
      using assms(3) same(2) by (simp add: event_row_of_def)
  qed
qed



end
