(* ===== verification/EventService.thy ===== *)
theory EventService
  imports Events
begin

text \<open>
  The publishing and reading half of \<^verbatim>\<open>service/events.go\<close>: the checks on a publication, its routing, the
  lookup of the idempotency key, the transaction and the hints that follow it.  Leases and transitions of jobs
  belong to a store that is not the PostgreSQL one and are left out.
\<close>

section \<open>Input and environment\<close>

record queue_publish =
  qp_available_at :: "zoned option"
  qp_delay_seconds :: "int option"
  qp_ordering_key :: string
  qp_priority :: int
  qp_deduplication_key :: string
  qp_metadata :: string

record publish_input =
  pe_type :: string
  pe_target_app_ids :: "string list"
  pe_data :: string
  pe_queue :: "queue_publish option"

definition normalizeRetention :: "event_retention \<Rightarrow> event_retention" where
  "normalizeRetention r =
     \<lparr>rt_event = (if rt_event r \<le> 0 then 7 * 24 * 60 * minute else rt_event r),
      rt_job = (if rt_job r \<le> 0 then 7 * 24 * 60 * minute else rt_job r),
      rt_idempotency = (if rt_idempotency r \<le> 0 then 24 * 60 * minute else rt_idempotency r)\<rparr>"

text \<open>
  What a call finds outside the database: the clock of the service, the clock of the database at the lookup and
  in the transaction, the identifiers the generator gives (\<open>None\<close> when it fails), the retention, and
  which of the optional collaborators are configured.
\<close>

record publish_env =
  pv_now :: time
  pv_lookup_now :: time
  pv_tx_now :: time
  pv_event_id :: "string option"
  pv_job_id :: "nat \<Rightarrow> string option"
  pv_retention :: event_retention
  pv_router :: bool
  pv_notifier :: bool
  pv_realtime :: bool

datatype hint =
    HintEvent event
  | HintJob job
  | HintChannel string string string

section \<open>Checks\<close>

definition validQueuePublish :: "queue_publish option \<Rightarrow> bool" where
  "validQueuePublish input \<longleftrightarrow>
     (case input of
        None \<Rightarrow> True
      | Some q \<Rightarrow>
          \<not> (qp_available_at q \<noteq> None \<and> qp_delay_seconds q \<noteq> None) \<and>
          (case qp_delay_seconds q of None \<Rightarrow> True | Some n \<Rightarrow> 0 \<le> n \<and> n \<le> 2592000) \<and>
          int (length (go_trim_space (qp_ordering_key q))) \<le> 128 \<and> -10 \<le> qp_priority q \<and> qp_priority q \<le> 10 \<and>
          int (length (qp_deduplication_key q)) \<le> 256 \<and>
          (let metadata = go_trim_space (qp_metadata q) in
           metadata = [] \<or> int (length metadata) \<le> 16 * 1024 \<and> JSONObject metadata))"

text \<open>The targets of the matching rules, each once, in the order of the rules.\<close>

fun routed_targets :: "string list \<Rightarrow> routing_rule list \<Rightarrow> string list" where
  "routed_targets seen [] = []"
| "routed_targets seen (r # rs) =
     (if rl_enabled r \<and> rl_target_app_id r \<notin> set seen
      then rl_target_app_id r # routed_targets (rl_target_app_id r # seen) rs
      else routed_targets seen rs)"

definition resolve_targets :: "publish_env \<Rightarrow> db \<Rightarrow> string \<Rightarrow> publish_input \<Rightarrow> service_error + (string list \<times> routing_rule list)" where
  "resolve_targets env s source input =
     (if pe_target_app_ids input \<noteq> [] then Inr (pe_target_app_ids input, [])
      else if \<not> pv_router env then Inl SvcInvalidInput
      else
        let resolved = RoutingService_Resolve s source (go_trim_space (pe_type input)); targets = routed_targets [] resolved in
        if targets = [] then Inl SvcInvalidInput else Inr (targets, filter rl_enabled resolved))"

text \<open>The loop over the targets: trimmed, none empty and none twice.\<close>

fun trim_targets :: "string list \<Rightarrow> string list \<Rightarrow> string list option" where
  "trim_targets seen [] = Some []"
| "trim_targets seen (i # is) =
     (let t = go_trim_space i in
      if t = [] \<or> t \<in> set seen then None else map_option ((#) t) (trim_targets (t # seen) is))"

definition callback_target :: "application \<Rightarrow> bool" where
  "callback_target a \<longleftrightarrow>
     (case app_callback_url a of None \<Rightarrow> False | Some u \<Rightarrow> go_trim_space u \<noteq> []) \<and>
     (app_delivery_mode a = DeliveryCallback \<or> app_delivery_mode a = DeliveryAll)"

definition target_callback :: "db \<Rightarrow> string \<Rightarrow> bool" where
  "target_callback s i = (case GetApplication s i of Inl _ \<Rightarrow> False | Inr a \<Rightarrow> callback_target a)"

section \<open>The event\<close>

definition available_of :: "time \<Rightarrow> queue_publish \<Rightarrow> time" where
  "available_of now q =
     (case qp_delay_seconds q of
        Some n \<Rightarrow> now + n * second
      | None \<Rightarrow> (case qp_available_at q of Some t \<Rightarrow> fst t | None \<Rightarrow> now))"

definition queue_event_of :: "(string \<Rightarrow> string) \<Rightarrow> time \<Rightarrow> queue_publish option \<Rightarrow> service_error + queue_event option" where
  "queue_event_of sha now input =
     (case input of
        None \<Rightarrow> Inr None
      | Some q \<Rightarrow>
          if available_of now q > now + 30 * 24 * 60 * minute then Inl SvcInvalidInput
          else
            let metadata = go_trim_space (qp_metadata q) in
            Inr (Some \<lparr>qe_available_at = (available_of now q, 0), qe_ordering_key = go_trim_space (qp_ordering_key q),
                   qe_priority = qp_priority q, qe_metadata = (if metadata = [] then ''{}'' else metadata),
                   qe_dedup_hash = (if qp_deduplication_key q = [] then [] else hex_encode (sha (qp_deduplication_key q)))\<rparr>))"

fun new_jobs :: "publish_env \<Rightarrow> (string \<Rightarrow> bool) \<Rightarrow> string \<Rightarrow> string \<Rightarrow> nat \<Rightarrow> string list \<Rightarrow> job list option" where
  "new_jobs env callback eventID source n [] = Some []"
| "new_jobs env callback eventID source n (t # ts) =
     (case pv_job_id env n of
        None \<Rightarrow> None
      | Some i \<Rightarrow>
          map_option ((#) \<lparr>j_callback = callback t, j_callback_attempts = 0, j_id = i, j_event_id = eventID,
                           j_source_app_id = source, j_target_app_id = t, j_status = JobPending, j_attempts = 0,
                           j_created_at = pv_now env, j_updated_at = pv_now env\<rparr>)
            (new_jobs env callback eventID source (Suc n) ts))"

definition new_publication ::
    "(string \<Rightarrow> string) \<Rightarrow> publish_env \<Rightarrow> db \<Rightarrow> string \<Rightarrow> publish_input \<Rightarrow> string list \<Rightarrow> service_error + event_publication" where
  "new_publication sha env s source input targets =
     (case pv_event_id env of
        None \<Rightarrow> Inl SvcRandom
      | Some i \<Rightarrow>
          (case queue_event_of sha (pv_now env) (pe_queue input) of
             Inl e \<Rightarrow> Inl e
           | Inr q \<Rightarrow>
               (case new_jobs env (target_callback s) i source 0 (sort targets) of
                  None \<Rightarrow> Inl SvcRandom
                | Some js \<Rightarrow>
                    Inr \<lparr>pb_event = \<lparr>e_id = i, e_type = go_trim_space (pe_type input), e_source_app_id = source,
                           e_target_app_ids = sort targets, e_data = go_trim_space (pe_data input),
                           e_created_at = (pv_now env, 0), e_queue = q\<rparr>, pb_jobs = js\<rparr>)))"

section \<open>Publication\<close>

definition publish_hints :: "publish_env \<Rightarrow> string \<Rightarrow> publish_input \<Rightarrow> routing_rule list \<Rightarrow> event_publication \<Rightarrow> hint list" where
  "publish_hints env source input rules p =
     (if pv_notifier env then HintEvent (pb_event p) # map HintJob (pb_jobs p) else []) @
     (if pv_realtime env
      then concat (map (\<lambda>r. case rl_realtime_channel r of None \<Rightarrow> [] | Some c \<Rightarrow> [HintChannel c source (go_trim_space (pe_data input))]) rules)
      else [])"

definition valid_publish :: "string \<Rightarrow> publish_input \<Rightarrow> string \<Rightarrow> bool" where
  "valid_publish source input key \<longleftrightarrow>
     source \<noteq> [] \<and> go_trim_space key \<noteq> [] \<and> go_trim_space (pe_type input) \<noteq> [] \<and>
     int (length (pe_target_app_ids input)) \<le> 100 \<and> JSONObject (go_trim_space (pe_data input)) \<and> validQueuePublish (pe_queue input)"

type_synonym publish_result = "(service_error + (event \<times> job list \<times> bool)) \<times> db \<times> hint list"

definition finish_publish ::
    "(string \<Rightarrow> string) \<Rightarrow> (string \<Rightarrow> string) \<Rightarrow> (string \<Rightarrow> string) \<Rightarrow> publish_env \<Rightarrow> db \<Rightarrow> string \<Rightarrow> publish_input \<Rightarrow> string \<Rightarrow>
     routing_rule list \<Rightarrow> event_publication \<Rightarrow> publish_result" where
  "finish_publish sha md5 token_of env s source input key rules p =
     (case PublishEvent sha md5 token_of s (pv_tx_now env) p key (pv_retention env) of
        (Inl ErrInvalidTarget, s') \<Rightarrow> (Inl SvcInvalidInput, s', [])
      | (Inl e, s') \<Rightarrow> (Inl (mapStoreError e), s', [])
      | (Inr (p', replay), s') \<Rightarrow>
          (Inr (pb_event p', pb_jobs p', replay), s', if replay then [] else publish_hints env source input rules p'))"

definition EventService_publish ::
    "(string \<Rightarrow> string) \<Rightarrow> (string \<Rightarrow> string) \<Rightarrow> (string \<Rightarrow> string) \<Rightarrow> publish_env \<Rightarrow> db \<Rightarrow> string \<Rightarrow> publish_input \<Rightarrow> string \<Rightarrow>
     publish_result" where
  "EventService_publish sha md5 token_of env s source input key =
     (if \<not> valid_publish source input key then (Inl SvcInvalidInput, s, [])
      else
        (case resolve_targets env s source input of
           Inl e \<Rightarrow> (Inl e, s, [])
         | Inr (given, rules) \<Rightarrow>
             (case trim_targets [] given of
                None \<Rightarrow> (Inl SvcInvalidInput, s, [])
              | Some targets \<Rightarrow>
                  (case FindPublication sha s (pv_lookup_now env) source key of
                     Inr p \<Rightarrow> (Inr (pb_event p, pb_jobs p, True), s, [])
                   | Inl _ \<Rightarrow>
                       if \<not> list_all (enabled_application s) targets then (Inl SvcInvalidInput, s, [])
                       else
                         (case new_publication sha env s source input targets of
                            Inl e \<Rightarrow> (Inl e, s, [])
                          | Inr p \<Rightarrow> finish_publish sha md5 token_of env s source input key rules p)))))"

text \<open>The outcome that is counted for a call.\<close>

definition publish_outcome :: "publish_result \<Rightarrow> string" where
  "publish_outcome r =
     (case fst r of
        Inl SvcInvalidInput \<Rightarrow> ''rejected''
      | Inl _ \<Rightarrow> ''store_error''
      | Inr (_, _, replay) \<Rightarrow> if replay then ''replayed'' else ''published'')"

section \<open>Reading\<close>

definition EventService_GetEvent :: "db \<Rightarrow> string \<Rightarrow> string \<Rightarrow> service_error + event" where
  "EventService_GetEvent s actor i =
     (case GetEvent s i of
        Inl e \<Rightarrow> Inl (mapStoreError e)
      | Inr e \<Rightarrow> if CanRead (e_source_app_id e) (e_target_app_ids e) actor then Inr e else Inl SvcNotFound)"

definition EventService_GetJob :: "db \<Rightarrow> string \<Rightarrow> string \<Rightarrow> service_error + job" where
  "EventService_GetJob s actor i =
     (case GetJob s i of
        Inl e \<Rightarrow> Inl (mapStoreError e)
      | Inr j \<Rightarrow> if actor \<noteq> j_source_app_id j \<and> actor \<noteq> j_target_app_id j then Inl SvcNotFound else Inr j)"


section \<open>Runs\<close>

record publish_call =
  pc_env :: publish_env
  pc_source :: string
  pc_input :: publish_input
  pc_key :: string

definition exec_publish :: "(string \<Rightarrow> string) \<Rightarrow> (string \<Rightarrow> string) \<Rightarrow> (string \<Rightarrow> string) \<Rightarrow> publish_call \<Rightarrow> db \<Rightarrow> db" where
  "exec_publish sha md5 token_of c s =
     fst (snd (EventService_publish sha md5 token_of (pc_env c) s (pc_source c) (pc_input c) (pc_key c)))"

definition exec_publishes :: "(string \<Rightarrow> string) \<Rightarrow> (string \<Rightarrow> string) \<Rightarrow> (string \<Rightarrow> string) \<Rightarrow> publish_call list \<Rightarrow> db \<Rightarrow> db" where
  "exec_publishes sha md5 token_of calls s = fold (exec_publish sha md5 token_of) calls s"

text \<open>The one record of a key.\<close>

definition key_record :: "string \<Rightarrow> string \<Rightarrow> idempotency_row \<Rightarrow> db \<Rightarrow> bool" where
  "key_record source hash row s \<longleftrightarrow> filter (idempotency_key source hash) (event_idempotency s) = [row]"

lemma key_record_in: "key_record source hash row s \<Longrightarrow> row \<in> set (event_idempotency s) \<and> idempotency_key source hash row"
  using filter_eq_Cons_iff [of "idempotency_key source hash" "event_idempotency s" row "[]"] by (auto simp: key_record_def)

lemma key_record_purge:
  assumes "key_record source hash row s" and "dbNow < ei_expires_at row"
  shows "key_record source hash row (purge_idempotency source' hash' dbNow s)"
proof -
  have "filter (idempotency_key source hash)
      (filter (\<lambda>r. \<not> (idempotency_key source' hash' r \<and> ei_expires_at r \<le> dbNow)) (event_idempotency s)) =
    filter (\<lambda>r. \<not> (idempotency_key source' hash' r \<and> ei_expires_at r \<le> dbNow)) (filter (idempotency_key source hash) (event_idempotency s))"
    by (simp add: conj_commute)
  then show ?thesis using assms by (simp add: key_record_def purge_idempotency_def del: filter_filter)
qed

lemma PublishEvent_keeps_key:
  assumes "key_record source hash row s" and "dbNow < ei_expires_at row"
    and "PublishEvent sha md5 token_of s dbNow p key retention = (r, s')"
  shows "key_record source hash row s'"
  using assms(3)
proof (cases rule: PublishEvent_cases)
  case failed
  then show ?thesis using assms(1) by simp
next
  case replay
  then show ?thesis using key_record_purge [OF assms(1,2)] by simp
next
  case (fresh s1 p')
  have rec: "key_record source hash row s1" using key_record_purge [OF assms(1,2)] fresh(3) by simp
  obtain stored where new: "event_idempotency s' = event_idempotency s1 @
       [\<lparr>ei_source_app_id = e_source_app_id (pb_event p),
         ei_key_hash = idempotencyHash sha (e_source_app_id (pb_event p)) key, ei_event_id = e_id (pb_event p), ei_publication = stored,
         ei_created_at = fst (e_created_at (pb_event p)), ei_expires_at = fst (e_created_at (pb_event p)) + rt_idempotency retention\<rparr>]"
    by (rule write_publication_effect [OF fresh(5)])
  have "(e_source_app_id (pb_event p), idempotencyHash sha (e_source_app_id (pb_event p)) key) \<noteq> (source, hash)"
    using fresh(4) key_record_in [OF rec] by auto
  then show ?thesis using rec by (auto simp: key_record_def new idempotency_key_def)
qed

lemma EventService_publish_cases:
  assumes "EventService_publish sha md5 token_of env s source input key = (r, s', hints)"
  obtains (same) "s' = s" "\<forall>e js. r \<noteq> Inr (e, js, False)"
  | (published) targets rules p where "new_publication sha env s source input targets = Inr p"
      "finish_publish sha md5 token_of env s source input key rules p = (r, s', hints)"
  using assms unfolding EventService_publish_def
  by (simp split: if_splits sum.splits option.splits prod.splits) blast+

lemma finish_publish_store:
  assumes "finish_publish sha md5 token_of env s source input key rules p = (r, s', hints)"
  obtains r' where "PublishEvent sha md5 token_of s (pv_tx_now env) p key (pv_retention env) = (r', s')"
    "\<forall>e js. r = Inr (e, js, False) \<longrightarrow> r' = Inr (\<lparr>pb_event = e, pb_jobs = js\<rparr>, False)"
proof -
  obtain r' t where run: "PublishEvent sha md5 token_of s (pv_tx_now env) p key (pv_retention env) = (r', t)" by fastforce
  have "t = s' \<and> (\<forall>e js. r = Inr (e, js, False) \<longrightarrow> r' = Inr (\<lparr>pb_event = e, pb_jobs = js\<rparr>, False))"
    using assms unfolding finish_publish_def run by (auto split: sum.splits store_error.splits prod.splits)
  with run that show thesis by blast
qed

lemma new_publication_event:
  "new_publication sha env s source input targets = Inr p \<Longrightarrow>
   e_source_app_id (pb_event p) = source \<and> e_created_at (pb_event p) = (pv_now env, 0)"
  by (auto simp: new_publication_def split: option.splits sum.splits)

lemma exec_publish_keeps_key:
  assumes "key_record source hash row s" and "pv_tx_now (pc_env c) < ei_expires_at row"
  shows "key_record source hash row (exec_publish sha md5 token_of c s)"
proof -
  obtain r s' hints where run: "EventService_publish sha md5 token_of (pc_env c) s (pc_source c) (pc_input c) (pc_key c) = (r, s', hints)"
    by (metis prod_cases3)
  then have "key_record source hash row s'"
  proof (cases rule: EventService_publish_cases)
    case same
    then show ?thesis using assms(1) by simp
  next
    case (published targets rules p)
    from published(2) show ?thesis by (rule finish_publish_store) (use PublishEvent_keeps_key [OF assms] in blast)
  qed
  then show ?thesis by (simp add: exec_publish_def run)
qed

lemma exec_publishes_keep_key:
  "key_record source hash row s \<Longrightarrow> list_all (\<lambda>c. pv_tx_now (pc_env c) < ei_expires_at row) calls \<Longrightarrow>
   key_record source hash row (exec_publishes sha md5 token_of calls s)"
proof (induction calls arbitrary: s)
  case Nil
  then show ?case by (simp add: exec_publishes_def)
next
  case (Cons c calls)
  then have "key_record source hash row (exec_publish sha md5 token_of c s)" using exec_publish_keeps_key by simp
  from Cons.IH [OF this] Cons.prems(2) show ?case by (simp add: exec_publishes_def)
qed

lemma first_publish_record:
  assumes "EventService_publish sha md5 token_of env s source input key = (Inr (e, js, False), s', hints)"
  obtains stored row where "stored_publication \<lparr>pb_event = e, pb_jobs = js\<rparr> = Some stored" "ei_publication row = stored"
    "ei_expires_at row = pv_now env + rt_idempotency (pv_retention env)"
    "key_record source (idempotencyHash sha source key) row s'"
  using assms
proof (cases rule: EventService_publish_cases)
  case same
  then show thesis by simp
next
  case (published targets rules p)
  have p: "e_source_app_id (pb_event p) = source" "fst (e_created_at (pb_event p)) = pv_now env"
    using new_publication_event [OF published(1)] by auto
  obtain r' where "PublishEvent sha md5 token_of s (pv_tx_now env) p key (pv_retention env) = (r', s')"
    "r' = Inr (\<lparr>pb_event = e, pb_jobs = js\<rparr>, False)"
    using published(2) by (rule finish_publish_store) simp
  then have run: "PublishEvent sha md5 token_of s (pv_tx_now env) p key (pv_retention env) =
    (Inr (\<lparr>pb_event = e, pb_jobs = js\<rparr>, False), s')" by simp
  obtain s1 where none: "\<forall>x\<in>set (event_idempotency s1). \<not> idempotency_key source (idempotencyHash sha source key) x"
    and wr: "write_publication sha md5 token_of s1 p (idempotencyHash sha source key) (pv_retention env) =
      Inr (\<lparr>pb_event = e, pb_jobs = js\<rparr>, s')"
    using PublishEvent_freshE [OF run] unfolding p(1) by blast
  obtain stored where st: "stored_publication \<lparr>pb_event = e, pb_jobs = js\<rparr> = Some stored"
    and new: "event_idempotency s' = event_idempotency s1 @
       [\<lparr>ei_source_app_id = source, ei_key_hash = idempotencyHash sha source key, ei_event_id = e_id (pb_event p), ei_publication = stored,
         ei_created_at = pv_now env, ei_expires_at = pv_now env + rt_idempotency (pv_retention env)\<rparr>]" (is "_ = _ @ [?row]")
    by (rule write_publication_effect [OF wr, unfolded p])
  have "key_record source (idempotencyHash sha source key) ?row s'"
    using none by (simp add: key_record_def new idempotency_key_def filter_empty_conv)
  then show thesis by (intro that [OF st, of ?row]) simp_all
qed

lemma FindPublication_record:
  assumes "key_record source (idempotencyHash sha source key) row s" and "now < ei_expires_at row"
  shows "FindPublication sha s now source key = Inr (ei_publication row)"
proof -
  let ?key = "idempotency_key source (idempotencyHash sha source key)"
  have all: "x = row" if "x \<in> set (event_idempotency s)" "?key x" for x
  proof -
    have "x \<in> set (filter ?key (event_idempotency s))" using that by simp
    then show ?thesis using assms(1) by (simp add: key_record_def del: set_filter)
  qed
  have "sql_row (\<lambda>r. ?key r \<and> now < ei_expires_at r) (event_idempotency s) \<noteq> None"
    using key_record_in [OF assms(1)] assms(2) by (auto simp: sql_row_None)
  then obtain x where x: "sql_row (\<lambda>r. ?key r \<and> now < ei_expires_at r) (event_idempotency s) = Some x" by blast
  then have "x = row" using all sql_row_Some [OF x] by blast
  with x show ?thesis by (simp add: FindPublication_def)
qed


section \<open>Idempotency\<close>

text \<open>C3. After a publication that was not a replay, and after any further publications, a well-formed publication
  of the same source under the same key before the record expires is a replay, whatever its content: it returns the recorded
  event and the very jobs of the first call, changes nothing in the database and sends no hint.\<close>

theorem publish_idempotent:
  assumes "EventService_publish sha md5 token_of env s source input key = (Inr (e, js, False), s1, hints)"
    and "list_all (\<lambda>c. pv_tx_now (pc_env c) < pv_now env + rt_idempotency (pv_retention env)) calls"
    and "s2 = exec_publishes sha md5 token_of calls s1"
    and "pv_lookup_now env' < pv_now env + rt_idempotency (pv_retention env)"
    and "valid_publish source input' key" and "resolve_targets env' s2 source input' = Inr (given, rules)"
    and "trim_targets [] given = Some targets"
  shows "\<exists>stored. stored_publication \<lparr>pb_event = e, pb_jobs = js\<rparr> = Some stored \<and>
    EventService_publish sha md5 token_of env' s2 source input' key = (Inr (pb_event stored, js, True), s2, [])"
proof -
  obtain stored row where st: "stored_publication \<lparr>pb_event = e, pb_jobs = js\<rparr> = Some stored" "ei_publication row = stored"
    and row: "ei_expires_at row = pv_now env + rt_idempotency (pv_retention env)"
      "key_record source (idempotencyHash sha source key) row s1"
    by (rule first_publish_record [OF assms(1)])
  have "key_record source (idempotencyHash sha source key) row s2"
    unfolding assms(3) by (rule exec_publishes_keep_key [OF row(2)]) (use assms(2) row(1) in simp)
  then have "FindPublication sha s2 (pv_lookup_now env') source key = Inr stored"
    using FindPublication_record [of source sha key row s2] assms(4) row(1) st(2) by simp
  moreover have "pb_jobs stored = js" using st(1) by (auto simp: stored_publication_def)
  ultimately show ?thesis using st(1) assms(5-7) by (simp add: EventService_publish_def)
qed

definition example_publish_env :: publish_env where
  "example_publish_env =
     \<lparr>pv_now = 0, pv_lookup_now = 0, pv_tx_now = 0, pv_event_id = Some ''evt_1'', pv_job_id = (\<lambda>n. Some (''job_'' @ replicate n CHR ''x'')),
      pv_retention = example_retention, pv_router = False, pv_notifier = True, pv_realtime = False\<rparr>"

definition example_publish_input :: "string \<Rightarrow> publish_input" where
  "example_publish_input d = \<lparr>pe_type = ''t'', pe_target_app_ids = [''b''], pe_data = d, pe_queue = None\<rparr>"

definition example_publish_call :: publish_call where
  "example_publish_call =
     \<lparr>pc_env = example_publish_env\<lparr>pv_event_id := Some ''evt_2''\<rparr>, pc_source = ''a'', pc_input = example_publish_input ''{}'', pc_key = ''other''\<rparr>"

theorem publish_idempotent_witness:
  "\<exists>e js s1 hints s2 e'.
     EventService_publish id id id example_publish_env publish_db ''a'' (example_publish_input ''{}'') ''k'' = (Inr (e, js, False), s1, hints) \<and>
     s2 = exec_publishes id id id [example_publish_call] s1 \<and>
     EventService_publish id id id example_publish_env s2 ''a'' (example_publish_input ''{ }'') ''k'' = (Inr (e', js, True), s2, [])"
proof -
  let ?run = "EventService_publish id id id example_publish_env publish_db ''a'' (example_publish_input ''{}'') ''k''"
  have "case fst ?run of Inl _ \<Rightarrow> False | Inr (_, _, replay) \<Rightarrow> \<not> replay" by code_simp
  then obtain e js s1 hints where run: "?run = (Inr (e, js, False), s1, hints)"
    by (cases ?run) (auto split: sum.splits)
  define s2 where "s2 = exec_publishes id id id [example_publish_call] s1"
  have clocks: "list_all (\<lambda>c. pv_tx_now (pc_env c) < pv_now example_publish_env + rt_idempotency (pv_retention example_publish_env))
      [example_publish_call]"
    "pv_lookup_now example_publish_env < pv_now example_publish_env + rt_idempotency (pv_retention example_publish_env)" by code_simp+
  have valid: "valid_publish ''a'' (example_publish_input ''{ }'') ''k''" "trim_targets [] [''b''] = Some [''b'']" by code_simp+
  have "resolve_targets example_publish_env s2 ''a'' (example_publish_input ''{ }'') = Inr ([''b''], [])"
    by (simp add: resolve_targets_def example_publish_input_def)
  from publish_idempotent [OF run clocks(1) s2_def clocks(2) valid(1) this valid(2)] run s2_def show ?thesis by blast
qed

end
