(* ===== verification/StreamGateway.thy ===== *)
theory StreamGateway
  imports StreamAssignments StreamProtocol Wire
begin

text \<open>
  The stream gateway, \<^verbatim>\<open>streamgateway/gateway.go\<close> and \<^verbatim>\<open>streamgateway/session.go\<close>, with the loop over the
  frames of a connection from \<^verbatim>\<open>streamgateway/websocket.go\<close>.  A session is a record of what its mutex guards,
  of the frames queued for the writer, of the broker messages being assigned and of the answers given to the
  broker.  The handling of a broker message has three parts, each atomic, between which every other step can
  happen: the reservation, the assignment in the database, and the hand-over to the connection.  A frame of the
  client is handled in one step.
\<close>

section \<open>Options\<close>

record gateway_options =
  gw_assignment_lease :: duration
  gw_max_processing :: duration
  gw_drain_timeout :: duration
  gw_max_in_flight :: int
  gw_max_in_flight_bytes :: int
  gw_outbound_queue :: int
  gw_retry_delay :: duration
  gw_pong_wait :: duration

definition gateway_defaults :: "gateway_options \<Rightarrow> gateway_options" where
  "gateway_defaults o' =
     (let inflight = (if gw_max_in_flight o' \<le> 0 then 256 else gw_max_in_flight o') in
      \<lparr>gw_assignment_lease = (if gw_assignment_lease o' \<le> 0 then 60 * second else gw_assignment_lease o'),
       gw_max_processing = (if gw_max_processing o' \<le> 0 then 15 * minute else gw_max_processing o'),
       gw_drain_timeout = (if gw_drain_timeout o' \<le> 0 then 10 * second else gw_drain_timeout o'),
       gw_max_in_flight = inflight,
       gw_max_in_flight_bytes = (if gw_max_in_flight_bytes o' \<le> 0 then 16 * 1024 * 1024 else gw_max_in_flight_bytes o'),
       gw_outbound_queue = (if gw_outbound_queue o' \<le> 0 then inflight + 16 else gw_outbound_queue o'),
       gw_retry_delay = (if gw_retry_delay o' \<le> 0 then second else gw_retry_delay o'),
       gw_pong_wait = (if gw_pong_wait o' \<le> 0 then 60 * second else gw_pong_wait o')\<rparr>)"

definition NewGateway :: "gateway_options \<Rightarrow> gateway_options option" where
  "NewGateway o' =
     (let opt = gateway_defaults o' in
      if gw_max_processing opt < gw_assignment_lease opt \<or> gw_max_in_flight opt > 256 then None else Some opt)"

section \<open>Sessions\<close>

text \<open>A message of the broker: its identity and its data.\<close>

record stream_message =
  sm_id :: string
  sm_data :: string

record inflight_delivery =
  fl_assignment :: delivery_assignment
  fl_message :: stream_message
  fl_bytes :: int

text \<open>A message between its reservation and its hand-over, with the size reserved for it and, once the
  database has given one, its assignment.\<close>

record session_task =
  tk_message :: stream_message
  tk_envelope :: envelope
  tk_bytes :: int
  tk_assignment :: "delivery_assignment option"

record session =
  se_app_id :: string
  se_connection_id :: string
  se_started :: bool
  se_max_in_flight :: int
  se_subscribed :: bool
  se_inflight :: "(string \<times> inflight_delivery) list"
  se_inflight_bytes :: int
  se_reserved :: int
  se_reserved_bytes :: int
  se_closing :: bool
  se_done :: bool
  se_frames :: "string list"
  se_tasks :: "session_task list"
  se_answers :: "(stream_message \<times> broker_action) list"

definition put_inflight :: "string \<Rightarrow> inflight_delivery \<Rightarrow> (string \<times> inflight_delivery) list \<Rightarrow> (string \<times> inflight_delivery) list" where
  "put_inflight i f m = (i, f) # filter (\<lambda>x. fst x \<noteq> i) m"

definition drop_inflight :: "string \<Rightarrow> (string \<times> inflight_delivery) list \<Rightarrow> (string \<times> inflight_delivery) list" where
  "drop_inflight i m = filter (\<lambda>x. fst x \<noteq> i) m"

definition answer :: "stream_message \<Rightarrow> broker_action \<Rightarrow> session \<Rightarrow> session" where
  "answer m a s = s\<lparr>se_answers := se_answers s @ [(m, a)]\<rparr>"

definition closedLocked :: "session \<Rightarrow> bool" where
  "closedLocked s \<longleftrightarrow> se_closing s \<or> se_done s"

definition enqueueRaw :: "gateway_options \<Rightarrow> string \<Rightarrow> session \<Rightarrow> bool \<times> session" where
  "enqueueRaw opt raw s =
     (if se_done s \<or> int (length (se_frames s)) \<ge> gw_outbound_queue opt then (False, s)
      else (True, s\<lparr>se_frames := se_frames s @ [raw]\<rparr>))"

text \<open>Frames; the members of a Go map are written in the order of their keys.\<close>

definition ready_frame :: "gateway_options \<Rightarrow> string \<Rightarrow> string \<Rightarrow> string" where
  "ready_frame opt appID connectionID =
     object_text [(''app_id'', json_quote appID), (''connection_id'', json_quote connectionID),
       (''heartbeat_interval_ms'', show_int 25000), (''max_in_flight_limit'', show_int (gw_max_in_flight opt)),
       (''protocol_version'', show_int 1), (''type'', json_quote ''ready'')]"

definition started_frame :: "int \<Rightarrow> string" where
  "started_frame n =
     object_text [(''consumer'', json_quote ''default''), (''max_in_flight'', show_int n), (''type'', json_quote ''consumer.started'')]"

definition accepted_frame :: "string \<Rightarrow> string \<Rightarrow> string" where
  "accepted_frame deliveryID state =
     object_text [(''delivery_id'', json_quote deliveryID), (''state'', json_quote state), (''type'', json_quote ''delivery.accepted'')]"

definition error_frame :: "protocol_error \<Rightarrow> string" where
  "error_frame e =
     object_text [(''code'', json_quote (pe_code e)), (''message'', json_quote (pe_message e)),
       (''retryable'', if pe_retryable e then ''true'' else ''false''), (''type'', json_quote ''error'')]"

definition delivery_frame :: "envelope \<Rightarrow> int \<Rightarrow> string option" where
  "delivery_frame en attempt =
     map_option (\<lambda>e. object_text [(''attempt'', show_int attempt), (''delivery_id'', json_quote (en_delivery_id en)),
         (''event'', e), (''type'', json_quote ''event.delivery'')]) (event_text (en_event en))"

section \<open>Starting the consumer\<close>

record consumer_config =
  cc_stream :: string
  cc_durable_name :: string
  cc_filter :: string
  cc_max_pending :: int

definition durableName :: "(string \<Rightarrow> string) \<Rightarrow> string \<Rightarrow> string" where
  "durableName token_of appID =
     (case AppToken token_of appID of None \<Rightarrow> ''invalid'' | Some token \<Rightarrow> ''rh_'' @ token @ ''_default'')"

definition backpressure :: protocol_error where
  "backpressure = protocolError ''backpressure'' ''Session output is full.'' True"

text \<open>\<open>consume\<close> says whether the broker accepts the consumer.\<close>

definition session_start ::
    "gateway_options \<Rightarrow> (string \<Rightarrow> string) \<Rightarrow> (consumer_config \<Rightarrow> bool) \<Rightarrow> client_frame \<Rightarrow> session \<Rightarrow> protocol_error option \<times> session" where
  "session_start opt token_of consume frame s =
     (if se_started s then (Some (protocolError ''consumer_already_started'' ''Consumer is already started.'' False), s)
      else
        let s1 = s\<lparr>se_started := True, se_max_in_flight := min (cf_max_in_flight frame) (gw_max_in_flight opt)\<rparr> in
        case SubjectsForApp token_of (se_app_id s) of
          None \<Rightarrow> (Some (protocolError ''internal_error'' ''Consumer could not start.'' True), s1\<lparr>se_started := False\<rparr>)
        | Some subjects \<Rightarrow>
            if \<not> consume \<lparr>cc_stream = ''RH_DELIVERIES'', cc_durable_name = durableName token_of (se_app_id s),
                   cc_filter = as_deliveries subjects, cc_max_pending = gw_max_in_flight opt\<rparr>
            then (Some (protocolError ''consumer_unavailable'' ''Consumer is temporarily unavailable.'' True), s1\<lparr>se_started := False\<rparr>)
            else
              case enqueueRaw opt (started_frame (se_max_in_flight s1)) (s1\<lparr>se_subscribed := True\<rparr>) of
                (sent, s2) \<Rightarrow> (if sent then None else Some backpressure, s2))"

section \<open>Broker messages\<close>

definition validEnvelope :: "envelope \<Rightarrow> string \<Rightarrow> bool" where
  "validEnvelope en appID \<longleftrightarrow>
     en_delivery_id en \<noteq> [] \<and> e_id (en_event en) \<noteq> [] \<and> e_type (en_event en) \<noteq> [] \<and> e_source_app_id (en_event en) \<noteq> [] \<and>
     e_target_app_ids (en_event en) \<noteq> [] \<and> JSONObject (e_data (en_event en)) \<and> appID \<in> set (e_target_app_ids (en_event en))"

definition message_envelope :: "stream_message \<Rightarrow> string \<Rightarrow> envelope option" where
  "message_envelope m appID =
     (case unmarshal_envelope True (sm_data m) of
        None \<Rightarrow> None
      | Some en \<Rightarrow>
          if \<not> validEnvelope en appID then None
          else Some (if en_generation en = 0 then en\<lparr>en_generation := 1\<rparr> else en))"

text \<open>The first part: the checks and the reservation.\<close>

definition deliver_reserve :: "gateway_options \<Rightarrow> stream_message \<Rightarrow> session \<Rightarrow> session" where
  "deliver_reserve opt m s =
     (let refuse = answer m (MsgNack (gw_retry_delay opt)) s in
      case message_envelope m (se_app_id s) of
        None \<Rightarrow> refuse
      | Some en \<Rightarrow>
          (case delivery_frame en 1 of
             None \<Rightarrow> refuse
           | Some wire \<Rightarrow>
               let size = int (length wire) in
               if size > MaxMessageBytes \<or> ValidateServerFrame wire \<noteq> None then refuse
               else if closedLocked s \<or> int (length (se_inflight s)) + se_reserved s \<ge> se_max_in_flight s \<or>
                       se_inflight_bytes s + se_reserved_bytes s + size > gw_max_in_flight_bytes opt
               then refuse
               else s\<lparr>se_reserved := se_reserved s + 1, se_reserved_bytes := se_reserved_bytes s + size,
                      se_tasks := se_tasks s @ [\<lparr>tk_message = m, tk_envelope = en, tk_bytes = size, tk_assignment = None\<rparr>]\<rparr>))"

definition drop_task :: "nat \<Rightarrow> session \<Rightarrow> session" where
  "drop_task n s = s\<lparr>se_tasks := take n (se_tasks s) @ drop (Suc n) (se_tasks s)\<rparr>"

text \<open>A finished task gives its reservation back.\<close>

definition releaseReservation :: "nat \<Rightarrow> session_task \<Rightarrow> session \<Rightarrow> session" where
  "releaseReservation n t s =
     (drop_task n s)\<lparr>se_reserved := se_reserved s - 1, se_reserved_bytes := se_reserved_bytes s - tk_bytes t\<rparr>"

text \<open>The second part: the assignment, with the token the generator gives (\<open>None\<close> when it fails).\<close>

definition deliver_assign ::
    "gateway_options \<Rightarrow> time \<Rightarrow> string option \<Rightarrow> nat \<Rightarrow> session_task \<Rightarrow> session \<times> db \<Rightarrow> session \<times> db" where
  "deliver_assign opt now token n t = (\<lambda>(s, d).
     (let m = tk_message t; en = tk_envelope t; dropped = releaseReservation n t s;
          retry = answer m (MsgNack (gw_retry_delay opt)) dropped in
      case token of
        None \<Rightarrow> (retry, d)
      | Some tok \<Rightarrow>
          (case AssignStreamDelivery d (en_delivery_id en) (se_app_id s) (se_connection_id s) tok (en_generation en) now
                  (gw_assignment_lease opt) (gw_max_processing opt) of
             (Inl _, d') \<Rightarrow> (retry, d')
           | (Inr DeliveryAlreadyComplete, d') \<Rightarrow> (answer m MsgAck dropped, d')
           | (Inr DeliveryAlreadyAssigned, d') \<Rightarrow> (retry, d')
           | (Inr (DeliveryAssigned a), d') \<Rightarrow>
               (s\<lparr>se_tasks := (se_tasks s)[n := t\<lparr>tk_assignment := Some a\<rparr>]\<rparr>, d'))))"

definition release_assignment :: "session \<Rightarrow> string \<Rightarrow> delivery_assignment \<Rightarrow> time \<Rightarrow> db \<Rightarrow> db" where
  "release_assignment s i a now d =
     snd (ReleaseStreamDelivery d i (se_app_id s) (se_connection_id s) (as_token a) (as_generation a) now)"

definition session_remove :: "string \<Rightarrow> session \<Rightarrow> session" where
  "session_remove i s =
     (case map_of (se_inflight s) i of
        None \<Rightarrow> s
      | Some f \<Rightarrow> s\<lparr>se_inflight := drop_inflight i (se_inflight s), se_inflight_bytes := se_inflight_bytes s - fl_bytes f\<rparr>)"

definition session_release :: "time \<Rightarrow> duration \<Rightarrow> string \<Rightarrow> session \<times> db \<Rightarrow> session \<times> db" where
  "session_release now delay i = (\<lambda>(s, d).
     (case map_of (se_inflight s) i of
        None \<Rightarrow> (s, d)
      | Some f \<Rightarrow>
          (answer (fl_message f) (MsgNack delay) (session_remove i s), release_assignment s i (fl_assignment f) now d)))"

text \<open>The third part: the hand-over to the connection.\<close>

definition deliver_finish ::
    "gateway_options \<Rightarrow> time \<Rightarrow> nat \<Rightarrow> session_task \<Rightarrow> delivery_assignment \<Rightarrow> session \<times> db \<Rightarrow> session \<times> db" where
  "deliver_finish opt now n t a = (\<lambda>(s, d).
     (let m = tk_message t; en = tk_envelope t; i = en_delivery_id en; s1 = releaseReservation n t s;
          back = (answer m (MsgNack (gw_retry_delay opt)) s1, release_assignment s i a now d) in
      if closedLocked s1 then back
      else
        (case delivery_frame en (as_attempt a) of
           None \<Rightarrow> back
         | Some wire \<Rightarrow>
             let size = int (length wire) in
             if size > MaxMessageBytes then back
             else
               let s2 = s1\<lparr>se_inflight := put_inflight i \<lparr>fl_assignment = a, fl_message = m, fl_bytes = size\<rparr> (se_inflight s1),
                           se_inflight_bytes := se_inflight_bytes s1 + size\<rparr> in
               (case enqueueRaw opt wire s2 of
                  (True, s3) \<Rightarrow> (s3, d)
                | (False, s3) \<Rightarrow> session_release now 0 i (s3, d)))))"

section \<open>Client frames\<close>

definition not_assigned :: protocol_error where
  "not_assigned = protocolError ''delivery_not_assigned'' ''Delivery is not assigned to this connection.'' False"

text \<open>\<open>answered\<close> says whether the broker takes the answer to the message.\<close>

definition session_control ::
    "gateway_options \<Rightarrow> time \<Rightarrow> bool \<Rightarrow> client_frame \<Rightarrow> session \<times> db \<Rightarrow> protocol_error option \<times> session \<times> db" where
  "session_control opt now answered frame = (\<lambda>(s, d).
     (let i = cf_delivery_id frame in
      case map_of (se_inflight s) i of
        None \<Rightarrow> (Some not_assigned, s, d)
      | Some f \<Rightarrow>
          let a = fl_assignment f;
              (state, action, r, d') =
                (if cf_type frame = ''delivery.ack'' then
                   (case AcknowledgeStreamDelivery d i (se_app_id s) (se_connection_id s) (as_token a) (as_generation a) now of
                      (r, d') \<Rightarrow> (''acked'', MsgAck, r, d'))
                 else if cf_type frame = ''delivery.nack'' then
                   (case ReleaseStreamDelivery d i (se_app_id s) (se_connection_id s) (as_token a) (as_generation a) now of
                      (r, d') \<Rightarrow> (''retrying'', MsgNack (cf_delay_ms frame * millisecond), r, d'))
                 else
                   (case ProgressStreamDelivery d i (se_app_id s) (se_connection_id s) (as_token a) (as_generation a) now
                           (gw_assignment_lease opt) of
                      (r, d') \<Rightarrow> (''progress'', MsgProgress, r, d'))) in
          (case r of
             Inl e \<Rightarrow>
               (Some (if e = ErrNotFound \<or> e = ErrConflict then not_assigned
                      else protocolError ''internal_error'' ''Delivery state could not be updated.'' True), s, d')
           | Inr _ \<Rightarrow>
               let s1 = answer (fl_message f) action s in
               if \<not> answered then (Some (protocolError ''internal_error'' ''Delivery state could not be updated.'' True), s1, d')
               else
                 let s2 = (if cf_type frame \<noteq> ''delivery.progress'' then session_remove i s1 else s1) in
                 (case enqueueRaw opt (accepted_frame i state) s2 of
                    (sent, s3) \<Rightarrow> (if sent then None else Some backpressure, s3, d')))))"

definition session_handle ::
    "gateway_options \<Rightarrow> (string \<Rightarrow> string) \<Rightarrow> (consumer_config \<Rightarrow> bool) \<Rightarrow> time \<Rightarrow> bool \<Rightarrow> string \<Rightarrow> session \<times> db
     \<Rightarrow> protocol_error option \<times> session \<times> db" where
  "session_handle opt token_of consume now answered raw = (\<lambda>(s, d).
     (case DecodeClientFrame raw of
        Inl e \<Rightarrow> (Some e, s, d)
      | Inr frame \<Rightarrow>
          if cf_type frame = ''consumer.start'' then
            (case session_start opt token_of consume frame s of (e, s') \<Rightarrow> (e, s', d))
          else if cf_type frame = ''delivery.ack'' \<or> cf_type frame = ''delivery.nack'' \<or> cf_type frame = ''delivery.progress'' then
            session_control opt now answered frame (s, d)
          else if cf_type frame = ''function.result'' then
            (Some (protocolError ''function_not_assigned'' ''Function invocation is not assigned to this connection.'' False), s, d)
          else if cf_type frame = ''ping'' then
            (case enqueueRaw opt (object_text [(''type'', json_quote ''pong'')]) s of
               (sent, s') \<Rightarrow> (if sent then None else Some backpressure, s', d))
          else (None, s, d)))"

text \<open>One turn of the loop over the frames of a connection; the flag says whether the loop goes on.\<close>

definition serve_frame ::
    "gateway_options \<Rightarrow> (string \<Rightarrow> string) \<Rightarrow> (consumer_config \<Rightarrow> bool) \<Rightarrow> time \<Rightarrow> bool \<Rightarrow> string \<Rightarrow> session \<times> db
     \<Rightarrow> bool \<times> session \<times> db" where
  "serve_frame opt token_of consume now answered raw x =
     (case session_handle opt token_of consume now answered raw x of
        (None, y) \<Rightarrow> (True, y)
      | (Some e, s, d) \<Rightarrow>
          (case enqueueRaw opt (error_frame e) s of
             (False, s') \<Rightarrow> (False, s', d)
           | (True, s') \<Rightarrow> (pe_code e \<noteq> ''frame_too_large'', s', d)))"

section \<open>Closing\<close>

definition close_begin :: "session \<Rightarrow> session" where
  "close_begin s = s\<lparr>se_closing := True\<rparr>"

text \<open>After the wait for the assignments, which ends when there is none left or its context ends.\<close>

definition close_finish :: "time \<Rightarrow> session \<times> db \<Rightarrow> session \<times> db" where
  "close_finish now = (\<lambda>(s, d).
     (case fold (session_release now 0) (map fst (se_inflight s)) (s, d) of (s', d') \<Rightarrow> (s'\<lparr>se_done := True\<rparr>, d')))"

section \<open>The gateway\<close>

record gateway =
  gt_sessions :: "session list"
  gt_draining :: bool

definition ConnectionCount :: "gateway \<Rightarrow> nat" where
  "ConnectionCount g = length (gt_sessions g)"

definition new_session :: "string \<Rightarrow> string \<Rightarrow> session" where
  "new_session appID connectionID =
     \<lparr>se_app_id = appID, se_connection_id = connectionID, se_started = False, se_max_in_flight = 0, se_subscribed = False,
      se_inflight = [], se_inflight_bytes = 0, se_reserved = 0, se_reserved_bytes = 0, se_closing = False, se_done = False,
      se_frames = [], se_tasks = [], se_answers = []\<rparr>"

definition gateway_open :: "gateway_options \<Rightarrow> string \<Rightarrow> string option \<Rightarrow> gateway \<Rightarrow> session option \<times> gateway" where
  "gateway_open opt appID newID g =
     (if appID = [] then (None, g)
      else
        (case newID of
           None \<Rightarrow> (None, g)
         | Some i \<Rightarrow>
             if i = [] \<or> gt_draining g then (None, g)
             else
               (case enqueueRaw opt (ready_frame opt appID i) (new_session appID i) of
                  (False, s) \<Rightarrow> (None, g)
                | (True, s) \<Rightarrow> (Some s, g\<lparr>gt_sessions := gt_sessions g @ [s]\<rparr>))))"

fun drain_sessions :: "time \<Rightarrow> session list \<Rightarrow> db \<Rightarrow> session list \<times> db" where
  "drain_sessions now [] d = ([], d)"
| "drain_sessions now (s # ss) d =
     (case (if se_closing s then (s, d) else close_finish now (close_begin s, d)) of
        (s', d') \<Rightarrow> (case drain_sessions now ss d' of (ss', d'') \<Rightarrow> (s' # ss', d'')))"

text \<open>A closed session is taken out of the table.\<close>

definition gateway_drain :: "time \<Rightarrow> gateway \<times> db \<Rightarrow> gateway \<times> db" where
  "gateway_drain now = (\<lambda>(g, d).
     (case drain_sessions now (gt_sessions g) d of
        (ss, d') \<Rightarrow> (g\<lparr>gt_draining := True, gt_sessions := filter (\<lambda>s. \<not> se_done s) ss\<rparr>, d')))"

section \<open>Runs of a session\<close>

datatype session_step =
    MessageArrives stream_message
  | TaskAssigns nat time "string option"
  | TaskFinishes nat time
  | FrameArrives string time bool
  | WriterTakes
  | CloseBegins
  | CloseFinishes time
  | OtherSession lease_req

text \<open>The broker hands messages only to a consumer that was started.\<close>

definition exec_session ::
    "gateway_options \<Rightarrow> (string \<Rightarrow> string) \<Rightarrow> (consumer_config \<Rightarrow> bool) \<Rightarrow> session_step \<Rightarrow> session \<times> db \<Rightarrow> session \<times> db" where
  "exec_session opt token_of consume c = (\<lambda>(s, d).
     (case c of
        MessageArrives m \<Rightarrow> (if se_subscribed s then deliver_reserve opt m s else s, d)
      | TaskAssigns n now token \<Rightarrow>
          if n < length (se_tasks s) \<and> tk_assignment (se_tasks s ! n) = None
          then deliver_assign opt now token n (se_tasks s ! n) (s, d) else (s, d)
      | TaskFinishes n now \<Rightarrow>
          if n < length (se_tasks s) then
            (case tk_assignment (se_tasks s ! n) of
               None \<Rightarrow> (s, d)
             | Some a \<Rightarrow> deliver_finish opt now n (se_tasks s ! n) a (s, d))
          else (s, d)
      | FrameArrives raw now answered \<Rightarrow> snd (serve_frame opt token_of consume now answered raw (s, d))
      | WriterTakes \<Rightarrow> (s\<lparr>se_frames := tl (se_frames s)\<rparr>, d)
      | CloseBegins \<Rightarrow> (close_begin s, d)
      | CloseFinishes now \<Rightarrow> if se_closing s \<and> \<not> se_done s then close_finish now (s, d) else (s, d)
      | OtherSession q \<Rightarrow> (s, exec_lease d q)))"

definition exec_steps ::
    "gateway_options \<Rightarrow> (string \<Rightarrow> string) \<Rightarrow> (consumer_config \<Rightarrow> bool) \<Rightarrow> session_step list \<Rightarrow> session \<times> db \<Rightarrow> session \<times> db" where
  "exec_steps opt token_of consume cs x = fold (exec_session opt token_of consume) cs x"


section \<open>Settled deliveries\<close>

definition settled_delivery :: "db \<Rightarrow> string \<Rightarrow> bool" where
  "settled_delivery d i \<longleftrightarrow> (case find_delivery d i of None \<Rightarrow> False | Some x \<Rightarrow> terminal_status (d_status x))"

lemma terminal_not_held: "terminal_status (d_status x) \<Longrightarrow> \<not> holds_lease i a c t g now x"
  by (simp add: holds_lease_def)

lemma exec_lease_settled:
  assumes "deliveries_ok d" and "settled_delivery d i"
  shows "settled_delivery (exec_lease d q) i"
proof -
  obtain x where x: "find_delivery d i = Some x" "terminal_status (d_status x)"
    using assms(2) by (auto simp: settled_delivery_def split: option.splits)
  note n = terminal_not_held [OF x(2)]
  have "\<not> assignable d j a g now x" for j a g now using x by (simp add: assignable_def)
  then have "find_delivery (exec_lease d q) i = Some x"
    by (cases "rq_cmd q")
      (simp_all add: exec_lease_def x(1) n Assign_db [OF assms(1)] Acknowledge_db [OF assms(1)] Release_db [OF assms(1)]
        Progress_not_held [OF x(1) n])
  then show ?thesis using x by (simp add: settled_delivery_def)
qed

text \<open>The four operations of the store are requests of the kind that other sessions make.\<close>

lemma lease_requests:
  "snd (AssignStreamDelivery d i a c t g now lease maxp) =
     exec_lease d \<lparr>rq_delivery = i, rq_app = a, rq_connection = c, rq_token = t, rq_generation = g, rq_now = now, rq_cmd = CmdAssign lease maxp\<rparr>"
  "snd (AcknowledgeStreamDelivery d i a c t g now) =
     exec_lease d \<lparr>rq_delivery = i, rq_app = a, rq_connection = c, rq_token = t, rq_generation = g, rq_now = now, rq_cmd = CmdAck\<rparr>"
  "snd (ReleaseStreamDelivery d i a c t g now) =
     exec_lease d \<lparr>rq_delivery = i, rq_app = a, rq_connection = c, rq_token = t, rq_generation = g, rq_now = now, rq_cmd = CmdRelease\<rparr>"
  "snd (ProgressStreamDelivery d i a c t g now lease) =
     exec_lease d \<lparr>rq_delivery = i, rq_app = a, rq_connection = c, rq_token = t, rq_generation = g, rq_now = now, rq_cmd = CmdProgress lease\<rparr>"
  by (simp_all add: exec_lease_def)

lemma Assign_complete:
  "AssignStreamDelivery d i a c t g now lease maxp = (Inr DeliveryAlreadyComplete, d') \<Longrightarrow> settled_delivery d' i"
  by (auto simp: AssignStreamDelivery_def settled_delivery_def Let_def split: if_splits option.splits)

lemma Acknowledge_settles:
  assumes "deliveries_ok d" and "AcknowledgeStreamDelivery d i a c t g now = (Inr u, d')"
  shows "settled_delivery d' i"
proof -
  have r: "fst (AcknowledgeStreamDelivery d i a c t g now) = Inr u" and d': "d' = snd (AcknowledgeStreamDelivery d i a c t g now)"
    using assms(2) by simp_all
  obtain x where x: "find_delivery d i = Some x" "holds_lease i a c t g now x \<or> d_status x = Acked"
    using r unfolding Acknowledge_result [OF assms(1)] by (auto split: option.splits if_splits)
  then show ?thesis
    unfolding d' settled_delivery_def Acknowledge_db [OF assms(1)] by (auto simp: terminal_status_def ack_row_def)
qed

section \<open>The invariant of a session\<close>

definition task_ok :: "string \<Rightarrow> session_task \<Rightarrow> bool" where
  "task_ok appID t \<longleftrightarrow> message_envelope (tk_message t) appID = Some (tk_envelope t)"

definition entry_ok :: "string \<Rightarrow> string \<times> inflight_delivery \<Rightarrow> bool" where
  "entry_ok appID x \<longleftrightarrow> map_option en_delivery_id (message_envelope (fl_message (snd x)) appID) = Some (fst x)"

text \<open>An acknowledged message carries a delivery that is settled.\<close>

definition answer_ok :: "string \<Rightarrow> db \<Rightarrow> stream_message \<times> broker_action \<Rightarrow> bool" where
  "answer_ok appID d x \<longleftrightarrow>
     (snd x = MsgAck \<longrightarrow>
        (case message_envelope (fst x) appID of None \<Rightarrow> False | Some en \<Rightarrow> settled_delivery d (en_delivery_id en)))"

definition session_inv :: "gateway_options \<Rightarrow> session \<times> db \<Rightarrow> bool" where
  "session_inv opt = (\<lambda>(s, d).
     deliveries_ok d \<and> se_reserved s = int (length (se_tasks s)) \<and>
     se_reserved_bytes s = sum_list (map tk_bytes (se_tasks s)) \<and> distinct (map fst (se_inflight s)) \<and>
     (se_subscribed s \<longrightarrow> se_started s) \<and> (\<not> se_subscribed s \<longrightarrow> se_tasks s = [] \<and> se_inflight s = []) \<and>
     int (length (se_inflight s)) + int (length (se_tasks s)) \<le> max 0 (se_max_in_flight s) \<and>
     se_max_in_flight s \<le> gw_max_in_flight opt \<and> int (length (se_frames s)) \<le> gw_outbound_queue opt \<and>
     list_all (task_ok (se_app_id s)) (se_tasks s) \<and> list_all (entry_ok (se_app_id s)) (se_inflight s) \<and>
     list_all (answer_ok (se_app_id s) d) (se_answers s))"

lemma session_inv_db:
  assumes "session_inv opt (s, d)"
  shows "session_inv opt (s, exec_lease d q)"
proof -
  have ok: "deliveries_ok d" using assms by (simp add: session_inv_def)
  have "answer_ok a d x \<Longrightarrow> answer_ok a (exec_lease d q) x" for a x
    using exec_lease_settled [OF ok] by (auto simp: answer_ok_def split: option.splits)
  then show ?thesis using assms exec_lease_ok [OF ok] by (auto simp: session_inv_def list_all_iff)
qed

lemma session_inv_answer:
  "session_inv opt (s, d) \<Longrightarrow> answer_ok (se_app_id s) d (m, a) \<Longrightarrow> session_inv opt (answer m a s, d)"
  by (simp add: session_inv_def answer_def)

lemma answer_ok_simps [simp]: "answer_ok appID d (m, MsgNack t)" "answer_ok appID d (m, MsgProgress)"
  by (simp_all add: answer_ok_def)

lemma session_inv_enqueue:
  "session_inv opt (s, d) \<Longrightarrow> enqueueRaw opt raw s = (sent, s') \<Longrightarrow> session_inv opt (s', d)"
  by (auto simp: enqueueRaw_def session_inv_def split: if_splits)

lemma session_inv_remove: "session_inv opt (s, d) \<Longrightarrow> session_inv opt (session_remove i s, d)"
proof -
  have "length (drop_inflight i m) \<le> length m" for m by (simp add: drop_inflight_def)
  then show "session_inv opt (s, d) \<Longrightarrow> ?thesis"
    by (auto simp: session_inv_def session_remove_def drop_inflight_def list_all_iff distinct_map_filter
        split: option.splits intro: order_trans [rotated])
qed

lemma session_remove_app [simp]: "se_app_id (session_remove i s) = se_app_id s"
  by (simp add: session_remove_def split: option.splits)


section \<open>Every step keeps the invariant\<close>

lemma release_assignment_inv: "session_inv opt (s, d) \<Longrightarrow> session_inv opt (s, release_assignment s' i a now d)"
  unfolding release_assignment_def lease_requests by (rule session_inv_db)

lemma session_release_inv:
  assumes "session_inv opt x"
  shows "session_inv opt (session_release now delay i x)"
proof -
  obtain s d where x: "x = (s, d)" by (cases x)
  show ?thesis
  proof (cases "map_of (se_inflight s) i")
    case None
    then show ?thesis using assms by (simp add: session_release_def x)
  next
    case (Some f)
    have "session_inv opt (answer (fl_message f) (MsgNack delay) (session_remove i s), d)"
      using assms session_inv_answer [OF session_inv_remove] by (simp add: x)
    from release_assignment_inv [OF this] show ?thesis by (simp add: session_release_def x Some)
  qed
qed

lemma task_removed:
  assumes "n < length xs"
  shows "length (take n xs @ drop (Suc n) xs) = length xs - 1"
    "sum_list (map f (take n xs @ drop (Suc n) xs)) = sum_list (map f xs) - (f (xs ! n) :: int)"
    "set (take n xs @ drop (Suc n) xs) \<subseteq> set xs"
proof -
  have "map f xs = map f (take n xs) @ f (xs ! n) # map f (drop (Suc n) xs)"
    using assms by (metis id_take_nth_drop list.simps(9) map_append)
  then show "sum_list (map f (take n xs @ drop (Suc n) xs)) = sum_list (map f xs) - (f (xs ! n) :: int)" by simp
qed (use assms in \<open>auto dest: in_set_takeD in_set_dropD\<close>)

lemma releaseReservation_inv:
  assumes "session_inv opt (s, d)" and "n < length (se_tasks s)"
  shows "session_inv opt (releaseReservation n (se_tasks s ! n) s, d)"
    "int (length (se_inflight s)) + int (length (se_tasks (releaseReservation n (se_tasks s ! n) s))) < max 0 (se_max_in_flight s)"
    "se_subscribed s"
proof -
  note t = task_removed [OF assms(2)]
  have l: "int (length (take n (se_tasks s) @ drop (Suc n) (se_tasks s))) = int (length (se_tasks s)) - 1"
    using t(1) assms(2) by simp
  show "session_inv opt (releaseReservation n (se_tasks s ! n) s, d)"
    using assms l t(2,3) by (auto simp: session_inv_def releaseReservation_def drop_task_def list_all_iff simp del: length_append map_append set_append)
  show "int (length (se_inflight s)) + int (length (se_tasks (releaseReservation n (se_tasks s ! n) s))) < max 0 (se_max_in_flight s)"
    using assms(1) l by (auto simp: session_inv_def releaseReservation_def drop_task_def simp del: length_append)
  show "se_subscribed s" using assms by (auto simp: session_inv_def)
qed

lemma releaseReservation_fields [simp]:
  "se_app_id (releaseReservation n t s) = se_app_id s" "se_inflight (releaseReservation n t s) = se_inflight s"
  "se_max_in_flight (releaseReservation n t s) = se_max_in_flight s" "se_subscribed (releaseReservation n t s) = se_subscribed s"
  by (simp_all add: releaseReservation_def drop_task_def)

lemma deliver_reserve_inv:
  assumes "session_inv opt (s, d)" and "se_subscribed s"
  shows "session_inv opt (deliver_reserve opt m s, d)"
proof -
  have refuse: "session_inv opt (answer m (MsgNack (gw_retry_delay opt)) s, d)" using session_inv_answer [OF assms(1)] by simp
  have accept: "session_inv opt (s\<lparr>se_reserved := se_reserved s + 1, se_reserved_bytes := se_reserved_bytes s + size,
      se_tasks := se_tasks s @ [\<lparr>tk_message = m, tk_envelope = en, tk_bytes = size, tk_assignment = None\<rparr>]\<rparr>, d)"
    if "message_envelope m (se_app_id s) = Some en" "\<not> int (length (se_inflight s)) + se_reserved s \<ge> se_max_in_flight s" for en size
    using assms that by (auto simp: session_inv_def task_ok_def)
  show ?thesis
    unfolding deliver_reserve_def Let_def by (auto split: option.splits simp: refuse intro: accept)
qed

lemma deliver_assign_inv:
  assumes "session_inv opt (s, d)" and "n < length (se_tasks s)"
  shows "session_inv opt (deliver_assign opt now token n (se_tasks s ! n) (s, d))"
proof (cases token)
  case None
  then show ?thesis using session_inv_answer [OF releaseReservation_inv(1) [OF assms]] by (simp add: deliver_assign_def Let_def)
next
  case (Some tok)
  let ?t = "se_tasks s ! n"
  let ?run = "AssignStreamDelivery d (en_delivery_id (tk_envelope ?t)) (se_app_id s) (se_connection_id s) tok
    (en_generation (tk_envelope ?t)) now (gw_assignment_lease opt) (gw_max_processing opt)"
  obtain r d' where run: "?run = (r, d')" by fastforce
  have d': "d' = snd ?run" using run by simp
  have inv: "session_inv opt (s, d')" unfolding d' lease_requests by (rule session_inv_db [OF assms(1)])
  note rel = releaseReservation_inv(1) [OF inv assms(2)]
  have env: "message_envelope (tk_message ?t) (se_app_id s) = Some (tk_envelope ?t)"
    using assms by (simp add: session_inv_def list_all_length task_ok_def)
  show ?thesis
  proof (cases r)
    case (Inl e)
    then show ?thesis using session_inv_answer [OF rel] by (simp add: deliver_assign_def Let_def Some run)
  next
    case (Inr disp)
    show ?thesis
    proof (cases disp)
      case (DeliveryAssigned a)
      have "map tk_bytes ((se_tasks s)[n := ?t\<lparr>tk_assignment := Some a\<rparr>]) = map tk_bytes (se_tasks s)"
        using assms(2) by (intro nth_equalityI) (auto simp: nth_list_update)
      then have "session_inv opt (s\<lparr>se_tasks := (se_tasks s)[n := ?t\<lparr>tk_assignment := Some a\<rparr>]\<rparr>, d')"
        using inv assms(2) env
        by (auto simp: session_inv_def list_all_iff task_ok_def simp del: map_update
            dest!: set_update_subset_insert [THEN subsetD])
      then show ?thesis by (simp add: deliver_assign_def Let_def Some run Inr DeliveryAssigned)
    next
      case DeliveryAlreadyAssigned
      then show ?thesis using session_inv_answer [OF rel] by (simp add: deliver_assign_def Let_def Some run Inr)
    next
      case DeliveryAlreadyComplete
      have "answer_ok (se_app_id s) d' (tk_message ?t, MsgAck)"
        using Assign_complete run Inr DeliveryAlreadyComplete env by (simp add: answer_ok_def)
      then show ?thesis
        using session_inv_answer [OF rel] by (simp add: deliver_assign_def Let_def Some run Inr DeliveryAlreadyComplete)
    qed
  qed
qed


lemma put_inflight_props:
  assumes "distinct (map fst m)"
  shows "distinct (map fst (put_inflight i f m))" "length (put_inflight i f m) \<le> Suc (length m)"
    "set (put_inflight i f m) \<subseteq> insert (i, f) (set m)"
  using assms by (auto simp: put_inflight_def distinct_map_filter)

lemma deliver_finish_inv:
  assumes "session_inv opt (s, d)" and "n < length (se_tasks s)"
  shows "session_inv opt (deliver_finish opt now n (se_tasks s ! n) a (s, d))"
proof -
  let ?t = "se_tasks s ! n"
  define s1 where "s1 = releaseReservation n ?t s"
  have r: "session_inv opt (s1, d)" "int (length (se_inflight s1)) + int (length (se_tasks s1)) < max 0 (se_max_in_flight s1)"
      "se_subscribed s1" "se_app_id s1 = se_app_id s"
    using releaseReservation_inv [OF assms] by (simp_all add: s1_def)
  have env: "message_envelope (tk_message ?t) (se_app_id s) = Some (tk_envelope ?t)"
    using assms by (simp add: session_inv_def list_all_length task_ok_def)
  have ret: "session_inv opt (answer (tk_message ?t) (MsgNack (gw_retry_delay opt)) s1,
      release_assignment s (en_delivery_id (tk_envelope ?t)) a now d)"
    using release_assignment_inv [OF session_inv_answer [OF r(1)]] by simp
  define s2 where "s2 wire = s1\<lparr>se_inflight := put_inflight (en_delivery_id (tk_envelope ?t))
      \<lparr>fl_assignment = a, fl_message = tk_message ?t, fl_bytes = int (length wire)\<rparr> (se_inflight s1),
    se_inflight_bytes := se_inflight_bytes s1 + int (length wire)\<rparr>" for wire :: string
  have hand: "session_inv opt (s2 wire, d)" for wire :: string
  proof -
    let ?f = "\<lparr>fl_assignment = a, fl_message = tk_message ?t, fl_bytes = int (length wire)\<rparr>"
    have "distinct (map fst (se_inflight s1))" using r(1) by (simp add: session_inv_def)
    note p = put_inflight_props [OF this, of "en_delivery_id (tk_envelope ?t)" ?f]
    have "entry_ok (se_app_id s1) (en_delivery_id (tk_envelope ?t), ?f)" using env r(4) by (simp add: entry_ok_def)
    then have "list_all (entry_ok (se_app_id s1)) (put_inflight (en_delivery_id (tk_envelope ?t)) ?f (se_inflight s1))"
      using r(1) p(3) by (auto simp: session_inv_def list_all_iff)
    moreover have "int (length (put_inflight (en_delivery_id (tk_envelope ?t)) ?f (se_inflight s1))) + int (length (se_tasks s1)) \<le>
        max 0 (se_max_in_flight s1)" using p(2) r(2) by linarith
    ultimately show ?thesis using r(1,3) p(1) by (auto simp: session_inv_def s2_def)
  qed
  show ?thesis
  proof (cases "enqueueRaw opt (the (delivery_frame (tk_envelope ?t) (as_attempt a))) (s2 (the (delivery_frame (tk_envelope ?t) (as_attempt a))))")
    case (Pair sent s3)
    note inv3 = session_inv_enqueue [OF hand Pair]
    show ?thesis
      using ret inv3 Pair session_release_inv [OF inv3]
      unfolding deliver_finish_def Let_def split_conv s1_def [symmetric]
      by (auto split: option.splits bool.splits simp: s2_def)
  qed
qed

lemma session_start_inv:
  assumes "session_inv opt (s, d)" and "session_start opt token_of consume frame s = (e, s')"
  shows "session_inv opt (s', d)"
proof (cases "se_started s")
  case True
  then show ?thesis using assms by (simp add: session_start_def)
next
  case False
  define s1 where "s1 = s\<lparr>se_started := True, se_max_in_flight := min (cf_max_in_flight frame) (gw_max_in_flight opt)\<rparr>"
  have inv: "session_inv opt (s1, d)" "session_inv opt (s1\<lparr>se_started := False\<rparr>, d)" "session_inv opt (s1\<lparr>se_subscribed := True\<rparr>, d)"
    using assms(1) False by (auto simp: session_inv_def s1_def)
  note run = assms(2) [unfolded session_start_def Let_def, folded s1_def]
  show ?thesis
    using run False inv session_inv_enqueue [OF inv(3)] by (auto split: option.splits if_splits prod.splits)
qed

lemma session_control_inv:
  assumes "session_inv opt x"
  shows "session_inv opt (snd (session_control opt now answered frame x))"
proof -
  obtain s d where x: "x = (s, d)" by (cases x)
  let ?i = "cf_delivery_id frame"
  show ?thesis
  proof (cases "map_of (se_inflight s) ?i")
    case None
    then show ?thesis using assms by (simp add: session_control_def x)
  next
    case (Some f)
    let ?a = "fl_assignment f"
    define op where "op =
      (if cf_type frame = ''delivery.ack'' then
         (case AcknowledgeStreamDelivery d ?i (se_app_id s) (se_connection_id s) (as_token ?a) (as_generation ?a) now of
            (r, d') \<Rightarrow> (''acked'', MsgAck, r, d'))
       else if cf_type frame = ''delivery.nack'' then
         (case ReleaseStreamDelivery d ?i (se_app_id s) (se_connection_id s) (as_token ?a) (as_generation ?a) now of
            (r, d') \<Rightarrow> (''retrying'', MsgNack (cf_delay_ms frame * millisecond), r, d'))
       else
         (case ProgressStreamDelivery d ?i (se_app_id s) (se_connection_id s) (as_token ?a) (as_generation ?a) now
                 (gw_assignment_lease opt) of
            (r, d') \<Rightarrow> (''progress'', MsgProgress, r, d')))"
    obtain state action r d' where o: "op = (state, action, r, d')" by (cases op)
    have inv: "session_inv opt (s, d')"
    proof -
      have "\<exists>q. d' = exec_lease d q"
        using o unfolding op_def by (auto split: if_splits prod.splits dest!: arg_cong [of _ _ snd] simp: lease_requests)
      then show ?thesis using session_inv_db [of opt s d] assms x by auto
    qed
    have "(?i, f) \<in> set (se_inflight s)" using Some by (rule map_of_SomeD)
    then have env: "map_option en_delivery_id (message_envelope (fl_message f) (se_app_id s)) = Some ?i"
      using inv by (auto simp: session_inv_def list_all_iff entry_ok_def)
    have ans: "answer_ok (se_app_id s) d' (fl_message f, action)" if "r = Inr u" for u
    proof (cases "action = MsgAck")
      case True
      have "deliveries_ok d" using assms by (simp add: session_inv_def x)
      then have "settled_delivery d' ?i"
        using Acknowledge_settles o that True unfolding op_def by (auto split: if_splits prod.splits)
      then show ?thesis using env by (auto simp: answer_ok_def split: option.splits)
    qed (simp add: answer_ok_def)
    have eq: "session_control opt now answered frame x =
      (case r of
         Inl e \<Rightarrow> (Some (if e = ErrNotFound \<or> e = ErrConflict then not_assigned
                  else protocolError ''internal_error'' ''Delivery state could not be updated.'' True), s, d')
       | Inr _ \<Rightarrow>
           let s1 = answer (fl_message f) action s in
           if \<not> answered then (Some (protocolError ''internal_error'' ''Delivery state could not be updated.'' True), s1, d')
           else
             let s2 = (if cf_type frame \<noteq> ''delivery.progress'' then session_remove ?i s1 else s1) in
             (case enqueueRaw opt (accepted_frame ?i state) s2 of (sent, s3) \<Rightarrow> (if sent then None else Some backpressure, s3, d')))"
      using o unfolding session_control_def x op_def by (simp add: Some Let_def split: if_splits)
    show ?thesis
    proof (cases r)
      case (Inl e)
      then show ?thesis using inv by (simp add: eq)
    next
      case (Inr u)
      note inv1 = session_inv_answer [OF inv ans [OF Inr]]
      define s2 where "s2 = (if cf_type frame \<noteq> ''delivery.progress'' then session_remove ?i (answer (fl_message f) action s) else answer (fl_message f) action s)"
      have inv2: "session_inv opt (s2, d')" using inv1 session_inv_remove [OF inv1] by (simp add: s2_def)
      obtain sent s3 where q: "enqueueRaw opt (accepted_frame ?i state) s2 = (sent, s3)" by fastforce
      show ?thesis using inv1 session_inv_enqueue [OF inv2 q] by (simp add: eq Inr Let_def s2_def [symmetric] q)
    qed
  qed
qed


lemma session_handle_inv:
  assumes "session_inv opt x"
  shows "session_inv opt (snd (session_handle opt token_of consume now answered raw x))"
proof -
  obtain s d where x: "x = (s, d)" by (cases x)
  have inv: "session_inv opt (s, d)" using assms x by simp
  show ?thesis
    using inv session_control_inv [OF inv] session_start_inv [OF inv] session_inv_enqueue [OF inv]
    unfolding session_handle_def x by (auto split: sum.splits prod.splits if_splits)
qed

lemma serve_frame_inv:
  assumes "session_inv opt x"
  shows "session_inv opt (snd (serve_frame opt token_of consume now answered raw x))"
proof -
  obtain e s d where h: "session_handle opt token_of consume now answered raw x = (e, s, d)" by (metis prod_cases3)
  have inv: "session_inv opt (s, d)" using session_handle_inv [OF assms, of token_of consume now answered raw] by (simp add: h)
  show ?thesis
    using inv session_inv_enqueue [OF inv] by (auto simp: serve_frame_def h split: option.splits prod.splits bool.splits)
qed

lemma fold_release_inv: "session_inv opt x \<Longrightarrow> session_inv opt (fold (session_release now 0) ks x)"
proof (induction ks arbitrary: x)
  case (Cons k ks)
  from Cons.IH [OF session_release_inv [OF Cons.prems, of now 0 k]] show ?case by simp
qed simp

lemma close_finish_inv:
  assumes "session_inv opt x"
  shows "session_inv opt (close_finish now x)"
proof -
  obtain s d where x: "x = (s, d)" by (cases x)
  obtain s' d' where f: "fold (session_release now 0) (map fst (se_inflight s)) (s, d) = (s', d')" by fastforce
  have "session_inv opt (s', d')" using fold_release_inv [of opt "(s, d)"] assms x f by metis
  then show ?thesis by (simp add: close_finish_def x f session_inv_def)
qed

inductive session_moves ::
    "gateway_options \<Rightarrow> (string \<Rightarrow> string) \<Rightarrow> (consumer_config \<Rightarrow> bool) \<Rightarrow> session \<times> db \<Rightarrow> session \<times> db \<Rightarrow> bool"
  for opt token_of consume where
  move: "session_moves opt token_of consume x (exec_session opt token_of consume c x)"

lemma exec_session_inv:
  assumes "session_inv opt x"
  shows "session_inv opt (exec_session opt token_of consume c x)"
proof -
  obtain s d where x: "x = (s, d)" by (cases x)
  have inv: "session_inv opt (s, d)" using assms x by simp
  show ?thesis
  proof (cases c)
    case (MessageArrives m)
    then show ?thesis using inv deliver_reserve_inv [OF inv] by (simp add: exec_session_def x)
  next
    case (TaskAssigns n now token)
    then show ?thesis using inv deliver_assign_inv [OF inv] by (simp add: exec_session_def x)
  next
    case (TaskFinishes n now)
    then show ?thesis using inv deliver_finish_inv [OF inv] by (simp add: exec_session_def x split: option.splits)
  next
    case (FrameArrives raw now answered)
    then show ?thesis using serve_frame_inv [OF inv] by (simp add: exec_session_def x)
  next
    case WriterTakes
    have "session_inv opt (s\<lparr>se_frames := tl (se_frames s)\<rparr>, d)" using inv by (auto simp: session_inv_def)
    then show ?thesis by (simp add: exec_session_def x WriterTakes)
  next
    case CloseBegins
    have "session_inv opt (close_begin s, d)" using inv by (simp add: session_inv_def close_begin_def)
    then show ?thesis by (simp add: exec_session_def x CloseBegins)
  next
    case (CloseFinishes now)
    then show ?thesis using inv close_finish_inv [OF inv] by (simp add: exec_session_def x)
  next
    case (OtherSession q)
    then show ?thesis using session_inv_db [OF inv] by (simp add: exec_session_def x)
  qed
qed

interpretation gateway_session: invariant_system "session_moves opt token_of consume" "session_inv opt"
proof
  fix x y
  assume "session_moves opt token_of consume x y" and "session_inv opt x"
  then show "session_inv opt y" by (cases rule: session_moves.cases) (simp only: exec_session_inv)
qed

lemma exec_steps_moves: "(session_moves opt token_of consume)\<^sup>*\<^sup>* x (exec_steps opt token_of consume cs x)"
proof (induction cs arbitrary: x)
  case Nil
  then show ?case by (simp add: exec_steps_def)
next
  case (Cons c cs)
  have "session_moves opt token_of consume x (exec_session opt token_of consume c x)" by (rule session_moves.move)
  with Cons.IH [of "exec_session opt token_of consume c x"] show ?case
    by (simp add: exec_steps_def converse_rtranclp_into_rtranclp)
qed

lemma opened_session_inv:
  assumes "NewGateway opts = Some opt" and "gateway_open opt appID newID g = (Some s, g')" and "deliveries_ok d"
  shows "session_inv opt (s, d)" "se_app_id s = appID" "0 < gw_max_in_flight opt" "gw_max_in_flight opt \<le> 256"
proof -
  have new: "opt = gateway_defaults opts" "gw_max_in_flight opt \<le> 256"
    using assms(1) unfolding NewGateway_def Let_def by (simp_all split: if_splits)
  have "0 < gw_max_in_flight (gateway_defaults opts)" "0 \<le> gw_outbound_queue (gateway_defaults opts)"
    by (simp_all add: gateway_defaults_def Let_def)
  then show opt: "0 < gw_max_in_flight opt" "gw_max_in_flight opt \<le> 256" using new by simp_all
  have queue: "0 \<le> gw_outbound_queue opt" using \<open>0 \<le> gw_outbound_queue (gateway_defaults opts)\<close> new by simp
  obtain i where q: "enqueueRaw opt (ready_frame opt appID i) (new_session appID i) = (True, s)"
    using assms(2) unfolding gateway_open_def by (auto split: if_splits option.splits prod.splits bool.splits)
  have start: "session_inv opt (new_session appID i, d)"
    using assms(3) opt queue by (simp add: session_inv_def new_session_def)
  show "session_inv opt (s, d)" by (rule session_inv_enqueue [OF start q])
  show "se_app_id s = appID" using q by (auto simp: enqueueRaw_def new_session_def split: if_splits)
qed

lemma exec_steps_inv:
  assumes "session_inv opt x"
  shows "session_inv opt (exec_steps opt token_of consume cs x)"
  using gateway_session.run_inv [OF exec_steps_moves assms] .


section \<open>Closing returns what is in flight\<close>

lemma session_release_effect:
  assumes "deliveries_ok d" and "session_release now 0 i (s, d) = (s', d')"
  shows "se_inflight s' = filter (\<lambda>x. fst x \<noteq> i) (se_inflight s)" "se_app_id s' = se_app_id s" "se_connection_id s' = se_connection_id s"
    "set (se_answers s) \<subseteq> set (se_answers s')" "\<forall>f. map_of (se_inflight s) i = Some f \<longrightarrow> (fl_message f, MsgNack 0) \<in> set (se_answers s')"
    "deliveries_ok d'"
    "find_delivery d' j = map_option (\<lambda>x. if j = i \<and> (\<exists>f. map_of (se_inflight s) i = Some f \<and>
        holds_lease i (se_app_id s) (se_connection_id s) (as_token (fl_assignment f)) (as_generation (fl_assignment f)) now x)
      then release_row now x else x) (find_delivery d j)"
proof -
  have other: "map_option (\<lambda>x. if holds_lease i a c t g now x then release_row now x else x) (find_delivery d j) =
      map_option (\<lambda>x. if j = i \<and> holds_lease i a c t g now x then release_row now x else x) (find_delivery d j)" for a c t g
    using not_held_elsewhere [of d j] by (cases "find_delivery d j") auto
  have none: "filter (\<lambda>x. fst x \<noteq> i) (se_inflight s) = se_inflight s" if "map_of (se_inflight s) i = None"
    using that by (auto simp: filter_id_conv map_of_eq_None_iff)
  show "se_inflight s' = filter (\<lambda>x. fst x \<noteq> i) (se_inflight s)" "se_app_id s' = se_app_id s" "se_connection_id s' = se_connection_id s"
    "set (se_answers s) \<subseteq> set (se_answers s')" "\<forall>f. map_of (se_inflight s) i = Some f \<longrightarrow> (fl_message f, MsgNack 0) \<in> set (se_answers s')"
    "deliveries_ok d'"
    "find_delivery d' j = map_option (\<lambda>x. if j = i \<and> (\<exists>f. map_of (se_inflight s) i = Some f \<and>
        holds_lease i (se_app_id s) (se_connection_id s) (as_token (fl_assignment f)) (as_generation (fl_assignment f)) now x)
      then release_row now x else x) (find_delivery d j)"
    using assms none
    by (auto simp: session_release_def session_remove_def drop_inflight_def answer_def release_assignment_def Release_ok
        Release_db [OF assms(1)] other option.map_ident split: option.splits)
qed

lemma map_of_filter_key: "i \<noteq> k \<Longrightarrow> map_of (filter (\<lambda>x. fst x \<noteq> k) m) i = map_of m i"
  by (induction m) auto

lemma close_fold:
  assumes "deliveries_ok d" and "distinct ks" and "fold (session_release now 0) ks (s, d) = (s', d')"
  shows "se_inflight s' = filter (\<lambda>x. fst x \<notin> set ks) (se_inflight s) \<and> set (se_answers s) \<subseteq> set (se_answers s') \<and>
    (\<forall>i\<in>set ks. \<forall>f. map_of (se_inflight s) i = Some f \<longrightarrow> (fl_message f, MsgNack 0) \<in> set (se_answers s')) \<and>
    (\<forall>i\<in>set ks. \<forall>f x. map_of (se_inflight s) i = Some f \<and> find_delivery d i = Some x \<and>
       holds_lease i (se_app_id s) (se_connection_id s) (as_token (fl_assignment f)) (as_generation (fl_assignment f)) now x \<longrightarrow>
       find_delivery d' i = Some (release_row now x)) \<and>
    (\<forall>j. j \<notin> set ks \<longrightarrow> find_delivery d' j = find_delivery d j)"
  using assms
proof (induction ks arbitrary: s d)
  case Nil
  then show ?case by simp
next
  case (Cons k ks)
  obtain s1 d1 where one: "session_release now 0 k (s, d) = (s1, d1)" by fastforce
  have rest: "fold (session_release now 0) ks (s1, d1) = (s', d')" using Cons.prems(3) one by simp
  note e = session_release_effect [OF Cons.prems(1) one]
  have k: "k \<notin> set ks" "distinct ks" using Cons.prems(2) by simp_all
  note ih = Cons.IH [OF e(6) k(2) rest]
  have same: "map_of (se_inflight s1) i = map_of (se_inflight s) i" if "i \<in> set ks" for i
    unfolding e(1) by (rule map_of_filter_key) (use k(1) that in blast)
  have d1: "find_delivery d1 i = find_delivery d i" if "i \<noteq> k" for i
    using e(7) [of i] that by (simp add: option.map_ident)
  have kd: "find_delivery d' k = find_delivery d1 k" using ih k(1) by blast
  have "se_inflight s' = filter (\<lambda>x. fst x \<notin> set (k # ks)) (se_inflight s)" using ih e(1) by (auto intro: filter_cong)
  moreover have "find_delivery d' i = Some (release_row now x)"
    if "i \<in> set (k # ks)" "map_of (se_inflight s) i = Some f" "find_delivery d i = Some x"
      "holds_lease i (se_app_id s) (se_connection_id s) (as_token (fl_assignment f)) (as_generation (fl_assignment f)) now x" for i f x
  proof (cases "i = k")
    case True
    then show ?thesis using e(7) [of k] kd that by auto
  next
    case False
    then show ?thesis using ih same d1 e(2,3) that by auto
  qed
  moreover have "(fl_message f, MsgNack 0) \<in> set (se_answers s')" if "i \<in> set (k # ks)" "map_of (se_inflight s) i = Some f" for i f
    using ih same e(5) that by (cases "i = k") auto
  moreover have "find_delivery d' j = find_delivery d j" if "j \<notin> set (k # ks)" for j using ih d1 that by auto
  moreover have "set (se_answers s) \<subseteq> set (se_answers s')" using ih e(4) by blast
  ultimately show ?case by blast
qed

section \<open>An example run\<close>

definition example_gateway :: gateway_options where
  "example_gateway =
     \<lparr>gw_assignment_lease = 0, gw_max_processing = 0, gw_drain_timeout = 0, gw_max_in_flight = 0, gw_max_in_flight_bytes = 0,
      gw_outbound_queue = 0, gw_retry_delay = 0, gw_pong_wait = 0\<rparr>"

definition example_opt :: gateway_options where "example_opt = gateway_defaults example_gateway"

definition example_session :: session where
  "example_session = snd (enqueueRaw example_opt (ready_frame example_opt ''app'' ''conn'') (new_session ''app'' ''conn''))"

definition example_message :: stream_message where
  "example_message = \<lparr>sm_id = ''m1'', sm_data =
     object_text [(''delivery_id'', json_quote ''d1''), (''generation'', ''1''),
       (''event'', object_text [(''id'', json_quote ''evt_1''), (''type'', json_quote ''t''), (''source_app_id'', json_quote ''src''),
          (''target_app_ids'', string_list_text [''app'']), (''data'', ''{}''), (''created_at'', json_quote ''2024-01-01T00:00:00Z'')])]\<rparr>"

definition start_text :: string where
  "start_text = object_text [(''type'', json_quote ''consumer.start''), (''protocol_version'', ''1''), (''consumer'', json_quote ''default''),
     (''max_in_flight'', ''2'')]"

definition ack_text :: string where
  "ack_text = object_text [(''type'', json_quote ''delivery.ack''), (''delivery_id'', json_quote ''d1'')]"

definition stream_db :: db where "stream_db = empty_db\<lparr>deliveries := [example_delivery ''d1'']\<rparr>"

definition taken_steps :: "session_step list" where
  "taken_steps = [FrameArrives start_text 0 True, MessageArrives example_message, TaskAssigns 0 0 (Some ''t1''), TaskFinishes 0 0]"

lemma example_opened:
  "NewGateway example_gateway = Some example_opt"
  "gateway_open example_opt ''app'' (Some ''conn'') \<lparr>gt_sessions = [], gt_draining = False\<rparr> =
     (Some example_session, \<lparr>gt_sessions = [example_session], gt_draining = False\<rparr>)"
  "deliveries_ok stream_db"
  by code_simp+

text \<open>A broker message that arrives again after the lease has run out is assigned to the session a second time.  The
  entry in flight is replaced while the bytes of both are counted; after the acknowledgement nothing is in flight or
  reserved, and bytes stay counted against the session for good.\<close>

theorem redelivery_leaks_bytes:
  "case exec_steps example_opt id (\<lambda>_. True)
          (taken_steps @ [MessageArrives example_message, TaskAssigns 0 (61 * second) (Some ''t2''), TaskFinishes 0 (61 * second),
             FrameArrives ack_text (62 * second) True]) (example_session, stream_db) of
     (s, d) \<Rightarrow> se_inflight s = [] \<and> se_tasks s = [] \<and> 0 < se_inflight_bytes s"
  by code_simp

text \<open>A delivery of an event that was published with queue options cannot reach a consumer: the frame would carry
  the member \<^verbatim>\<open>queue\<close>, which the check of server frames does not know, so the message is returned to the
  broker every time it arrives.\<close>

definition queued_message :: stream_message where
  "queued_message = \<lparr>sm_id = ''m2'', sm_data = the (envelope_text \<lparr>en_delivery_id = ''d1'', en_generation = 1,
     en_event = \<lparr>e_id = ''evt_1'', e_type = ''t'', e_source_app_id = ''src'', e_target_app_ids = [''app''], e_data = ''{}'',
       e_created_at = (0, 0), e_queue = Some \<lparr>qe_available_at = (0, 0), qe_ordering_key = ''k'', qe_priority = 0,
         qe_metadata = ''{}'', qe_dedup_hash = []\<rparr>\<rparr>\<rparr>)\<rparr>"

theorem queued_event_refused:
  "message_envelope queued_message ''app'' \<noteq> None \<and>
   (case exec_steps example_opt id (\<lambda>_. True) [FrameArrives start_text 0 True, MessageArrives queued_message, MessageArrives queued_message]
           (example_session, stream_db) of
      (s, d) \<Rightarrow> se_tasks s = [] \<and> se_answers s = [(queued_message, MsgNack second), (queued_message, MsgNack second)])"
  by code_simp

text \<open>C22. A session never holds more than it was granted.  Through any interleaving of broker messages, assignments,
  client frames, other sessions and the close, deliveries in flight and messages being assigned together stay within
  the limit of the gateway, which is at most 256, the reservations count exactly the messages being assigned, and the
  frames waiting for the writer stay within the outbound queue.\<close>

theorem session_capacity:
  assumes "NewGateway opts = Some opt" and "gateway_open opt appID newID g = (Some s0, g')" and "deliveries_ok d"
    and "exec_steps opt token_of consume cs (s0, d) = (s, d')"
  shows "int (length (se_inflight s)) + int (length (se_tasks s)) \<le> gw_max_in_flight opt \<and> gw_max_in_flight opt \<le> 256 \<and>
    se_reserved s = int (length (se_tasks s)) \<and> se_reserved_bytes s = sum_list (map tk_bytes (se_tasks s)) \<and>
    int (length (se_frames s)) \<le> gw_outbound_queue opt"
proof -
  note o1 = opened_session_inv [OF assms(1-3)]
  have "session_inv opt (s, d')" using exec_steps_inv [OF o1(1), of token_of consume cs] assms(4) by simp
  then show ?thesis using o1(3,4) by (auto simp: session_inv_def)
qed

theorem session_capacity_witness:
  "case exec_steps example_opt id (\<lambda>_. True) taken_steps (example_session, stream_db) of (s, d) \<Rightarrow>
     length (se_inflight s) = 1 \<and> int (length (se_inflight s)) + int (length (se_tasks s)) \<le> gw_max_in_flight example_opt"
proof -
  obtain s d where run: "exec_steps example_opt id (\<lambda>_. True) taken_steps (example_session, stream_db) = (s, d)" by fastforce
  have "length (se_inflight (fst (exec_steps example_opt id (\<lambda>_. True) taken_steps (example_session, stream_db)))) = 1" by code_simp
  then show ?thesis using session_capacity [OF example_opened run] run by simp
qed

text \<open>C6. A message is acknowledged to the broker only when its delivery is settled: after any interleaving, every
  acknowledged message carries an envelope for the application of the session, and the delivery it names is acked,
  delivered or dead-lettered in the database.\<close>

theorem broker_ack_settled:
  assumes "NewGateway opts = Some opt" and "gateway_open opt appID newID g = (Some s0, g')" and "deliveries_ok d"
    and "exec_steps opt token_of consume cs (s0, d) = (s, d')" and "(m, MsgAck) \<in> set (se_answers s)"
  shows "\<exists>en x. message_envelope m (se_app_id s) = Some en \<and> find_delivery d' (en_delivery_id en) = Some x \<and> terminal_status (d_status x)"
proof -
  note o1 = opened_session_inv [OF assms(1-3)]
  have "session_inv opt (s, d')" using exec_steps_inv [OF o1(1), of token_of consume cs] assms(4) by simp
  then have "answer_ok (se_app_id s) d' (m, MsgAck)" using assms(5) by (auto simp: session_inv_def list_all_iff)
  then show ?thesis by (auto simp: answer_ok_def settled_delivery_def split: option.splits)
qed

theorem broker_ack_settled_witness:
  "case exec_steps example_opt id (\<lambda>_. True) (taken_steps @ [FrameArrives ack_text 1 True]) (example_session, stream_db) of (s, d) \<Rightarrow>
     \<exists>en x. message_envelope example_message (se_app_id s) = Some en \<and> find_delivery d (en_delivery_id en) = Some x \<and> terminal_status (d_status x)"
proof -
  let ?R = "exec_steps example_opt id (\<lambda>_. True) (taken_steps @ [FrameArrives ack_text 1 True]) (example_session, stream_db)"
  obtain s d where run: "?R = (s, d)" by fastforce
  have "se_answers (fst ?R) = [(example_message, MsgAck)]" by code_simp
  then have "(example_message, MsgAck) \<in> set (se_answers s)" using run by simp
  from broker_ack_settled [OF example_opened run this] run show ?thesis by simp
qed




end
