(* ===== verification/Admin.thy ===== *)
theory Admin
  imports Events Callbacks "HOL-Library.Multiset"
begin

text \<open>
  Operator actions: the cursors of the admin lists (\<^verbatim>\<open>adminread/cursor.go\<close>) and the replay of dead letters
  (\<^verbatim>\<open>adminread/models.go\<close>, \<^verbatim>\<open>store/postgres/admin_lifecycle.go\<close>, \<^verbatim>\<open>service/admin_lifecycle.go\<close>).  The tables that
  only operators use are kept beside the database.  SHA-256 is a parameter; \<open>dbNow\<close> is the database's clock.
  Identifiers are compared by their bytes; the actor columns of the lifecycle rows are left out, as in \<^verbatim>\<open>Database\<close>.
\<close>

section \<open>Cursors\<close>

definition MaxCursorLength :: int where "MaxCursorLength = 512"

record cursor =
  cu_version :: int
  cu_timestamp :: time
  cu_id :: string
  cu_filter :: string

definition FilterFingerprint :: "(string \<Rightarrow> string) \<Rightarrow> string list \<Rightarrow> string" where
  "FilterFingerprint sha parts = hex_encode (sha (concat (map (\<lambda>p. p @ [CHR 0x00]) parts)))"

text \<open>The encoded struct: the version, the instant in microseconds, the identifier and the filter.\<close>

record cursor_envelope =
  ce_version :: int
  ce_at_us :: int
  ce_id :: string
  ce_filter :: string

definition cursor_json :: "cursor_envelope \<Rightarrow> json" where
  "cursor_json c =
     JObj [(''v'', [], JNum (show_int (ce_version c))), (''at_us'', [], JNum (show_int (ce_at_us c))),
           (''id'', [], JStr (ce_id c)), (''filter'', [], JStr (ce_filter c))]"

definition cursor_id_ok :: "string \<Rightarrow> bool" where
  "cursor_id_ok i \<longleftrightarrow> i \<noteq> [] \<and> int (length i) \<le> 256 \<and> go_trim_space i = i"

definition EncodeCursor :: "cursor \<Rightarrow> string option" where
  "EncodeCursor c =
     (if cu_timestamp c = zero_time \<or> \<not> cursor_id_ok (cu_id c) \<or> int (length (cu_filter c)) \<noteq> 64 then None
      else
        let encoded = b64_encode (json_print (cursor_json
              \<lparr>ce_version = 1, ce_at_us = cu_timestamp c div 1000, ce_id = cu_id c, ce_filter = cu_filter c\<rparr>)) in
        if int (length encoded) > MaxCursorLength then None else Some encoded)"

definition cursor_field :: "string \<Rightarrow> string \<Rightarrow> json \<Rightarrow> cursor_envelope \<Rightarrow> cursor_envelope option" where
  "cursor_field k raw v x =
     (if k = ''v'' then map_option (\<lambda>t. x\<lparr>ce_version := t\<rparr>) (decode_int v (ce_version x))
      else if k = ''at_us'' then map_option (\<lambda>t. x\<lparr>ce_at_us := t\<rparr>) (decode_int v (ce_at_us x))
      else if k = ''id'' then map_option (\<lambda>t. x\<lparr>ce_id := t\<rparr>) (decode_string v (ce_id x))
      else if k = ''filter'' then map_option (\<lambda>t. x\<lparr>ce_filter := t\<rparr>) (decode_string v (ce_filter x))
      else None)"

definition DecodeCursor :: "string \<Rightarrow> string \<Rightarrow> cursor option" where
  "DecodeCursor raw expected =
     (if raw = [] \<or> int (length raw) > MaxCursorLength \<or> int (length expected) \<noteq> 64 then None
      else
        (case b64_decode raw of
           None \<Rightarrow> None
         | Some decoded \<Rightarrow>
             if int (length decoded) > MaxCursorLength then None
             else
               (case parse_json False decoded of
                  Inl _ \<Rightarrow> None
                | Inr v \<Rightarrow>
                    (case decode_struct cursor_field v \<lparr>ce_version = 0, ce_at_us = 0, ce_id = [], ce_filter = []\<rparr> of
                       None \<Rightarrow> None
                     | Some e \<Rightarrow>
                         if ce_version e \<noteq> 1 \<or> ce_at_us e \<le> 0 \<or> \<not> cursor_id_ok (ce_id e) \<or> ce_filter e \<noteq> expected then None
                         else Some \<lparr>cu_version = ce_version e, cu_timestamp = ce_at_us e * 1000, cu_id = ce_id e, cu_filter = ce_filter e\<rparr>))))"

section \<open>Replay commands\<close>

definition MaxReplayBatch :: int where "MaxReplayBatch = 100"

record replay_command =
  rc_delivery_ids :: "string list"
  rc_key_hash :: string
  rc_fingerprint :: string
  rc_actor_id :: string
  rc_now :: time

definition isHexDigest :: "string \<Rightarrow> bool" where
  "isHexDigest v \<longleftrightarrow> int (length v) = 64 \<and> list_all (\<lambda>c. byte_in 48 57 c \<or> byte_in 97 102 c) v"

definition validLifecycleValue :: "string \<Rightarrow> bool" where
  "validLifecycleValue v \<longleftrightarrow> v \<noteq> [] \<and> int (length v) \<le> 256 \<and> go_trim_space v = v"

definition replay_valid :: "replay_command \<Rightarrow> bool" where
  "replay_valid c \<longleftrightarrow>
     1 \<le> int (length (rc_delivery_ids c)) \<and> int (length (rc_delivery_ids c)) \<le> MaxReplayBatch \<and> isHexDigest (rc_key_hash c) \<and>
     isHexDigest (rc_fingerprint c) \<and> rc_now c \<noteq> zero_time \<and> validLifecycleValue (rc_actor_id c) \<and>
     list_all validLifecycleValue (rc_delivery_ids c) \<and> distinct (rc_delivery_ids c)"

record replay_item =
  ri_delivery_id :: string
  ri_event_id :: string
  ri_job_id :: string
  ri_from_generation :: int
  ri_generation :: int
  ri_status :: string

definition replay_item_text :: "replay_item \<Rightarrow> string" where
  "replay_item_text i =
     object_text [(''delivery_id'', json_quote (ri_delivery_id i)), (''event_id'', json_quote (ri_event_id i)),
       (''job_id'', json_quote (ri_job_id i)), (''from_generation'', show_int (ri_from_generation i)),
       (''generation'', show_int (ri_generation i)), (''status'', json_quote (ri_status i))]"

fun items_text :: "replay_item list \<Rightarrow> string" where
  "items_text [] = '']''"
| "items_text (i # is) = replay_item_text i @ (if is = [] then '']'' else CHR '','' # items_text is)"

definition replay_result_text :: "replay_item list \<Rightarrow> string" where
  "replay_result_text is = object_text [(''items'', CHR ''['' # items_text is)]"

section \<open>The replay in the store\<close>

record replay_request =
  rr_key_hash :: string
  rr_fingerprint :: string
  rr_result :: "replay_item list"
  rr_actor_id :: string
  rr_created_at :: time
  rr_expires_at :: time

record delivery_replay =
  dr_delivery_id :: string
  dr_from_generation :: int
  dr_generation :: int
  dr_key_hash :: string
  dr_actor_id :: string
  dr_occurred_at :: time

record admin_db =
  ad_db :: db
  ad_requests :: "replay_request list"
  ad_replays :: "delivery_replay list"
  ad_audit :: "audit_record list"

datatype admin_error = AdminInvalidArgument | AdminStore store_error

definition adminReplayRetention :: duration where "adminReplayRetention = 24 * 60 * minute"

text \<open>The dead letters of the selection with their outbox messages, in the order of their identifiers.\<close>

definition replay_rows :: "db \<Rightarrow> string list \<Rightarrow> (delivery \<times> outbox_row) list" where
  "replay_rows s ids =
     concat (map (\<lambda>d. map (Pair d) (filter (\<lambda>r. ob_delivery_id r = d_id d) (outbox s)))
       (sort_key d_id (filter (\<lambda>d. d_id d \<in> set ids \<and> d_status d = DeadLetter) (deliveries s))))"

definition replayed_delivery :: "time \<Rightarrow> delivery \<Rightarrow> delivery" where
  "replayed_delivery now d =
     d\<lparr>d_generation := d_generation d + 1, d_status := Pending, d_attempts := 0, d_assigned_connection_id := None,
       d_assignment_token := None, d_assignment_started_at := None, d_assignment_expires_at := None,
       d_assignment_max_expires_at := None, d_callback_token := None, d_callback_expires_at := None,
       d_callback_retry_at := None, d_callback_url := None, d_callback_credential_version := None,
       d_callback_reason := None, d_callback_dlq_published_at := None, d_updated_at := now\<rparr>"

definition replayed_outbox :: "time \<Rightarrow> string \<Rightarrow> string \<Rightarrow> outbox_row \<Rightarrow> outbox_row" where
  "replayed_outbox now payload messageID r =
     r\<lparr>ob_generation := ob_generation r + 1, ob_payload := payload, ob_message_id := messageID, ob_attempts := 0,
       ob_available_at := now, ob_claimed_at := None, ob_claim_token := None, ob_dispatched_at := None,
       ob_failed_at := None, ob_last_error := None, ob_updated_at := now\<rparr>"

definition replay_message_id :: "(string \<Rightarrow> string) \<Rightarrow> string \<Rightarrow> int \<Rightarrow> string" where
  "replay_message_id sha i generation = snd (outboxIdentities sha i) @ ''-g'' @ show_int generation"

text \<open>One row of the selection.\<close>

definition replay_one :: "(string \<Rightarrow> string) \<Rightarrow> time \<Rightarrow> delivery \<times> outbox_row \<Rightarrow> db \<Rightarrow> store_error + (replay_item \<times> db)" where
  "replay_one sha now = (\<lambda>(d, r) s.
     (case unmarshal_envelope False (ob_payload r) of
        None \<Rightarrow> Inl ErrConflict
      | Some en \<Rightarrow>
          if en_delivery_id en \<noteq> d_id d \<or> e_id (en_event en) \<noteq> d_event_id d then Inl ErrConflict
          else
            (case envelope_text (en\<lparr>en_generation := d_generation d + 1\<rparr>) of
               None \<Rightarrow> Inl ErrDB
             | Some payload \<Rightarrow>
                 let P = (\<lambda>x. d_id x = d_id d \<and> d_generation x = d_generation d \<and> d_status x = DeadLetter);
                     Q = (\<lambda>x. ob_id x = ob_id r \<and> ob_generation x = d_generation d);
                     m = replay_message_id sha (d_id d) (d_generation d + 1) in
                 (case update_deliveries P (replayed_delivery now) s of
                    None \<Rightarrow> Inl ErrDB
                  | Some s1 \<Rightarrow>
                      if sql_count P (deliveries s) \<noteq> 1 then Inl ErrConflict
                      else if sql_exists (\<lambda>x. \<not> Q x \<and> ob_message_id x = m) (outbox s1) \<and> sql_exists Q (outbox s1) then Inl ErrDB
                      else if sql_count Q (outbox s1) \<noteq> 1 then Inl ErrConflict
                      else Inr (\<lparr>ri_delivery_id = d_id d, ri_event_id = d_event_id d, ri_job_id = d_public_job_id d,
                                 ri_from_generation = d_generation d, ri_generation = d_generation d + 1, ri_status = ''pending''\<rparr>,
                                s1\<lparr>outbox := sql_update Q (replayed_outbox now payload m) (outbox s1)\<rparr>)))))"

fun replay_all :: "(string \<Rightarrow> string) \<Rightarrow> time \<Rightarrow> (delivery \<times> outbox_row) list \<Rightarrow> db \<Rightarrow> store_error + (replay_item list \<times> db)" where
  "replay_all sha now [] s = Inr ([], s)"
| "replay_all sha now (x # xs) s =
     (case replay_one sha now x s of
        Inl e \<Rightarrow> Inl e
      | Inr (i, s1) \<Rightarrow>
          (case replay_all sha now xs s1 of Inl e \<Rightarrow> Inl e | Inr (is, s2) \<Rightarrow> Inr (i # is, s2)))"

text \<open>The records that follow.\<close>

definition item_replay :: "replay_command \<Rightarrow> replay_item \<Rightarrow> delivery_replay" where
  "item_replay c i =
     \<lparr>dr_delivery_id = ri_delivery_id i, dr_from_generation = ri_from_generation i, dr_generation = ri_generation i,
      dr_key_hash = rc_key_hash c, dr_actor_id = rc_actor_id c, dr_occurred_at = rc_now c\<rparr>"

definition item_audit :: "replay_command \<Rightarrow> replay_item \<Rightarrow> audit_record" where
  "item_audit c i =
     \<lparr>ar_occurred_at = rc_now c, ar_actor_type = ''admin'', ar_actor_id = rc_actor_id c, ar_action = ''delivery.replay'',
      ar_resource_type = ''delivery'', ar_resource_id = ri_delivery_id i, ar_outcome = ''success'',
      ar_metadata = object_text [(''new_state'', json_quote ''pending''), (''previous_state'', json_quote ''dead_letter'')]\<rparr>"

definition item_lifecycle :: "replay_command \<Rightarrow> replay_item \<Rightarrow> delivery_event" where
  "item_lifecycle c i =
     \<lparr>dl_delivery_id = ri_delivery_id i, dl_generation = ri_generation i, dl_type = ''operator.replayed'',
      dl_outcome = ''pending'', dl_reason = None, dl_attempt = None, dl_occurred_at = rc_now c\<rparr>"

definition record_replay :: "replay_command \<Rightarrow> replay_item list \<Rightarrow> admin_db \<Rightarrow> store_error + admin_db" where
  "record_replay c is a =
     (if int (length (replay_result_text is)) > 64 * 1024 then Inl ErrDB
      else if list_ex (\<lambda>i. sql_exists (\<lambda>x. dr_delivery_id x = ri_delivery_id i \<and> dr_generation x = ri_generation i) (ad_replays a)) is
      then Inl ErrDB
      else Inr (a\<lparr>ad_requests := ad_requests a @
                    [\<lparr>rr_key_hash = rc_key_hash c, rr_fingerprint = rc_fingerprint c, rr_result = is, rr_actor_id = rc_actor_id c,
                      rr_created_at = rc_now c, rr_expires_at = rc_now c + adminReplayRetention\<rparr>],
                  ad_replays := ad_replays a @ map (item_replay c) is, ad_audit := ad_audit a @ map (item_audit c) is,
                  ad_db := add_lifecycle (map (item_lifecycle c) is) (ad_db a)\<rparr>))"

definition ReplayAdminDeadLetters ::
    "(string \<Rightarrow> string) \<Rightarrow> admin_db \<Rightarrow> time \<Rightarrow> replay_command \<Rightarrow> (admin_error + (replay_item list \<times> bool)) \<times> admin_db" where
  "ReplayAdminDeadLetters sha a dbNow c =
     (if \<not> replay_valid c then (Inl AdminInvalidArgument, a)
      else
        let a1 = a\<lparr>ad_requests := filter (\<lambda>r. \<not> rr_expires_at r \<le> dbNow) (ad_requests a)\<rparr>; ids = sort (rc_delivery_ids c) in
        case sql_row (\<lambda>r. rr_key_hash r = rc_key_hash c) (ad_requests a1) of
          Some r \<Rightarrow>
            if rr_fingerprint r \<noteq> rc_fingerprint c then (Inl (AdminStore ErrConflict), a) else (Inr (rr_result r, True), a1)
        | None \<Rightarrow>
            let rows = replay_rows (ad_db a1) ids in
            if length rows \<noteq> length ids then (Inl (AdminStore ErrConflict), a)
            else
              (case replay_all sha (rc_now c) rows (ad_db a1) of
                 Inl e \<Rightarrow> (Inl (AdminStore e), a)
               | Inr (is, s) \<Rightarrow>
                   (case record_replay c is (a1\<lparr>ad_db := s\<rparr>) of
                      Inl e \<Rightarrow> (Inl (AdminStore e), a)
                    | Inr a2 \<Rightarrow> (Inr (is, False), a2))))"

section \<open>The service\<close>

definition adminLifecycleError :: "admin_error \<Rightarrow> service_error" where
  "adminLifecycleError e =
     (case e of
        AdminInvalidArgument \<Rightarrow> SvcInvalidInput
      | AdminStore ErrNotFound \<Rightarrow> SvcNotFound
      | AdminStore ErrConflict \<Rightarrow> SvcConflict
      | AdminStore x \<Rightarrow> SvcStore x)"

definition AdminLifecycle_Replay ::
    "(string \<Rightarrow> string) \<Rightarrow> admin_db \<Rightarrow> time \<Rightarrow> time \<Rightarrow> string list \<Rightarrow> string \<Rightarrow> string
     \<Rightarrow> (service_error + (replay_item list \<times> bool)) \<times> admin_db" where
  "AdminLifecycle_Replay sha a dbNow now ids key actor =
     (if key = [] \<or> int (length key) > 256 \<or> go_trim_space key \<noteq> key \<or> actor = [] \<or> int (length actor) > 256 \<or> go_trim_space actor \<noteq> actor
      then (Inl SvcInvalidInput, a)
      else
        let canonical = sort ids;
            c = \<lparr>rc_delivery_ids = canonical, rc_key_hash = hex_encode (sha key),
                 rc_fingerprint = hex_encode (sha (''relayhub:admin-replay:v1:'' @ string_list_text canonical)),
                 rc_actor_id = actor, rc_now = now\<rparr> in
        if \<not> replay_valid c then (Inl SvcInvalidInput, a)
        else (case ReplayAdminDeadLetters sha a dbNow c of (r, a') \<Rightarrow> (map_sum adminLifecycleError id r, a')))"

text \<open>A run: replays at given times, and whatever the other components make of the database in between.\<close>

datatype admin_step = ReplayStep time replay_command | OtherStep db

fun exec_admin :: "(string \<Rightarrow> string) \<Rightarrow> admin_db \<Rightarrow> admin_step list \<Rightarrow> admin_db" where
  "exec_admin sha a [] = a"
| "exec_admin sha a (ReplayStep t c # xs) = exec_admin sha (snd (ReplayAdminDeadLetters sha a t c)) xs"
| "exec_admin sha a (OtherStep s # xs) = exec_admin sha (a\<lparr>ad_db := s\<rparr>) xs"

fun step_before :: "time \<Rightarrow> admin_step \<Rightarrow> bool" where
  "step_before e (ReplayStep t c) = (t < e)"
| "step_before e (OtherStep s) = True"

section \<open>Cursors round trip\<close>

lemma cursor_depth: "json_depth (annotate (cursor_json e)) \<le> 10000"
proof -
  have "json_depth (annotate (cursor_json e)) \<le> 1 + 0"
    unfolding cursor_json_def by (rule depth_obj) auto
  then show ?thesis by simp
qed

lemma b64_length: "length s \<le> length (b64_encode s)"
  by (induction s rule: b64_encode.induct) simp_all

lemma cursor_print:
  assumes "\<bar>ce_version e\<bar> < 2 ^ 63" "\<bar>ce_at_us e\<bar> < 2 ^ 63"
  obtains v where "parse_json False (json_print (cursor_json e)) = Inr v" and "decode_struct cursor_field v x = Some e"
proof -
  have wf: "json_wf (cursor_json e)" by (auto simp: cursor_json_def show_int_literal)
  have n: "parse_int64 (show_int (ce_version e)) = Some (ce_version e)" "parse_int64 (show_int (ce_at_us e)) = Some (ce_at_us e)"
    using assms by (auto intro!: parse_int64_show)
  have "decode_struct cursor_field (annotate (cursor_json e)) x = Some e"
    by (simp add: cursor_json_def decode_struct_def cursor_field_def decode_int_def decode_string_def n)
  with parse_json_print [OF wf cursor_depth, of False] that show ?thesis by blast
qed

section \<open>Replays\<close>

lemma replayed_delivery_simps [simp]:
  "d_id (replayed_delivery now d) = d_id d" "d_status (replayed_delivery now d) = Pending"
  "d_generation (replayed_delivery now d) = d_generation d + 1"
  by (simp_all add: replayed_delivery_def)

lemma replayed_outbox_simps [simp]:
  "ob_id (replayed_outbox now p m r) = ob_id r" "ob_delivery_id (replayed_outbox now p m r) = ob_delivery_id r"
  "ob_message_id (replayed_outbox now p m r) = m"
  by (simp_all add: replayed_outbox_def)

lemma replayed_outbox_check: "outbox_check r \<Longrightarrow> outbox_check (replayed_outbox now p m r)"
  by (simp add: outbox_check_def replayed_outbox_def)

text \<open>The new message of a row: its envelope with the next generation.\<close>

definition replay_message :: "(string \<Rightarrow> string) \<Rightarrow> time \<Rightarrow> delivery \<Rightarrow> outbox_row \<Rightarrow> outbox_row \<Rightarrow> bool" where
  "replay_message sha now d r r' \<longleftrightarrow>
     (\<exists>en payload. unmarshal_envelope False (ob_payload r) = Some en \<and> en_delivery_id en = d_id d \<and> e_id (en_event en) = d_event_id d \<and>
        envelope_text (en\<lparr>en_generation := d_generation d + 1\<rparr>) = Some payload \<and> ob_generation r = d_generation d \<and>
        r' = replayed_outbox now payload (replay_message_id sha (d_id d) (d_generation d + 1)) r)"

lemma replay_messageD:
  "replay_message sha now d r r' \<Longrightarrow> ob_delivery_id r' = ob_delivery_id r \<and> ob_id r' = ob_id r"
  by (auto simp: replay_message_def)

lemma replay_one_Inr:
  assumes "replay_one sha now (d, r) s = Inr (i, s')"
  obtains en payload and Q :: "outbox_row \<Rightarrow> bool" where "unmarshal_envelope False (ob_payload r) = Some en" "en_delivery_id en = d_id d"
    "e_id (en_event en) = d_event_id d" "envelope_text (en\<lparr>en_generation := d_generation d + 1\<rparr>) = Some payload"
    "Q = (\<lambda>x. ob_id x = ob_id r \<and> ob_generation x = d_generation d)" "sql_count Q (outbox s) = 1"
    "\<forall>x \<in> set (outbox s). ob_message_id x = replay_message_id sha (d_id d) (d_generation d + 1) \<longrightarrow> Q x"
    "update_deliveries (\<lambda>x. d_id x = d_id d \<and> d_generation x = d_generation d \<and> d_status x = DeadLetter)
       (replayed_delivery now) s = Some (s'\<lparr>outbox := outbox s\<rparr>)"
    "outbox s' = sql_update Q (replayed_outbox now payload (replay_message_id sha (d_id d) (d_generation d + 1))) (outbox s)"
    "ri_delivery_id i = d_id d" "ri_generation i = d_generation d + 1"
proof -
  define Q :: "outbox_row \<Rightarrow> bool" where "Q = (\<lambda>x. ob_id x = ob_id r \<and> ob_generation x = d_generation d)"
  define m where "m = replay_message_id sha (d_id d) (d_generation d + 1)"
  obtain en where en1: "unmarshal_envelope False (ob_payload r) = Some en"
    using assms by (auto simp: replay_one_def split: option.splits)
  have en2: "en_delivery_id en = d_id d" "e_id (en_event en) = d_event_id d"
    using assms en1 by (simp_all add: replay_one_def split: if_splits)
  obtain payload where en3: "envelope_text (en\<lparr>en_generation := d_generation d + 1\<rparr>) = Some payload"
    using assms en1 en2 by (auto simp: replay_one_def split: option.splits)
  let ?P = "\<lambda>x. d_id x = d_id d \<and> d_generation x = d_generation d \<and> d_status x = DeadLetter"
  obtain s1 where up: "update_deliveries ?P (replayed_delivery now) s = Some s1"
    using assms en1 en2 en3 by (cases "update_deliveries ?P (replayed_delivery now) s") (simp_all add: replay_one_def Let_def)
  note en = en1 en2 en3
  have rest: "\<not> ((\<exists>x \<in> set (outbox s1). \<not> Q x \<and> ob_message_id x = m) \<and> (\<exists>x \<in> set (outbox s1). Q x)) \<and> sql_count Q (outbox s1) = 1 \<and>
    s' = s1\<lparr>outbox := sql_update Q (replayed_outbox now payload m) (outbox s1)\<rparr> \<and>
    ri_delivery_id i = d_id d \<and> ri_generation i = d_generation d + 1"
    using assms unfolding Q_def m_def by (simp add: replay_one_def Let_def en up split: if_splits) auto
  note n = conjunct1 [OF rest] conjunct1 [OF conjunct2 [OF rest]] and i = conjunct2 [OF conjunct2 [OF rest]]
  have s': "s' = s1\<lparr>outbox := sql_update Q (replayed_outbox now payload m) (outbox s1)\<rparr>" using i by blast
  have i: "ri_delivery_id i = d_id d" "ri_generation i = d_generation d + 1" using i by blast+
  have o: "outbox s1 = outbox s" by (rule update_deliveries_frame [OF up])
  have "s1\<lparr>outbox := outbox s\<rparr> = s1" unfolding o [symmetric] by simp
  then have up': "update_deliveries (\<lambda>x. d_id x = d_id d \<and> d_generation x = d_generation d \<and> d_status x = DeadLetter)
      (replayed_delivery now) s = Some (s'\<lparr>outbox := outbox s\<rparr>)"
    using up s' by simp
  have "\<exists>x \<in> set (outbox s). Q x" using n(2) sql_count_0_iff [of Q "outbox s"] o by auto
  then have "\<forall>x \<in> set (outbox s). ob_message_id x = m \<longrightarrow> Q x" using n(1) o by auto
  then show ?thesis
    using that [OF en Q_def _ _ up' _ i] n(2) s' unfolding o m_def by simp
qed

lemma replay_one_deliveries:
  assumes ok: "deliveries_ok s" and d: "d \<in> set (deliveries s)" "d_status d = DeadLetter" and one: "replay_one sha now (d, r) s = Inr (i, s')"
  shows "deliveries_ok s'"
    and "find_delivery s' j = (if j = d_id d then Some (replayed_delivery now d) else find_delivery s j)"
    and "x \<in> set (deliveries s) \<Longrightarrow> d_id x \<noteq> d_id d \<Longrightarrow> x \<in> set (deliveries s')"
proof -
  let ?P = "\<lambda>x. d_id x = d_id d \<and> d_generation x = d_generation d \<and> d_status x = DeadLetter"
  let ?s1 = "s'\<lparr>outbox := outbox s\<rparr>"
  have up: "update_deliveries ?P (replayed_delivery now) s = Some ?s1" using one by (rule replay_one_Inr)
  have same: "deliveries_ok ?s1 = deliveries_ok s'" "find_delivery ?s1 j = find_delivery s' j"
    by (simp_all add: deliveries_ok_def find_delivery_def)
  have f: "find_delivery s (d_id d) = Some d"
    using ok d(1) by (auto simp: deliveries_ok_def find_delivery_def intro: sql_row_key)
  show "deliveries_ok s'" using deliveries_ok_update [OF up _ ok] same by simp
  show "find_delivery s' j = (if j = d_id d then Some (replayed_delivery now d) else find_delivery s j)"
  proof (cases "j = d_id d")
    case True
    then show ?thesis using find_delivery_update [OF up, of j] same(2) f d(2) by simp
  next
    case False
    have "find_delivery s' j = map_option (\<lambda>x. if ?P x then replayed_delivery now x else x) (find_delivery s j)"
      using find_delivery_update [OF up, of j] same(2) by simp
    also have "\<dots> = find_delivery s j" using False find_delivery_in [of s j] by (cases "find_delivery s j") simp_all
    finally show ?thesis using False by simp
  qed
  show "x \<in> set (deliveries s')" if "x \<in> set (deliveries s)" "d_id x \<noteq> d_id d"
  proof -
    have "deliveries ?s1 = sql_update ?P (replayed_delivery now) (deliveries s)"
      using arg_cong [OF conjunct2 [OF up [unfolded update_deliveries_Some]], of deliveries] by simp
    then show ?thesis using that by (auto simp: set_sql_update)
  qed
qed

lemma sql_update_only:
  assumes "distinct (map k rows)" and "r \<in> set rows" and "P r" and "\<And>x. P x \<Longrightarrow> k x = k r"
  shows "sql_update P f rows = map (\<lambda>x. if x = r then f r else x) rows"
proof -
  have "P x \<longleftrightarrow> x = r" if "x \<in> set rows" for x
    using distinct_key_unique [OF assms(1) that assms(2)] assms(3,4) by blast
  then show ?thesis unfolding sql_update_def by (auto intro: map_cong)
qed

lemma replay_one_outbox:
  assumes ok: "outbox_ok s" and r: "r \<in> set (outbox s)" and one: "replay_one sha now (d, r) s = Inr (i, s')"
  obtains r' where "replay_message sha now d r r'" and "outbox_ok s'" and "set (outbox s') = insert r' (set (outbox s) - {r})"
proof -
  define m where "m = replay_message_id sha (d_id d) (d_generation d + 1)"
  obtain en payload and Q :: "outbox_row \<Rightarrow> bool" where en: "unmarshal_envelope False (ob_payload r) = Some en" "en_delivery_id en = d_id d"
      "e_id (en_event en) = d_event_id d" "envelope_text (en\<lparr>en_generation := d_generation d + 1\<rparr>) = Some payload"
    and Q: "Q = (\<lambda>x. ob_id x = ob_id r \<and> ob_generation x = d_generation d)" "sql_count Q (outbox s) = 1"
    and u: "\<forall>x \<in> set (outbox s). ob_message_id x = m \<longrightarrow> Q x"
    and o: "outbox s' = sql_update Q (replayed_outbox now payload m) (outbox s)"
    using one unfolding m_def by (rule replay_one_Inr)
  have dist: "distinct (map ob_id (outbox s))" using ok by (simp add: outbox_ok_def)
  obtain x where "x \<in> set (outbox s)" "Q x" using Q(2) sql_count_0_iff [of Q "outbox s"] by auto
  moreover from this have "x = r" using distinct_key_unique [OF dist _ r] Q(1) by simp
  ultimately have Qr: "Q r" by simp
  let ?r = "replayed_outbox now payload m r"
  have o': "outbox s' = map (\<lambda>x. if x = r then ?r else x) (outbox s)"
    unfolding o by (rule sql_update_only [where k = ob_id and P = Q, OF dist r Qr]) (simp add: Q(1))
  have only: "x = r" if "x \<in> set (outbox s)" "ob_message_id x = m" for x
    using u that distinct_key_unique [OF dist _ r] Q(1) by simp
  have keep: "map k (outbox s') = map k (outbox s)" if "k ?r = k r" for k :: "outbox_row \<Rightarrow> string"
    unfolding o' using that by simp
  have "distinct (map ob_message_id (outbox s))" using ok by (simp add: outbox_ok_def)
  then have "inj_on (\<lambda>x. ob_message_id (if x = r then ?r else x)) (set (outbox s))"
    using only distinct_key_unique [of ob_message_id "outbox s"] by (intro inj_onI) (simp split: if_splits)
  moreover have "distinct (outbox s)" using dist by (simp add: distinct_map)
  ultimately have "distinct (map ob_message_id (outbox s'))" unfolding o' by (simp add: distinct_map comp_def)
  moreover have "list_all outbox_check (outbox s')"
    unfolding o' using ok r replayed_outbox_check by (auto simp: outbox_ok_def list_all_iff)
  ultimately have "outbox_ok s'" using ok keep [of ob_id] keep [of ob_delivery_id] by (simp add: outbox_ok_def)
  moreover have "replay_message sha now d r ?r"
    using en Qr Q(1) unfolding replay_message_def m_def by blast
  moreover have "set (outbox s') = insert ?r (set (outbox s) - {r})" unfolding o' using r by auto
  ultimately show ?thesis using that by blast
qed

text \<open>A selection: dead letters with their messages, each delivery once.\<close>

definition selection :: "db \<Rightarrow> (delivery \<times> outbox_row) list \<Rightarrow> bool" where
  "selection s xs \<longleftrightarrow> distinct (map (d_id \<circ> fst) xs) \<and>
     (\<forall>(d, r) \<in> set xs. d \<in> set (deliveries s) \<and> d_status d = DeadLetter \<and> r \<in> set (outbox s) \<and> ob_delivery_id r = d_id d)"

lemma selection_rest:
  assumes "selection s ((d, r) # xs)" and "\<And>x. x \<in> set (deliveries s) \<Longrightarrow> d_id x \<noteq> d_id d \<Longrightarrow> x \<in> set (deliveries s')"
    and "set (outbox s') = insert r' (set (outbox s) - {r})"
  shows "selection s' xs"
proof -
  have "d' \<in> set (deliveries s') \<and> d_status d' = DeadLetter \<and> q \<in> set (outbox s') \<and> ob_delivery_id q = d_id d'"
    if "(d', q) \<in> set xs" for d' q
  proof -
    have "d_id d' \<noteq> d_id d" using assms(1) that by (force simp: selection_def)
    moreover have "d' \<in> set (deliveries s)" "d_status d' = DeadLetter" "q \<in> set (outbox s)" "ob_delivery_id q = d_id d'"
      "ob_delivery_id r = d_id d"
      using assms(1) that by (auto simp: selection_def)
    ultimately show ?thesis using assms(2,3) by auto
  qed
  then show ?thesis using assms(1) by (auto simp: selection_def)
qed

text \<open>What replaying a selection does.\<close>

definition replay_effect :: "(string \<Rightarrow> string) \<Rightarrow> time \<Rightarrow> (delivery \<times> outbox_row) list \<Rightarrow> db \<Rightarrow> db \<Rightarrow> bool" where
  "replay_effect sha now xs s s' \<longleftrightarrow>
     deliveries_ok s' \<and> outbox_ok s' \<and>
     (\<forall>(d, r) \<in> set xs. find_delivery s' (d_id d) = Some (replayed_delivery now d) \<and>
        (\<exists>r' \<in> set (outbox s'). replay_message sha now d r r')) \<and>
     (\<forall>i. i \<notin> d_id ` fst ` set xs \<longrightarrow> find_delivery s' i = find_delivery s i) \<and>
     (\<forall>r. ob_delivery_id r \<notin> d_id ` fst ` set xs \<longrightarrow> (r \<in> set (outbox s') \<longleftrightarrow> r \<in> set (outbox s)))"

lemma replay_all_effect:
  assumes "replay_all sha now xs s = Inr (is, s')" and "deliveries_ok s" and "outbox_ok s" and "selection s xs"
  shows "map ri_delivery_id is = map (d_id \<circ> fst) xs \<and> replay_effect sha now xs s s'"
  using assms
proof (induction xs arbitrary: s "is")
  case Nil
  then show ?case by (simp add: replay_effect_def)
next
  case (Cons x xs)
  obtain d r where x: "x = (d, r)" by (cases x)
  obtain i s1 is1 where one: "replay_one sha now (d, r) s = Inr (i, s1)" and all: "replay_all sha now xs s1 = Inr (is1, s')"
    and "is": "is = i # is1"
    using Cons.prems(1) unfolding x by (auto split: sum.splits)
  have sel: "d \<in> set (deliveries s)" "d_status d = DeadLetter" "r \<in> set (outbox s)" "ob_delivery_id r = d_id d" "d_id d \<notin> d_id ` fst ` set xs"
    using Cons.prems(4) unfolding x by (auto simp: selection_def image_image)
  note ds = replay_one_deliveries [OF Cons.prems(2) sel(1,2) one]
  obtain r' where r': "replay_message sha now d r r'" "outbox_ok s1" "set (outbox s1) = insert r' (set (outbox s) - {r})"
    using Cons.prems(3) sel(3) one by (rule replay_one_outbox)
  have "selection s1 xs" using Cons.prems(4) ds(3) r'(3) unfolding x by (rule selection_rest)
  note IH = Cons.IH [OF all ds(1) r'(2) this]
  have i: "ri_delivery_id i = d_id d" using one by (rule replay_one_Inr)
  have o: "ob_delivery_id r' = d_id d" using replay_messageD [OF r'(1)] sel(4) by simp
  have eff: "replay_effect sha now xs s1 s'" using IH by blast
  have "find_delivery s' (d_id d) = Some (replayed_delivery now d)" "r' \<in> set (outbox s')"
    using eff sel(5) ds(2) [of "d_id d"] o r'(3) by (auto simp: replay_effect_def)
  moreover have "find_delivery s' j = find_delivery s j" if "j \<notin> d_id ` fst ` set (x # xs)" for j
    using eff that ds(2) [of j] by (simp add: replay_effect_def x)
  moreover have "(q \<in> set (outbox s')) = (q \<in> set (outbox s))" if "ob_delivery_id q \<notin> d_id ` fst ` set (x # xs)" for q
    using eff that r'(3) o sel(4) by (auto simp: replay_effect_def x)
  ultimately have "replay_effect sha now (x # xs) s s'"
    using eff r'(1) unfolding replay_effect_def x by auto
  then show ?case using IH i x "is" by simp
qed

text \<open>The rows the query returns are a selection, in the order of the identifiers.\<close>

lemma join_keys:
  "(\<And>d. d \<in> set ds \<Longrightarrow> length (F d) \<le> 1) \<Longrightarrow>
   map (k \<circ> fst) (concat (map (\<lambda>d. map (Pair d) (F d)) ds)) = map k (filter (\<lambda>d. F d \<noteq> []) ds)"
proof (induction ds)
  case (Cons d ds)
  have "length (F d) \<le> 1" using Cons.prems by simp
  then have "F d = [] \<or> (\<exists>x. F d = [x])" by (cases "F d") auto
  moreover have "map (k \<circ> fst) (concat (map (\<lambda>d. map (Pair d) (F d)) ds)) = map k (filter (\<lambda>d. F d \<noteq> []) ds)"
    using Cons.prems by (intro Cons.IH) simp
  ultimately show ?case by (auto simp: comp_def)
qed simp

lemma sorted_same_set:
  assumes "sorted (xs :: string list)" "distinct xs" "set xs \<subseteq> set ys" "length xs = length ys" "distinct ys"
  shows "xs = sort ys"
proof -
  have "set xs = set ys"
    by (rule card_subset_eq) (use assms distinct_card [of xs] distinct_card [of ys] in simp_all)
  then show ?thesis using assms(1,2,5) by (intro sorted_distinct_set_unique) simp_all
qed

lemma replay_rows_selection:
  assumes "deliveries_ok s" and "outbox_ok s"
  shows "selection s (replay_rows s ids)"
    and "length (replay_rows s ids) = length ids \<Longrightarrow> distinct ids \<Longrightarrow> map (d_id \<circ> fst) (replay_rows s ids) = sort ids"
proof -
  let ?ds = "sort_key d_id (filter (\<lambda>d. d_id d \<in> set ids \<and> d_status d = DeadLetter) (deliveries s))"
  let ?F = "\<lambda>d. filter (\<lambda>r. ob_delivery_id r = d_id d) (outbox s)"
  have "length (?F d) \<le> 1" for d
    using sql_count_key_le1 [of ob_delivery_id "outbox s" "\<lambda>r. ob_delivery_id r = d_id d" "d_id d"] assms(2)
    by (simp add: outbox_ok_def sql_count_def)
  then have keys: "map (d_id \<circ> fst) (replay_rows s ids) = map d_id (filter (\<lambda>d. ?F d \<noteq> []) ?ds)"
    unfolding replay_rows_def by (intro join_keys)
  have "distinct (map d_id ?ds)"
    using assms(1) by (auto simp: deliveries_ok_def distinct_map intro: inj_on_subset)
  then have dist: "distinct (map (d_id \<circ> fst) (replay_rows s ids))"
    unfolding keys by (rule distinct_map_filter)
  then show "selection s (replay_rows s ids)" by (auto simp: selection_def replay_rows_def)
  show "map (d_id \<circ> fst) (replay_rows s ids) = sort ids" if "length (replay_rows s ids) = length ids" "distinct ids"
  proof (rule sorted_same_set [OF _ dist _ _ that(2)])
    show "sorted (map (d_id \<circ> fst) (replay_rows s ids))"
      unfolding keys by (rule sorted_filter) simp
    show "set (map (d_id \<circ> fst) (replay_rows s ids)) \<subseteq> set ids" unfolding keys by auto
  qed (simp add: that(1))
qed

lemma ReplayAdminDeadLetters_fresh:
  assumes "ReplayAdminDeadLetters sha a dbNow c = (Inr (is, False), a')"
  obtains s where "replay_valid c" and "length (replay_rows (ad_db a) (sort (rc_delivery_ids c))) = length (rc_delivery_ids c)"
    and "replay_all sha (rc_now c) (replay_rows (ad_db a) (sort (rc_delivery_ids c))) (ad_db a) = Inr (is, s)"
    and "ad_db a' = add_lifecycle (map (item_lifecycle c) is) s"
    and "sql_row (\<lambda>r. rr_key_hash r = rc_key_hash c) (filter (\<lambda>r. \<not> rr_expires_at r \<le> dbNow) (ad_requests a)) = None"
    and "ad_requests a' = filter (\<lambda>r. \<not> rr_expires_at r \<le> dbNow) (ad_requests a) @
      [\<lparr>rr_key_hash = rc_key_hash c, rr_fingerprint = rc_fingerprint c, rr_result = is, rr_actor_id = rc_actor_id c,
        rr_created_at = rc_now c, rr_expires_at = rc_now c + adminReplayRetention\<rparr>]"
proof -
  have valid: "replay_valid c" using assms by (auto simp: ReplayAdminDeadLetters_def split: if_splits)
  let ?q = "sql_row (\<lambda>r. rr_key_hash r = rc_key_hash c) (filter (\<lambda>r. \<not> rr_expires_at r \<le> dbNow) (ad_requests a))"
  have none: "?q = None"
    using assms valid by (cases ?q) (simp_all add: ReplayAdminDeadLetters_def Let_def split: if_splits)
  have len: "length (replay_rows (ad_db a) (sort (rc_delivery_ids c))) = length (rc_delivery_ids c)"
    using assms valid none by (simp add: ReplayAdminDeadLetters_def Let_def split: if_splits)
  obtain is1 s where all: "replay_all sha (rc_now c) (replay_rows (ad_db a) (sort (rc_delivery_ids c))) (ad_db a) = Inr (is1, s)"
    using assms valid none len by (simp add: ReplayAdminDeadLetters_def Let_def split: sum.splits prod.splits)
  have "is1 = is \<and> record_replay c is (a\<lparr>ad_requests := filter (\<lambda>r. \<not> rr_expires_at r \<le> dbNow) (ad_requests a), ad_db := s\<rparr>) = Inr a'"
    using assms valid none len all by (simp add: ReplayAdminDeadLetters_def Let_def split: sum.splits prod.splits)
  then show ?thesis
    using that [OF valid len _ _ none, of s] all by (auto simp: record_replay_def split: if_splits)
qed

text \<open>A recorded request stays the first of its key until it expires.\<close>

lemma sql_row_filter: "sql_row P rows = Some r \<Longrightarrow> K r \<Longrightarrow> sql_row P (filter K rows) = Some r"
  unfolding sql_row_def by (induction rows) (auto split: if_splits)

lemma sql_row_append: "sql_row P rows = Some r \<Longrightarrow> sql_row P (rows @ xs) = Some r"
  unfolding sql_row_def by (induction rows) (auto split: if_splits)

lemma sql_row_new: "sql_row P rows = None \<Longrightarrow> P r \<Longrightarrow> sql_row P (rows @ [r]) = Some r"
  unfolding sql_row_def by (induction rows) (auto split: if_splits)

lemma ReplayAdminDeadLetters_requests:
  "ad_requests (snd (ReplayAdminDeadLetters sha a t c)) = ad_requests a \<or>
   (\<exists>xs. ad_requests (snd (ReplayAdminDeadLetters sha a t c)) = filter (\<lambda>r. \<not> rr_expires_at r \<le> t) (ad_requests a) @ xs)"
  by (simp add: ReplayAdminDeadLetters_def record_replay_def Let_def split: option.splits sum.splits prod.splits if_splits)

lemma request_kept:
  assumes "sql_row (\<lambda>r. rr_key_hash r = k) (ad_requests a) = Some r" and "t < rr_expires_at r"
  shows "sql_row (\<lambda>r. rr_key_hash r = k) (ad_requests (snd (ReplayAdminDeadLetters sha a t c))) = Some r"
  using ReplayAdminDeadLetters_requests [of sha a t c]
proof
  assume "\<exists>xs. ad_requests (snd (ReplayAdminDeadLetters sha a t c)) = filter (\<lambda>r. \<not> rr_expires_at r \<le> t) (ad_requests a) @ xs"
  then show ?thesis using sql_row_append [OF sql_row_filter [OF assms(1)]] assms(2) by fastforce
qed (simp add: assms(1))

lemma run_request_kept:
  "sql_row (\<lambda>r. rr_key_hash r = k) (ad_requests a) = Some r \<Longrightarrow> list_all (step_before (rr_expires_at r)) xs \<Longrightarrow>
   sql_row (\<lambda>r. rr_key_hash r = k) (ad_requests (exec_admin sha a xs)) = Some r"
proof (induction sha a xs rule: exec_admin.induct)
  case (2 sha a t c xs)
  then show ?case using request_kept [OF 2(2), of t sha c] by simp
qed simp_all

lemma stale_generation_refused:
  assumes "find_delivery s i = Some d" and "d_generation d \<noteq> g"
  shows "\<exists>e. AssignStreamDelivery s i app conn tok g now lease mx = (Inl e, s)"
  using assms by (simp add: AssignStreamDelivery_def)

section \<open>Properties\<close>

text \<open>C19. A replay that succeeds covers exactly the selection: every selected delivery was a dead letter and is now
  pending in its next generation without attempts or leases, its message carries the next generation under a new
  message identifier and is due, and no other delivery or message changes.  The tables keep their constraints, and a
  message of the former generation that is still under way can no longer be assigned.\<close>

theorem replay_new_generation:
  assumes "deliveries_ok (ad_db a)" and "outbox_ok (ad_db a)" and "ReplayAdminDeadLetters sha a dbNow c = (Inr (is, False), a')"
  shows "map ri_delivery_id is = sort (rc_delivery_ids c) \<and> deliveries_ok (ad_db a') \<and> outbox_ok (ad_db a') \<and>
    (\<forall>i \<in> set (rc_delivery_ids c). \<exists>d r r'. d \<in> set (deliveries (ad_db a)) \<and> d_id d = i \<and> d_status d = DeadLetter \<and>
       r \<in> set (outbox (ad_db a)) \<and> ob_delivery_id r = i \<and> find_delivery (ad_db a') i = Some (replayed_delivery (rc_now c) d) \<and>
       r' \<in> set (outbox (ad_db a')) \<and> replay_message sha (rc_now c) d r r' \<and>
       (\<forall>app conn tok now lease mx. \<exists>e. AssignStreamDelivery (ad_db a') i app conn tok (d_generation d) now lease mx = (Inl e, ad_db a'))) \<and>
    (\<forall>i. i \<notin> set (rc_delivery_ids c) \<longrightarrow> find_delivery (ad_db a') i = find_delivery (ad_db a) i) \<and>
    (\<forall>r. ob_delivery_id r \<notin> set (rc_delivery_ids c) \<longrightarrow> (r \<in> set (outbox (ad_db a')) \<longleftrightarrow> r \<in> set (outbox (ad_db a))))"
proof -
  let ?rows = "replay_rows (ad_db a) (sort (rc_delivery_ids c))"
  obtain s where v: "replay_valid c" and len: "length ?rows = length (rc_delivery_ids c)"
    and all: "replay_all sha (rc_now c) ?rows (ad_db a) = Inr (is, s)" and s: "ad_db a' = add_lifecycle (map (item_lifecycle c) is) s"
    using assms(3) by (rule ReplayAdminDeadLetters_fresh)
  note sel = replay_rows_selection [OF assms(1,2), of "sort (rc_delivery_ids c)"]
  have keys: "map (d_id \<circ> fst) ?rows = sort (rc_delivery_ids c)" using sel(2) len v by (simp add: replay_valid_def sorted_sort_id)
  have ids: "d_id ` fst ` set ?rows = set (rc_delivery_ids c)" using arg_cong [OF keys, of set] by (simp add: image_comp)
  have eff: "map ri_delivery_id is = map (d_id \<circ> fst) ?rows \<and> replay_effect sha (rc_now c) ?rows (ad_db a) s"
    using all assms(1,2) sel(1) by (rule replay_all_effect)
  have each: "\<exists>d r r'. d \<in> set (deliveries (ad_db a)) \<and> d_id d = i \<and> d_status d = DeadLetter \<and>
       r \<in> set (outbox (ad_db a)) \<and> ob_delivery_id r = i \<and> find_delivery (ad_db a') i = Some (replayed_delivery (rc_now c) d) \<and>
       r' \<in> set (outbox (ad_db a')) \<and> replay_message sha (rc_now c) d r r' \<and>
       (\<forall>app conn tok now lease mx. \<exists>e. AssignStreamDelivery (ad_db a') i app conn tok (d_generation d) now lease mx = (Inl e, ad_db a'))"
    if i: "i \<in> set (rc_delivery_ids c)" for i
  proof -
    obtain d r where dr: "(d, r) \<in> set ?rows" "i = d_id d" using i unfolding ids [symmetric] by auto
    then have "d \<in> set (deliveries (ad_db a))" "d_status d = DeadLetter" "r \<in> set (outbox (ad_db a))" "ob_delivery_id r = d_id d"
      using sel(1) by (auto simp: selection_def)
    moreover have f: "find_delivery (ad_db a') i = Some (replayed_delivery (rc_now c) d)"
      and "\<exists>r' \<in> set (outbox (ad_db a')). replay_message sha (rc_now c) d r r'"
      using eff dr by (auto simp: replay_effect_def s)
    moreover note stale_generation_refused [OF f, of "d_generation d"]
    ultimately show ?thesis using dr(2) by auto
  qed
  then show ?thesis using eff keys by (auto simp: replay_effect_def ids s)
qed

definition replay_example :: admin_db where
  "replay_example =
     \<lparr>ad_db = empty_db\<lparr>deliveries := [(example_delivery ''d1'')\<lparr>d_status := DeadLetter\<rparr>, example_delivery ''d2''],
        outbox := [\<lparr>ob_id = ''o1'', ob_event_id = d_event_id (example_delivery ''d1''), ob_delivery_id = ''d1'', ob_subject = ''x'',
          ob_payload = the (envelope_text \<lparr>en_delivery_id = ''d1'', en_generation = 1,
            en_event = \<lparr>e_id = d_event_id (example_delivery ''d1''), e_type = ''t'', e_source_app_id = ''src'', e_target_app_ids = [''app''],
              e_data = ''{}'', e_created_at = (0, 0), e_queue = None\<rparr>\<rparr>),
          ob_message_id = ''m1'', ob_attempts = 5, ob_generation = 1, ob_available_at = 0, ob_claimed_at = None, ob_claim_token = None,
          ob_dispatched_at = None, ob_failed_at = Some 9, ob_last_error = Some ''x'', ob_created_at = 0, ob_updated_at = 9\<rparr>]\<rparr>,
      ad_requests = [], ad_replays = [], ad_audit = []\<rparr>"

definition example_digest :: "string \<Rightarrow> string" where "example_digest s = take 32 (s @ replicate 32 CHR ''x'')"

definition replay_example_command :: replay_command where
  "replay_example_command =
     \<lparr>rc_delivery_ids = [''d1''], rc_key_hash = hex_encode (example_digest ''k''), rc_fingerprint = hex_encode (example_digest ''f''),
      rc_actor_id = ''op'', rc_now = 100\<rparr>"

theorem replay_new_generation_witness:
  "\<exists>is a' d. ReplayAdminDeadLetters example_digest replay_example 50 replay_example_command = (Inr (is, False), a') \<and>
     find_delivery (ad_db a') ''d1'' = Some d \<and> d_status d = Pending \<and> d_generation d = 2"
proof -
  have "case fst (ReplayAdminDeadLetters example_digest replay_example 50 replay_example_command) of
      Inl _ \<Rightarrow> False | Inr (_, b) \<Rightarrow> \<not> b" by code_simp
  then obtain "is" a' where run: "ReplayAdminDeadLetters example_digest replay_example 50 replay_example_command = (Inr (is, False), a')"
    by (cases "ReplayAdminDeadLetters example_digest replay_example 50 replay_example_command") (auto split: sum.splits)
  have ok: "deliveries_ok (ad_db replay_example)" "outbox_ok (ad_db replay_example)" by code_simp+
  have g: "\<forall>d \<in> set (deliveries (ad_db replay_example)). d_generation d = 1" by code_simp
  have i: "''d1'' \<in> set (rc_delivery_ids replay_example_command)" by (simp add: replay_example_command_def)
  obtain d where "d \<in> set (deliveries (ad_db replay_example))"
    "find_delivery (ad_db a') ''d1'' = Some (replayed_delivery (rc_now replay_example_command) d)"
    using replay_new_generation [OF ok run] i by blast
  then show ?thesis using run g by auto
qed

text \<open>C20. Replays are idempotent under their key.  Once a replay has succeeded, and until its record expires, a second
  request with the same key for the same deliveries, in any order and by any operator, returns the items of the
  first and changes neither deliveries nor messages nor the history, whatever else happens to the database and
  whichever other replays run in between.\<close>

theorem replay_idempotent:
  assumes first: "AdminLifecycle_Replay sha a dbNow now ids key actor = (Inr (is, False), a1)"
    and steps: "list_all (step_before (now + adminReplayRetention)) xs" and later: "dbNow' < now + adminReplayRetention"
    and same: "mset ids' = mset ids" and actor': "validLifecycleValue actor'" and now': "now' \<noteq> zero_time"
  shows "\<exists>a3. AdminLifecycle_Replay sha (exec_admin sha a1 xs) dbNow' now' ids' key actor' = (Inr (is, True), a3) \<and>
    ad_db a3 = ad_db (exec_admin sha a1 xs) \<and> ad_replays a3 = ad_replays (exec_admin sha a1 xs) \<and>
    ad_audit a3 = ad_audit (exec_admin sha a1 xs)"
proof -
  define f where "f = hex_encode (sha (''relayhub:admin-replay:v1:'' @ string_list_text (sort ids)))"
  define c where "c = (\<lambda>w t. \<lparr>rc_delivery_ids = sort ids, rc_key_hash = hex_encode (sha key), rc_fingerprint = f, rc_actor_id = w, rc_now = t\<rparr>)"
  have sorted: "sort ids' = sort ids" using same by (intro properties_for_sort) simp_all
  have guard: "key \<noteq> []" "\<not> int (length key) > 256" "go_trim_space key = key"
    using first by (auto simp: AdminLifecycle_Replay_def split: if_splits)
  have valid: "replay_valid (c actor now)" and run: "ReplayAdminDeadLetters sha a dbNow (c actor now) = (Inr (is, False), a1)"
    using first unfolding AdminLifecycle_Replay_def Let_def f_def [symmetric] c_def
    by (auto split: if_splits prod.splits sum.splits simp: map_sum_def)
  obtain r where r: "sql_row (\<lambda>r. rr_key_hash r = hex_encode (sha key)) (ad_requests a1) = Some r"
    "rr_fingerprint r = f" "rr_result r = is" "rr_expires_at r = now + adminReplayRetention"
    using run by (rule ReplayAdminDeadLetters_fresh) (simp add: c_def sql_row_new)
  define a2 where "a2 = exec_admin sha a1 xs"
  have kept: "sql_row (\<lambda>r. rr_key_hash r = hex_encode (sha key)) (filter (\<lambda>r. \<not> rr_expires_at r \<le> dbNow') (ad_requests a2)) = Some r"
    unfolding a2_def using run_request_kept [OF r(1), of xs sha] steps later r(4) by (intro sql_row_filter) simp_all
  have "replay_valid (c actor' now')" using valid actor' now' by (simp add: replay_valid_def c_def)
  moreover from this have "ReplayAdminDeadLetters sha a2 dbNow' (c actor' now') =
      (Inr (is, True), a2\<lparr>ad_requests := filter (\<lambda>r. \<not> rr_expires_at r \<le> dbNow') (ad_requests a2)\<rparr>)"
    using kept r(2,3) by (simp add: ReplayAdminDeadLetters_def Let_def c_def)
  ultimately show ?thesis
    using guard actor' unfolding AdminLifecycle_Replay_def Let_def sorted f_def [symmetric] c_def a2_def
    by (simp add: validLifecycleValue_def)
qed

theorem replay_idempotent_witness:
  "\<exists>is a1 a3. AdminLifecycle_Replay example_digest replay_example 50 100 [''d1''] ''k'' ''op'' = (Inr (is, False), a1) \<and>
     AdminLifecycle_Replay example_digest (exec_admin example_digest a1 [OtherStep empty_db, ReplayStep 150 replay_example_command])
       200 200 [''d1''] ''k'' ''op2'' = (Inr (is, True), a3)"
proof -
  have "case fst (AdminLifecycle_Replay example_digest replay_example 50 100 [''d1''] ''k'' ''op'') of
      Inl _ \<Rightarrow> False | Inr (_, b) \<Rightarrow> \<not> b" by code_simp
  then obtain "is" a1 where run: "AdminLifecycle_Replay example_digest replay_example 50 100 [''d1''] ''k'' ''op'' = (Inr (is, False), a1)"
    by (cases "AdminLifecycle_Replay example_digest replay_example 50 100 [''d1''] ''k'' ''op''") (auto split: sum.splits)
  have t: "list_all (step_before (100 + adminReplayRetention)) [OtherStep empty_db, ReplayStep 150 replay_example_command]"
    "200 < 100 + adminReplayRetention" "validLifecycleValue ''op2''" "200 \<noteq> zero_time" by code_simp+
  show ?thesis using replay_idempotent [OF run t(1,2) _ t(3,4), of "[''d1'']"] run by blast
qed

text \<open>C29. The cursor of a page is read back as it was written.  Every cursor of an instant after the epoch that
  can be encoded decodes, under the filter it was issued for, to the same position with the instant cut to
  microseconds; under any other filter it is refused.\<close>

theorem cursor_roundtrip:
  assumes "EncodeCursor c = Some raw" and "1000 \<le> cu_timestamp c" and "cu_timestamp c < 1000 * 2 ^ 63"
  shows "DecodeCursor raw (cu_filter c) = Some (c\<lparr>cu_version := 1, cu_timestamp := cu_timestamp c div 1000 * 1000\<rparr>) \<and>
    (\<forall>f. f \<noteq> cu_filter c \<longrightarrow> DecodeCursor raw f = None)"
proof -
  define e where "e = \<lparr>ce_version = 1, ce_at_us = cu_timestamp c div 1000, ce_id = cu_id c, ce_filter = cu_filter c\<rparr>"
  have enc: "raw = b64_encode (json_print (cursor_json e))" "int (length raw) \<le> MaxCursorLength" "cursor_id_ok (cu_id c)"
    "int (length (cu_filter c)) = 64"
    using assms(1) by (auto simp: EncodeCursor_def Let_def e_def split: if_splits)
  obtain v where v: "parse_json False (json_print (cursor_json e)) = Inr v"
    "decode_struct cursor_field v \<lparr>ce_version = 0, ce_at_us = 0, ce_id = [], ce_filter = []\<rparr> = Some e"
  proof (rule cursor_print [of e])
    show "\<bar>ce_version e\<bar> < 2 ^ 63" by (simp add: e_def)
    have "cu_timestamp c div 1000 < 2 ^ 63" "0 \<le> cu_timestamp c div 1000" using assms(2,3) by linarith+
    then show "\<bar>ce_at_us e\<bar> < 2 ^ 63" by (simp add: e_def)
  qed
  have n: "raw \<noteq> []" "int (length (json_print (cursor_json e))) \<le> MaxCursorLength"
    using enc(1,2) b64_length [of "json_print (cursor_json e)"] by (auto simp: cursor_json_def)
  have pos: "0 < ce_at_us e" using assms(2) by (simp add: e_def)
  have "DecodeCursor raw f = (if f = cu_filter c then
      Some (c\<lparr>cu_version := 1, cu_timestamp := cu_timestamp c div 1000 * 1000\<rparr>) else None)" for f
    using enc n v pos unfolding DecodeCursor_def by (simp add: e_def)
  then show ?thesis by simp
qed

definition example_cursor :: cursor where
  "example_cursor = \<lparr>cu_version = 1, cu_timestamp = 1700000000123456789, cu_id = ''evt_1'', cu_filter = hex_encode (example_digest ''f'')\<rparr>"

theorem cursor_roundtrip_witness:
  "\<exists>raw. EncodeCursor example_cursor = Some raw \<and>
     DecodeCursor raw (cu_filter example_cursor) = Some (example_cursor\<lparr>cu_timestamp := 1700000000123456000\<rparr>)"
proof -
  have "EncodeCursor example_cursor \<noteq> None" by code_simp
  then obtain raw where raw: "EncodeCursor example_cursor = Some raw" by blast
  have t: "1000 \<le> cu_timestamp example_cursor" "cu_timestamp example_cursor < 1000 * 2 ^ 63"
    by (simp_all add: example_cursor_def)
  show ?thesis using cursor_roundtrip [OF raw t] raw by (simp add: example_cursor_def)
qed

end
