(* ===== verification/Spec2Isabelle.thy ===== *)
theory Spec2Isabelle
  imports Dispatcher StreamProtocol CallbackRuns QueueService Functions EventService StreamGateway Admin
begin

text \<open>
  RelayHub: a verification of its delivery pipeline, pull queue, function calls and stream gateway.

  \<^bold>\<open>The program.\<close>  RelayHub (\<^verbatim>\<open>src/backend\<close>, Go) accepts events from applications and delivers each of them to the
  applications it targets.  A publication (\<^verbatim>\<open>service/events.go\<close>, \<^verbatim>\<open>store/postgres/events.go\<close>) is one transaction: it
  writes the event, a delivery for every sink of every target, an outbox message for every delivery and a queue
  delivery for every matching pull subscription.  The outbox dispatcher (\<^verbatim>\<open>outbox/dispatcher.go\<close>) claims due messages
  and hands them to the broker.  From there a stream session (\<^verbatim>\<open>streamgateway\<close>) leases the delivery and sends it to a
  connected consumer, or the callback worker (\<^verbatim>\<open>worker/jetstream.go\<close>) posts it to the application's endpoint.  Pull
  consumers (\<^verbatim>\<open>service/queue.go\<close>, \<^verbatim>\<open>store/postgres/queue_v2.go\<close>) lease queue deliveries with receipts; schedules
  publish by themselves; functions are calls from one application to a connection of another.  Operators replay
  dead letters.

  \<^bold>\<open>Conventions of the model.\<close>  The PostgreSQL tables are lists of records in one record \<open>db\<close>; a statement is a
  filter or an update of a list, checks and unique keys included, and a transaction that fails returns the database
  it started from.  Instants and durations are integers in nanoseconds.  Errors are values of sum types.  SHA-256,
  md5, the cipher, the cron library, URL parsing, the base 32 token of an identifier and the rows other
  transactions have locked are arguments of the definitions that use them.  Random identifiers, tokens and clock
  readings are arguments too.  JSON is written out as text: parsers and printers work on bytes.  Concurrent
  processes are sequences of steps, where a step is what the code does in one transaction or under one mutex.

  \<^bold>\<open>The theories.\<close>
  \<^item> \<open>Prelude\<close>: statements on tables, nullable columns, and the two contracts the components share, an invariant
    system and rows that stay as they are once settled.
  \<^item> \<open>Database\<close>: the records of the tables and their constraints (\<^verbatim>\<open>store/postgres/migrations\<close>).
  \<^item> \<open>GoLib\<close>, \<open>Json\<close>: the parts of Go's library the code relies on: trimming, numbers, RFC 3339 times, UTF-8, and
    JSON with the round trip of printing and parsing.
  \<^item> \<open>Domain\<close>: rules of the domain types (\<^verbatim>\<open>domain\<close>).
  \<^item> \<open>StreamAssignments\<close>: leases of stream deliveries (\<^verbatim>\<open>store/postgres/delivery_assignments.go\<close>).  A lease excludes
    others while it runs, is bounded, refines an abstract lock, and an acknowledged delivery stays acknowledged.
  \<^item> \<open>Outbox\<close>, \<open>Dispatcher\<close>: the outbox (\<^verbatim>\<open>store/postgres/outbox.go\<close>, \<^verbatim>\<open>outbox/dispatcher.go\<close>).  A round settles what it
    claims, publications are bounded by the attempts, settled messages are final.
  \<^item> \<open>StreamProtocol\<close>, \<open>Wire\<close>: frames of the stream protocol (\<^verbatim>\<open>streamprotocol/protocol.go\<close>), events and envelopes.
  \<^item> \<open>Auth\<close>: signatures and realtime tokens (\<^verbatim>\<open>auth/signature.go\<close>, \<^verbatim>\<open>auth/token.go\<close>).
  \<^item> \<open>Callbacks\<close>, \<open>CallbackRuns\<close>: attempts in the store (\<^verbatim>\<open>store/postgres/callbacks.go\<close>), the HTTP exchange and its
    classification (\<^verbatim>\<open>delivery\<close>), and the worker.  The worker is proved against a contract of its store which the
    model of the PostgreSQL store is shown to satisfy.
  \<^item> \<open>Queue\<close>, \<open>QueueRuns\<close>, \<open>QueueProperties\<close>: the pull queue (\<^verbatim>\<open>store/postgres/queue_v2.go\<close>, \<^verbatim>\<open>queue_callbacks.go\<close>),
    its calls as steps, ordering, receipts, attempts, limits and constraints over any sequence of calls.
  \<^item> \<open>QueueSchedules\<close>, \<open>Services\<close>, \<open>QueueService\<close>: schedules (\<^verbatim>\<open>store/postgres/queue_scheduler.go\<close>,
    \<^verbatim>\<open>service/queue_schedule.go\<close>), helpers of the services and the handlers of the queue (\<^verbatim>\<open>service/queue.go\<close>).
  \<^item> \<open>Functions\<close>: the catalogue, the invocations and the function service (\<^verbatim>\<open>store/postgres/functions.go\<close>,
    \<^verbatim>\<open>function_invocations.go\<close>, \<^verbatim>\<open>service/functions.go\<close>).
  \<^item> \<open>Routing\<close>, \<open>Events\<close>, \<open>EventService\<close>: routing rules and publication.  A publication fans out to exactly the
    enabled sinks of its targets, keeps the constraints of all tables, and is idempotent under its key.
  \<^item> \<open>StreamGateway\<close>: the gateway and the state machine of a session (\<^verbatim>\<open>streamgateway/gateway.go\<close>, \<^verbatim>\<open>session.go\<close>):
    capacity, acknowledgements only for settled deliveries, and the return of everything held when it closes.
  \<^item> \<open>Admin\<close>: cursors of lists and the replay of dead letters (\<^verbatim>\<open>adminread\<close>, \<^verbatim>\<open>store/postgres/admin_lifecycle.go\<close>,
    \<^verbatim>\<open>service/admin_lifecycle.go\<close>).
  \<^item> This theory: a published event reaches the broker, across \<open>EventService\<close>, \<open>Events\<close>, \<open>Outbox\<close> and \<open>Dispatcher\<close>.

  \<^bold>\<open>Bounds and fuel.\<close>  The JSON parser runs with twice the length of its input plus one, which \<open>Json\<close> proves to be
  enough; loops over lists are structural.  The waits of a pull and of a function call consume a list of rounds,
  one for every time the code looks at the database, and are proved to end when the deadline has passed.  The
  retry loop of the dispatcher counts attempts down.  Counters that the code keeps in 64 bits are integers; where a
  value is read from text the range of \<^verbatim>\<open>int64\<close> is checked as the code does.

  \<^bold>\<open>Known defects.\<close>  Theorems whose text describes a defect state it of the code as it is: an outbox message of a
  stream delivery that is already assigned (\<open>assigned_delivery_blocks_outbox\<close>), a dispatch that undoes a delivered
  state (\<open>dispatch_undoes_delivered\<close>), a drain that an expired lease blocks (\<open>drain_blocked_by_expired_lease\<close>), a queue
  replay that breaks the order of a key (\<open>replay_breaks_key_order\<close>), bytes that leak from a session
  (\<open>redelivery_leaks_bytes\<close>), and events with queue options that a stream cannot carry (\<open>queued_event_refused\<close>).

  \<^bold>\<open>Not modelled.\<close>  HTTP routing, cookies and rendering (\<^verbatim>\<open>httpapi\<close>, \<^verbatim>\<open>cmd\<close>, \<^verbatim>\<open>runtime\<close>, \<^verbatim>\<open>web\<close>) hand requests to
  the services above and are input and output.  The realtime hub with its NATS bridge (\<^verbatim>\<open>realtime\<close>) and the Redis
  state (\<^verbatim>\<open>redisstate\<close>) rest on Lua scripts, sockets and third-party clients.  The broker and object store clients,
  push adapters, metrics, the password hash and the cipher wrap libraries that are parameters here.  The lists and
  timelines for operators are reads; the audit writer measures floating point values of decoded JSON.  The migration
  tool moves data between Redis and PostgreSQL.  The SDKs, the Rust rewrite and the TypeScript applications are
  separate programs that share the wire formats.
\<close>

section \<open>From the publication to the broker\<close>

lemma due_row_claimed:
  assumes "r \<in> set (outbox s)" and "outbox_due now staleBefore r" and "int (length (outbox s)) \<le> limit"
  shows "r \<in> set (outbox_candidates {} now staleBefore limit (outbox s))"
proof -
  have "length (filter (\<lambda>r. outbox_due now staleBefore r \<and> ob_id r \<notin> {}) (outbox s)) \<le> nat limit"
    using assms(3) length_filter_le [of "\<lambda>r. outbox_due now staleBefore r \<and> ob_id r \<notin> {}" "outbox s"] by linarith
  then show ?thesis using assms(1,2) by (simp add: outbox_candidates_def)
qed

lemma message_dispatched:
  assumes "outbox_ok s" and "RunOnce (pg_outbox_ops {} clock) publish opt now (Some tok) s = (n, err, run, s')"
    and "err \<noteq> Some ErrStoreUnavailable" and "int (length (outbox s)) \<le> BatchSize opt" and "0 < dispatcher_options.MaxAttempts opt"
    and "r \<in> set (outbox s)" and "outbox_due now (now - ClaimTTL opt) r" and "ob_attempts r = 0"
  shows "row_publication r \<in> set (dr_published run) \<and>
    (publish (row_publication r) \<noteq> None \<longrightarrow> (\<exists>r'. find_outbox s' (ob_id r) = Some r' \<and> ob_dispatched_at r' = Some now))"
proof -
  let ?claimed = "outbox_candidates {} now (now - ClaimTTL opt) (BatchSize opt) (outbox s)"
  have r: "r \<in> set ?claimed" using due_row_claimed [OF assms(6,7,4)] .
  have f: "find_outbox s (ob_id r) = Some r"
    using assms(1,6) sql_row_key [of ob_id "outbox s" r] by (simp add: find_outbox_def outbox_ok_def)
  note out = round_outcome [OF assms(1-3) refl, of "ob_id r"]
  have "find_outbox s' (ob_id r) = Some (settle_row opt clock now (publish (row_publication r)) (claim_row now tok r))"
    using out r f by auto
  moreover have "ob_dispatched_at (settle_row opt clock now (Some b) (claim_row now tok r)) = Some now" for b
    using assms(5,8) by (simp add: settle_row_def claim_row_def dispatch_row_def)
  moreover have "row_publication r \<in> set (dr_published run)" using out r assms(5,8) by auto
  ultimately show ?thesis by auto
qed



end
